(* ===== verification/Prelude.thy ===== *)
theory Prelude
  imports Main "HOL-Library.AList" "HOL-Library.Word" "HOL-Library.Char_ord"
    "HOL-Library.List_Lexorder"
begin

text \<open>
  Shared vocabulary of the development: Go's strings, times, maps, contexts and gRPC status
  errors as the Relay uses them, the automation collections and the generic lemmas on them.

  A Go string is the list of its bytes (\<open>string\<close>).  A Go map that the code ranges over is
  an association list with distinct keys; the order of the list stands for the iteration
  order, which Go leaves unspecified, so every theorem holds for every order.  A pointer is a
  \<open>nat\<close> into a heap.  A time or a duration is an \<open>int\<close> counting nanoseconds.
\<close>

section \<open>Automation collections\<close>

named_theorems gomap_simps \<open>lookups, keys and distinctness of Go maps\<close>
named_theorems session_simps \<open>equations that unfold the operations of a session\<close>
named_theorems inv_intros \<open>preservation of the components' invariants\<close>

section \<open>Times and durations\<close>

type_synonym gotime = int

abbreviation millisecond :: int where "millisecond \<equiv> 1000000"
abbreviation second :: int where "second \<equiv> 1000000000"
abbreviation minute :: int where "minute \<equiv> 60 * second"
abbreviation hour :: int where "hour \<equiv> 60 * minute"

text \<open>\<open>time.Time.UnixMilli\<close>: the count of milliseconds, rounded towards minus infinity
  as the library computes it from whole seconds and a non-negative nanosecond part.\<close>

definition unixMilli :: "gotime \<Rightarrow> int" where
  "unixMilli t = t div millisecond"

section \<open>Status codes, errors and contexts\<close>

datatype code = Canceled | Unknown | InvalidArgument | DeadlineExceeded | NotFound
  | AlreadyExists | PermissionDenied | ResourceExhausted | FailedPrecondition | Aborted
  | Unimplemented | Internal | Unavailable | Unauthenticated

datatype ctxErr = CtxCanceled | CtxDeadlineExceeded

text \<open>A Go \<open>error\<close> as the Relay handles it: a gRPC status, a context error, a sentinel error
  variable of the program (with the text wrapped around it), or an error of a library call known
  by its text only.\<close>

datatype goerror = Status code string | CtxError ctxErr | Sentinel string string | OtherError string

definition fromContextError :: "ctxErr \<Rightarrow> goerror" where
  "fromContextError e = (case e of
     CtxCanceled \<Rightarrow> Status Canceled ''context canceled''
   | CtxDeadlineExceeded \<Rightarrow> Status DeadlineExceeded ''context deadline exceeded'')"

fun statusCode :: "goerror \<Rightarrow> code" where
  "statusCode (Status c _) = c"
| "statusCode (CtxError _) = Unknown"
| "statusCode (Sentinel _ _) = Unknown"
| "statusCode (OtherError _) = Unknown"

text \<open>\<open>errors.Is\<close> on a sentinel variable.\<close>

fun errorIs :: "goerror \<Rightarrow> string \<Rightarrow> bool" where
  "errorIs (Sentinel name _) s = (name = s)"
| "errorIs _ s = False"

fun codeName :: "code \<Rightarrow> string" where
  "codeName Canceled = ''Canceled''"
| "codeName Unknown = ''Unknown''"
| "codeName InvalidArgument = ''InvalidArgument''"
| "codeName DeadlineExceeded = ''DeadlineExceeded''"
| "codeName NotFound = ''NotFound''"
| "codeName AlreadyExists = ''AlreadyExists''"
| "codeName PermissionDenied = ''PermissionDenied''"
| "codeName ResourceExhausted = ''ResourceExhausted''"
| "codeName FailedPrecondition = ''FailedPrecondition''"
| "codeName Aborted = ''Aborted''"
| "codeName Unimplemented = ''Unimplemented''"
| "codeName Internal = ''Internal''"
| "codeName Unavailable = ''Unavailable''"
| "codeName Unauthenticated = ''Unauthenticated''"

text \<open>\<open>err.Error()\<close>.\<close>

fun errText :: "goerror \<Rightarrow> string" where
  "errText (Status c m) = ''rpc error: code = '' @ codeName c @ '' desc = '' @ m"
| "errText (CtxError CtxCanceled) = ''context canceled''"
| "errText (CtxError CtxDeadlineExceeded) = ''context deadline exceeded''"
| "errText (Sentinel name detail) = name @ detail"
| "errText (OtherError m) = m"

section \<open>Go maps\<close>

type_synonym 'v gomap = "(string \<times> 'v) list"

abbreviation mget :: "'v gomap \<Rightarrow> string \<Rightarrow> 'v option" where "mget m k \<equiv> map_of m k"
abbreviation mput :: "string \<Rightarrow> 'v \<Rightarrow> 'v gomap \<Rightarrow> 'v gomap" where "mput \<equiv> AList.update"
abbreviation mdel :: "string \<Rightarrow> 'v gomap \<Rightarrow> 'v gomap" where "mdel \<equiv> AList.delete"
abbreviation mkeys :: "'v gomap \<Rightarrow> string set" where "mkeys m \<equiv> fst ` set m"
abbreviation mok :: "'v gomap \<Rightarrow> bool" where "mok m \<equiv> distinct (map fst m)"

lemma mget_mput [gomap_simps]: "mget (mput k v m) k' = (if k' = k then Some v else mget m k')"
  by (simp add: update_conv')

lemma mget_mdel [gomap_simps]: "mget (mdel k m) k' = (if k' = k then None else mget m k')"
  by (simp add: delete_conv')

lemma mok_mput [gomap_simps, simp]: "mok m \<Longrightarrow> mok (mput k v m)"
  by (rule distinct_update)

lemma mok_mdel [gomap_simps, simp]: "mok m \<Longrightarrow> mok (mdel k m)"
  by (rule distinct_delete)

lemma mok_filter [gomap_simps, simp]: "mok m \<Longrightarrow> mok (filter P m)"
  by (induction m) auto

lemma mget_None_iff: "mget m k = None \<longleftrightarrow> k \<notin> mkeys m"
  by (rule map_of_eq_None_iff)

lemma mget_Some_mem: "mget m k = Some v \<Longrightarrow> (k, v) \<in> set m"
  by (rule map_of_SomeD)

lemma mem_mget: "mok m \<Longrightarrow> (k, v) \<in> set m \<Longrightarrow> mget m k = Some v"
  by simp

lemma mget_filter:
  "mok m \<Longrightarrow> mget (filter P m) k = (case mget m k of None \<Rightarrow> None
     | Some v \<Rightarrow> if P (k, v) then Some v else None)"
proof (induction m)
  case (Cons p m)
  then have "mget m (fst p) = None"
    by (auto simp: map_of_eq_None_iff)
  with Cons show ?case
    by (cases p) (auto split: option.splits)
qed simp

lemma length_mput:
  "length (mput k v m) = (if mget m k = None then Suc (length m) else length m)"
  by (induction m) auto

lemma length_mdel_less: "k \<in> mkeys m \<Longrightarrow> length (mdel k m) < length m"
proof (induction m)
  case (Cons p m)
  then show ?case
    using length_delete_le [of k m] by (cases p) auto
qed simp

lemma length_mdel_mok: "mok m \<Longrightarrow> k \<in> mkeys m \<Longrightarrow> length (mdel k m) = length m - 1"
proof (induction m)
  case (Cons p m)
  show ?case
  proof (cases "fst p = k")
    case True
    with Cons.prems show ?thesis by (cases p) auto
  next
    case False
    with Cons.prems have "k \<in> mkeys m" and "m \<noteq> []" by (cases p; auto)+
    with False Cons show ?thesis by (cases p; cases m) auto
  qed
qed simp

lemma set_mdel: "set (mdel k m) = {p \<in> set m. fst p \<noteq> k}"
  by (induction m) auto

lemma set_mput_subset: "set (mput k v m) \<subseteq> insert (k, v) (set m)"
  by (induction m) auto

lemma mkeys_mput [gomap_simps]: "mkeys (mput k v m) = insert k (mkeys m)"
  by (simp add: dom_update)

lemma mkeys_mdel [gomap_simps]: "mkeys (mdel k m) = mkeys m - {k}"
  by (auto simp: set_mdel image_iff)

lemma disjoint_mono: "A \<inter> B = {} \<Longrightarrow> A' \<subseteq> A \<Longrightarrow> B' \<subseteq> B \<Longrightarrow> A' \<inter> B' = {}"
  by blast

section \<open>Strings\<close>

text \<open>The UTF-8 encodings of the runes for which \<open>unicode.IsSpace\<close> holds.\<close>

definition goSpaces :: "string list" where
  "goSpaces = [[CHR 0x20], [CHR 0x09], [CHR 0x0A], [CHR 0x0B], [CHR 0x0C], [CHR 0x0D],
     [CHR 0xC2, CHR 0x85], [CHR 0xC2, CHR 0xA0], [CHR 0xE1, CHR 0x9A, CHR 0x80],
     [CHR 0xE2, CHR 0x80, CHR 0x80], [CHR 0xE2, CHR 0x80, CHR 0x81],
     [CHR 0xE2, CHR 0x80, CHR 0x82], [CHR 0xE2, CHR 0x80, CHR 0x83],
     [CHR 0xE2, CHR 0x80, CHR 0x84], [CHR 0xE2, CHR 0x80, CHR 0x85],
     [CHR 0xE2, CHR 0x80, CHR 0x86], [CHR 0xE2, CHR 0x80, CHR 0x87],
     [CHR 0xE2, CHR 0x80, CHR 0x88], [CHR 0xE2, CHR 0x80, CHR 0x89],
     [CHR 0xE2, CHR 0x80, CHR 0x8A], [CHR 0xE2, CHR 0x80, CHR 0xA8],
     [CHR 0xE2, CHR 0x80, CHR 0xA9], [CHR 0xE2, CHR 0x80, CHR 0xAF],
     [CHR 0xE2, CHR 0x81, CHR 0x9F], [CHR 0xE3, CHR 0x80, CHR 0x80]]"

definition hasPrefix :: "string \<Rightarrow> string \<Rightarrow> bool" where
  "hasPrefix s p \<longleftrightarrow> take (length p) s = p"

definition trimPrefix :: "string \<Rightarrow> string \<Rightarrow> string" where
  "trimPrefix s p = (if hasPrefix s p then drop (length p) s else s)"

text \<open>Drop words of \<open>ws\<close> from the front of \<open>s\<close> as long as one of them is a prefix.\<close>

function dropWords :: "string list \<Rightarrow> string \<Rightarrow> string" where
  "dropWords ws s = (case find (\<lambda>w. w \<noteq> [] \<and> hasPrefix s w) ws of
     None \<Rightarrow> s | Some w \<Rightarrow> dropWords ws (drop (length w) s))"
  by pat_completeness auto
termination
proof (relation "measure (\<lambda>(ws, s). length s)")
  fix ws s w
  assume "find (\<lambda>w. w \<noteq> [] \<and> hasPrefix s w) ws = Some w"
  then have "w \<noteq> []" and "hasPrefix s w"
    by (auto simp: find_Some_iff)
  then show "((ws, drop (length w) s), (ws, s)) \<in> measure (\<lambda>(ws, s). length s)"
    by (cases s) (auto simp: hasPrefix_def)
qed simp

declare dropWords.simps [simp del]

text \<open>\<open>strings.TrimSpace\<close>.\<close>

definition trimLeft :: "string \<Rightarrow> string" where
  "trimLeft s = dropWords goSpaces s"

definition trimRight :: "string \<Rightarrow> string" where
  "trimRight s = rev (dropWords (map rev goSpaces) (rev s))"

definition trimSpace :: "string \<Rightarrow> string" where
  "trimSpace s = trimRight (trimLeft s)"

definition noWordPrefix :: "string list \<Rightarrow> string \<Rightarrow> bool" where
  "noWordPrefix ws s \<longleftrightarrow> (\<forall>w\<in>set ws. w \<noteq> [] \<longrightarrow> \<not> hasPrefix s w)"

lemma dropWords_id: "noWordPrefix ws s \<Longrightarrow> dropWords ws s = s"
proof -
  assume "noWordPrefix ws s"
  then have "find (\<lambda>w. w \<noteq> [] \<and> hasPrefix s w) ws = None"
    by (auto simp: noWordPrefix_def find_None_iff)
  then show ?thesis by (simp add: dropWords.simps [of ws s])
qed

lemma dropWords_no_prefix: "noWordPrefix ws (dropWords ws s)"
proof (induction ws s rule: dropWords.induct)
  case (1 ws s)
  show ?case
  proof (cases "find (\<lambda>w. w \<noteq> [] \<and> hasPrefix s w) ws")
    case None
    then have "noWordPrefix ws s" by (auto simp: noWordPrefix_def find_None_iff)
    then show ?thesis by (simp add: dropWords_id)
  next
    case (Some w)
    with "1.IH" [OF Some] show ?thesis by (simp add: dropWords.simps [of ws s])
  qed
qed

lemma dropWords_suffix: "\<exists>p. s = p @ dropWords ws s"
proof (induction ws s rule: dropWords.induct)
  case (1 ws s)
  show ?case
  proof (cases "find (\<lambda>w. w \<noteq> [] \<and> hasPrefix s w) ws")
    case None
    then show ?thesis by (simp add: dropWords.simps [of ws s])
  next
    case (Some w)
    obtain p where "drop (length w) s = p @ dropWords ws (drop (length w) s)"
      using "1.IH" [OF Some] by blast
    then have "s = (take (length w) s @ p) @ dropWords ws (drop (length w) s)"
      using append_take_drop_id [of "length w" s] by simp
    moreover have "dropWords ws s = dropWords ws (drop (length w) s)"
      by (subst dropWords.simps) (simp add: Some)
    ultimately show ?thesis by (intro exI [of _ "take (length w) s @ p"]) simp
  qed
qed

lemma trimRight_prefix: "\<exists>q. s = trimRight s @ q"
proof -
  obtain p where "rev s = p @ dropWords (map rev goSpaces) (rev s)"
    using dropWords_suffix by blast
  then have "s = trimRight s @ rev p"
    unfolding trimRight_def by (metis rev_append rev_rev_ident)
  then show ?thesis by blast
qed

lemma noWordPrefix_prefix: "noWordPrefix ws (a @ b) \<Longrightarrow> noWordPrefix ws a"
  unfolding noWordPrefix_def hasPrefix_def by (metis append_take_drop_id length_take min.absorb2
      nat_le_linear take_all take_append append_Nil2 diff_is_0_eq take0)

lemma trimSpace_idem [simp]: "trimSpace (trimSpace s) = trimSpace s"
proof -
  let ?l = "trimLeft s"
  obtain q where q: "?l = trimRight ?l @ q" using trimRight_prefix by blast
  have "noWordPrefix goSpaces ?l" by (simp add: trimLeft_def dropWords_no_prefix)
  then have "noWordPrefix goSpaces (trimRight ?l)"
    by (subst (asm) q) (rule noWordPrefix_prefix)
  then have left: "trimLeft (trimRight ?l) = trimRight ?l"
    by (simp add: trimLeft_def dropWords_id)
  have "trimRight (trimRight ?l) = trimRight ?l"
    by (simp add: trimRight_def dropWords_id dropWords_no_prefix)
  with left show ?thesis by (simp add: trimSpace_def)
qed

text \<open>A string whose first and last byte are visible ASCII characters is its own trim; the
  concrete inputs of the witnesses are of this form.\<close>

definition visible :: "char \<Rightarrow> bool" where
  "visible c \<longleftrightarrow> (of_char c :: nat) > 32 \<and> (of_char c :: nat) < 127"

lemma trimSpace_visible:
  assumes "s \<noteq> []" "visible (hd s)" "visible (last s)"
  shows "trimSpace s = s"
proof -
  have "noWordPrefix goSpaces s"
    using assms(1,2) by (cases s)
      (auto simp: noWordPrefix_def goSpaces_def hasPrefix_def visible_def)
  moreover have "noWordPrefix (map rev goSpaces) (rev s)"
    using assms(1,3) by (cases s rule: rev_cases)
      (auto simp: noWordPrefix_def goSpaces_def hasPrefix_def visible_def)
  ultimately show ?thesis
    by (simp add: trimSpace_def trimLeft_def trimRight_def dropWords_id)
qed

lemma trimSpace_Nil [simp]: "trimSpace [] = []"
  by (simp add: trimSpace_def trimLeft_def trimRight_def dropWords_id noWordPrefix_def
      hasPrefix_def)

text \<open>\<open>strings.ToLower\<close> on ASCII letters.\<close>

definition isUpperASCII :: "char \<Rightarrow> bool" where
  "isUpperASCII c \<longleftrightarrow> CHR ''A'' \<le> c \<and> c \<le> CHR ''Z''"

definition isLowerASCII :: "char \<Rightarrow> bool" where
  "isLowerASCII c \<longleftrightarrow> CHR ''a'' \<le> c \<and> c \<le> CHR ''z''"

definition isDigitASCII :: "char \<Rightarrow> bool" where
  "isDigitASCII c \<longleftrightarrow> CHR ''0'' \<le> c \<and> c \<le> CHR ''9''"

definition toLowerChar :: "char \<Rightarrow> char" where
  "toLowerChar c = (if isUpperASCII c then char_of ((of_char c :: nat) + 32) else c)"

definition toLower :: "string \<Rightarrow> string" where
  "toLower s = map toLowerChar s"

section \<open>Decimal numbers\<close>

definition digitChar :: "nat \<Rightarrow> char" where
  "digitChar d = char_of (48 + d)"

definition hexDigit :: "nat \<Rightarrow> char" where
  "hexDigit n = (if n < 10 then digitChar n else char_of (87 + n))"

text \<open>\<open>hex.EncodeToString\<close>.\<close>

definition hexEncode :: "string \<Rightarrow> string" where
  "hexEncode s = concat (map (\<lambda>c. [hexDigit (of_char c div 16), hexDigit (of_char c mod 16)]) s)"

fun showNat :: "nat \<Rightarrow> string" where
  "showNat n = (if n < 10 then [digitChar n] else showNat (n div 10) @ [digitChar (n mod 10)])"

declare showNat.simps [simp del]

lemma showNat_not_Nil [simp]: "showNat n \<noteq> []"
  by (subst showNat.simps) simp

end
