(* ===== verification/Retention.thy ===== *)
theory Retention
  imports Prelude
begin

text \<open>
  Retention of command outcomes (\<open>internal/relay/apiserver.go\<close> and
  \<open>mission_deployment.go\<close>).  A session keeps one table per command kind from command IDs to
  pointers to command states.  All three tables are cleaned by the same two loops: completed
  entries older than 24 hours expire, and when a table is full the oldest completed entry is
  evicted.  Both loops are modelled once, over any heap of states, and the locale
  \<open>command_lifecycle\<close> states what a command kind promises: finishing a state marks it
  completed, stamps it, and closes its \<open>done\<close> channel once.
\<close>

section \<open>The two loops\<close>

definition operationCommandRetention :: int where
  "operationCommandRetention = 24 * hour"

definition maxOperationCommands :: nat where
  "maxOperationCommands = 4096"

text \<open>\<open>h\<close> is the heap of states, \<open>cmpl\<close> and \<open>at\<close> read \<open>completed\<close> and
  \<open>completedAt\<close>.\<close>

definition expired :: "('s \<Rightarrow> bool) \<Rightarrow> ('s \<Rightarrow> gotime) \<Rightarrow> gotime \<Rightarrow> 's \<Rightarrow> bool" where
  "expired cmpl at now st \<longleftrightarrow> cmpl st \<and> now - at st \<ge> operationCommandRetention"

definition expireCommands ::
  "('s \<Rightarrow> bool) \<Rightarrow> ('s \<Rightarrow> gotime) \<Rightarrow> (nat \<Rightarrow> 's) \<Rightarrow> gotime \<Rightarrow> nat gomap \<Rightarrow> nat gomap" where
  "expireCommands cmpl at h now m = filter (\<lambda>(k, r). \<not> expired cmpl at now (h r)) m"

text \<open>The inner scan: the local variables \<open>oldestID\<close> and \<open>oldest\<close>, with the empty ID
  standing for "none yet", as in the source.\<close>

fun scanOldest ::
  "('s \<Rightarrow> bool) \<Rightarrow> ('s \<Rightarrow> gotime) \<Rightarrow> (nat \<Rightarrow> 's) \<Rightarrow> nat gomap \<Rightarrow> string \<times> gotime
    \<Rightarrow> string \<times> gotime" where
  "scanOldest cmpl at h [] acc = acc"
| "scanOldest cmpl at h ((k, r) # m) (oldestID, oldest) =
     (if \<not> cmpl (h r) then scanOldest cmpl at h m (oldestID, oldest)
      else if oldestID = [] \<or> at (h r) < oldest then scanOldest cmpl at h m (k, at (h r))
      else scanOldest cmpl at h m (oldestID, oldest))"

lemma scanOldest_key:
  "fst (scanOldest cmpl at h m acc) = fst acc \<or> fst (scanOldest cmpl at h m acc) \<in> mkeys m"
proof (induction m arbitrary: acc)
  case (Cons p m)
  obtain k r where p: "p = (k, r)" by (cases p)
  obtain oid old where acc: "acc = (oid, old)" by (cases acc)
  show ?case
    using Cons.IH [of "(k, at (h r))"] Cons.IH [of acc] unfolding p acc by auto
qed simp

function makeRoom ::
  "('s \<Rightarrow> bool) \<Rightarrow> ('s \<Rightarrow> gotime) \<Rightarrow> (nat \<Rightarrow> 's) \<Rightarrow> nat gomap \<Rightarrow> nat gomap" where
  "makeRoom cmpl at h m =
     (if length m \<ge> maxOperationCommands
      then (let oldestID = fst (scanOldest cmpl at h m ([], 0))
            in if oldestID = [] then m else makeRoom cmpl at h (mdel oldestID m))
      else m)"
  by pat_completeness auto
termination
proof (relation "measure (\<lambda>(cmpl, at, h, m). length m)")
  fix cmpl :: "'s \<Rightarrow> bool" and at :: "'s \<Rightarrow> gotime" and h m x
  assume "x = fst (scanOldest cmpl at h m ([], 0))" and "x \<noteq> []"
  then have "x \<in> mkeys m" using scanOldest_key [of cmpl at h m "([], 0)"] by auto
  then show "((cmpl, at, h, mdel x m), (cmpl, at, h, m)) \<in> measure (\<lambda>(cmpl, at, h, m). length m)"
    by (simp add: length_mdel_less)
qed simp

declare makeRoom.simps [simp del]

section \<open>What the loops do\<close>

lemma mok_expireCommands [simp, gomap_simps]: "mok m \<Longrightarrow> mok (expireCommands cmpl at h now m)"
  by (simp add: expireCommands_def)

lemma set_expireCommands:
  "set (expireCommands cmpl at h now m) = {p \<in> set m. \<not> expired cmpl at now (h (snd p))}"
  by (auto simp: expireCommands_def)

lemma length_expireCommands_le: "length (expireCommands cmpl at h now m) \<le> length m"
  by (simp add: expireCommands_def)

lemma mget_expireCommands [gomap_simps]:
  "mok m \<Longrightarrow> mget (expireCommands cmpl at h now m) k =
     (case mget m k of None \<Rightarrow> None
      | Some r \<Rightarrow> if expired cmpl at now (h r) then None else Some r)"
  by (auto simp: expireCommands_def mget_filter split: option.splits)

lemma scanOldest_least:
  assumes "[] \<notin> mkeys m"
  shows "let (oid', old') = scanOldest cmpl at h m (oid, old) in
     (oid' = oid \<and> old' = old \<and> (\<forall>(k, r) \<in> set m. cmpl (h r) \<longrightarrow> oid \<noteq> [] \<and> old \<le> at (h r))) \<or>
     (\<exists>r. (oid', r) \<in> set m \<and> cmpl (h r) \<and> old' = at (h r) \<and> (oid \<noteq> [] \<longrightarrow> old' < old) \<and>
        (\<forall>(k, r) \<in> set m. cmpl (h r) \<longrightarrow> old' \<le> at (h r)))"
  using assms
proof (induction m arbitrary: oid old)
  case (Cons p m)
  obtain k r where p: "p = (k, r)" by (cases p)
  from Cons.prems p have ne: "k \<noteq> []" "[] \<notin> mkeys m" by auto
  show ?case
  proof (cases "cmpl (h r) \<and> (oid = [] \<or> at (h r) < old)")
    case True
    then have eq: "scanOldest cmpl at h (p # m) (oid, old) = scanOldest cmpl at h m (k, at (h r))"
      by (simp add: p)
    show ?thesis
      using Cons.IH [OF ne(2), of k "at (h r)"] True ne(1) unfolding eq p
      by (fastforce simp: Let_def split: prod.splits)
  next
    case False
    then have eq: "scanOldest cmpl at h (p # m) (oid, old) = scanOldest cmpl at h m (oid, old)"
      by (auto simp: p)
    show ?thesis
      using Cons.IH [OF ne(2), of oid old] False unfolding eq p
      by (auto simp: Let_def split: prod.splits)
  qed
qed simp

lemma makeRoom_below: "length m < maxOperationCommands \<Longrightarrow> makeRoom cmpl at h m = m"
  by (simp add: makeRoom.simps)

lemma makeRoom_subset: "set (makeRoom cmpl at h m) \<subseteq> set m"
proof (induction cmpl at h m rule: makeRoom.induct)
  case (1 cmpl at h m)
  then show ?case
    by (subst makeRoom.simps) (auto simp: Let_def set_mdel)
qed

lemma mok_makeRoom [simp, gomap_simps]: "mok m \<Longrightarrow> mok (makeRoom cmpl at h m)"
proof (induction cmpl at h m rule: makeRoom.induct)
  case (1 cmpl at h m)
  then show ?case
    by (subst makeRoom.simps) (auto simp: Let_def)
qed

lemma length_makeRoom_le: "length (makeRoom cmpl at h m) \<le> length m"
proof (induction cmpl at h m rule: makeRoom.induct)
  case (1 cmpl at h m)
  then show ?case
    by (subst makeRoom.simps)
      (auto simp: Let_def intro: order_trans [OF _ length_delete_le])
qed

text \<open>Every entry the eviction loop drops is completed, and no older than any completed entry
  it keeps; it stops below the bound or when nothing completed is left.\<close>

lemma makeRoom_evicts:
  assumes "mok m" "[] \<notin> mkeys m"
  shows "\<forall>(k, r) \<in> set m - set (makeRoom cmpl at h m). cmpl (h r) \<and>
     (\<forall>(k', r') \<in> set (makeRoom cmpl at h m). cmpl (h r') \<longrightarrow> at (h r) \<le> at (h r'))"
  using assms
proof (induction cmpl at h m rule: makeRoom.induct)
  case (1 cmpl at h m)
  define oid where "oid = fst (scanOldest cmpl at h m ([], 0))"
  show ?case
  proof (cases "length m \<ge> maxOperationCommands \<and> oid \<noteq> []")
    case False
    then have "makeRoom cmpl at h m = m"
      by (subst makeRoom.simps) (auto simp: oid_def Let_def)
    then show ?thesis by simp
  next
    case True
    then have eq: "makeRoom cmpl at h m = makeRoom cmpl at h (mdel oid m)"
      by (subst makeRoom.simps) (auto simp: oid_def Let_def)
    have scan: "scanOldest cmpl at h m ([], 0) = (oid, snd (scanOldest cmpl at h m ([], 0)))"
      by (simp add: oid_def)
    from scanOldest_least [OF "1.prems"(2), of cmpl at h "[]" 0] True
    obtain r0 where r0: "(oid, r0) \<in> set m" "cmpl (h r0)"
      "\<forall>(k, r) \<in> set m. cmpl (h r) \<longrightarrow> at (h r0) \<le> at (h r)"
      by (subst (asm) (1) scan) (auto simp: Let_def)
    have IH: "\<forall>(k, r) \<in> set (mdel oid m) - set (makeRoom cmpl at h (mdel oid m)). cmpl (h r) \<and>
       (\<forall>(k', r') \<in> set (makeRoom cmpl at h (mdel oid m)). cmpl (h r') \<longrightarrow> at (h r) \<le> at (h r'))"
      using "1.IH" True "1.prems" by (auto simp: oid_def gomap_simps)
    have sub: "set (makeRoom cmpl at h (mdel oid m)) \<subseteq> set m"
      using makeRoom_subset [of cmpl at h "mdel oid m"] by (auto simp: set_mdel)
    show ?thesis
      unfolding eq
    proof (clarify, goal_cases)
      case (1 k r)
      show ?case
      proof (cases "k = oid")
        case True
        with 1 r0 "1.prems"(1) have "r = r0" by (metis mem_mget option.inject)
        with r0 sub show ?thesis by fastforce
      next
        case False
        with 1 have "(k, r) \<in> set (mdel oid m)" by (simp add: set_mdel)
        with 1 IH show ?thesis by fastforce
      qed
    qed
  qed
qed

lemma mget_makeRoom_None: "mget m k = None \<Longrightarrow> mget (makeRoom cmpl at h m) k = None"
  using makeRoom_subset [of cmpl at h m] by (auto simp: map_of_eq_None_iff)

lemma mget_makeRoom_fresh: "k \<notin> mkeys m \<Longrightarrow> k \<notin> mkeys (makeRoom cmpl at h m)"
  using makeRoom_subset [of cmpl at h m] by auto

lemma mget_makeRoomD: "mget (makeRoom cmpl at h m) k = Some r \<Longrightarrow> \<exists>r'. mget m k = Some r'"
  using mget_makeRoom_None [of m k cmpl at h] by (cases "mget m k") auto

lemma makeRoom_room:
  assumes "[] \<notin> mkeys m"
  shows "length (makeRoom cmpl at h m) < maxOperationCommands \<or>
    (\<forall>(k, r) \<in> set (makeRoom cmpl at h m). \<not> cmpl (h r))"
  using assms
proof (induction cmpl at h m rule: makeRoom.induct)
  case (1 cmpl at h m)
  define oid where "oid = fst (scanOldest cmpl at h m ([], 0))"
  show ?case
  proof (cases "length m \<ge> maxOperationCommands")
    case False
    then show ?thesis by (simp add: makeRoom_below)
  next
    case len: True
    show ?thesis
    proof (cases "oid = []")
      case True
      then have eq: "makeRoom cmpl at h m = m"
        by (subst makeRoom.simps) (auto simp: oid_def Let_def)
      have "\<forall>(k, r) \<in> set m. \<not> cmpl (h r)"
        using scanOldest_least [OF "1.prems", of cmpl at h "[]" 0] True "1.prems"
        by (force simp: oid_def Let_def image_iff split: prod.splits)
      with eq show ?thesis by simp
    next
      case False
      with len have eq: "makeRoom cmpl at h m = makeRoom cmpl at h (mdel oid m)"
        by (subst makeRoom.simps) (auto simp: oid_def Let_def)
      have "length (makeRoom cmpl at h (mdel oid m)) < maxOperationCommands \<or>
          (\<forall>(k, r) \<in> set (makeRoom cmpl at h (mdel oid m)). \<not> cmpl (h r))"
        using "1.IH" [OF len oid_def] False "1.prems" by (simp add: gomap_simps)
      with eq show ?thesis by simp
    qed
  qed
qed

section \<open>The contract of a command kind\<close>

text \<open>\<open>closes st\<close> counts the executions of \<open>close(state.done)\<close>; Go panics on a second one.
  A heap is closed once when every completed state was closed exactly once and no other state
  was closed.\<close>

definition closedOnce :: "('s \<Rightarrow> bool) \<Rightarrow> ('s \<Rightarrow> nat) \<Rightarrow> (nat \<Rightarrow> 's) \<Rightarrow> bool" where
  "closedOnce cmpl closes h \<longleftrightarrow> (\<forall>r. closes (h r) = (if cmpl (h r) then 1 else 0))"

text \<open>A table of pointers into a heap is in order: distinct keys, none empty, no two keys
  sharing a state, every pointer allocated, and the retention bound.\<close>

definition tableOk :: "nat \<Rightarrow> nat gomap \<Rightarrow> bool" where
  "tableOk next m \<longleftrightarrow> mok m \<and> [] \<notin> mkeys m \<and> distinct (map snd m) \<and>
     (\<forall>(k, r) \<in> set m. r < next) \<and> length m \<le> maxOperationCommands"

lemma closedOnce_upd:
  "closedOnce cmpl closes h \<Longrightarrow> closes st = (if cmpl st then 1 else 0) \<Longrightarrow>
     closedOnce cmpl closes (h(r := st))"
  by (simp add: closedOnce_def)

lemma closedOnce_at: "closedOnce cmpl closes h \<Longrightarrow> closes (h r) = (if cmpl (h r) then 1 else 0)"
  by (simp add: closedOnce_def)

text \<open>The abort loops of session retirement and stream replacement: finish every state of a
  table that has not completed.\<close>

definition abortLoop :: "('s \<Rightarrow> bool) \<Rightarrow> ('s \<Rightarrow> 's) \<Rightarrow> nat gomap \<Rightarrow> (nat \<Rightarrow> 's) \<Rightarrow> (nat \<Rightarrow> 's)" where
  "abortLoop cmpl f m h = fold (\<lambda>(k, r) h. if cmpl (h r) then h else h(r := f (h r))) m h"

lemma abortLoop_apply:
  assumes "\<And>st. \<not> cmpl st \<Longrightarrow> cmpl (f st)"
  shows "abortLoop cmpl f m h r = (if r \<in> snd ` set m \<and> \<not> cmpl (h r) then f (h r) else h r)"
  unfolding abortLoop_def
proof (induction m arbitrary: h)
  case (Cons p m)
  then show ?case using assms by (cases p) auto
qed simp

lemma closedOnce_abortLoop:
  assumes "closedOnce cmpl closes h"
    and "\<And>st. \<not> cmpl st \<Longrightarrow> cmpl (f st)" "\<And>st. \<not> cmpl st \<Longrightarrow> closes (f st) = Suc (closes st)"
  shows "closedOnce cmpl closes (abortLoop cmpl f m h)"
  using assms(1) unfolding closedOnce_def
  by (auto simp: abortLoop_apply [of cmpl f, OF assms(2)] assms(2,3))

locale command_lifecycle =
  fixes completed :: "'s \<Rightarrow> bool"
    and completedAt :: "'s \<Rightarrow> gotime"
    and closes :: "'s \<Rightarrow> nat"
    and finish :: "'p \<Rightarrow> gotime \<Rightarrow> 's \<Rightarrow> 's"
  assumes finish_completed: "completed (finish p now st)"
    and finish_at: "completedAt (finish p now st) = now"
    and finish_closes: "closes (finish p now st) = Suc (closes st)"
begin

lemma closedOnce_finish:
  "closedOnce completed closes h \<Longrightarrow> \<not> completed (h r) \<Longrightarrow>
     closedOnce completed closes (h(r := finish p now (h r)))"
  by (auto simp: closedOnce_def finish_completed finish_closes)

lemma closedOnce_same:
  "closedOnce completed closes h \<Longrightarrow> completed st = completed (h r) \<Longrightarrow>
     closes st = closes (h r) \<Longrightarrow> closedOnce completed closes (h(r := st))"
  by (auto simp: closedOnce_def)

lemma closedOnce_fresh:
  "closedOnce completed closes h \<Longrightarrow> \<not> completed st \<Longrightarrow> closes st = 0 \<Longrightarrow>
     closedOnce completed closes (h(r := st))"
  by (auto simp: closedOnce_def)

text \<open>A state that was just finished survives every expiry for the next 24 hours.\<close>

lemma finish_not_expired:
  "later - now < operationCommandRetention \<Longrightarrow> \<not> expired completed completedAt later (finish p now st)"
  by (simp add: expired_def finish_at)

lemma expire_keeps_finished:
  assumes "mok m" "mget m k = Some r" "later - now < operationCommandRetention"
  shows "mget (expireCommands completed completedAt (h(r := finish p now (h r))) later m) k = Some r"
  using assms by (simp add: gomap_simps finish_not_expired)

end

section \<open>Tables under expiry, eviction and insertion\<close>

lemma tableOk_sub:
  assumes "tableOk n m" "set m' \<subseteq> set m" "mok m'" "length m' \<le> length m"
  shows "tableOk n m'"
proof -
  have "inj_on snd (set m)" "distinct m"
    using assms(1) by (auto simp: tableOk_def distinct_map)
  then have "inj_on snd (set m')" using assms(2) inj_on_subset by blast
  moreover have "distinct m'" using assms(3) by (simp add: distinct_map)
  ultimately have "distinct (map snd m')" by (simp add: distinct_map)
  with assms show ?thesis unfolding tableOk_def by (fastforce simp: image_iff)
qed

lemma tableOk_expire [inv_intros]: "tableOk n m \<Longrightarrow> tableOk n (expireCommands cmpl at h now m)"
  by (rule tableOk_sub)
    (auto simp: set_expireCommands length_expireCommands_le tableOk_def)

lemma tableOk_makeRoom [inv_intros]: "tableOk n m \<Longrightarrow> tableOk n (makeRoom cmpl at h m)"
  by (rule tableOk_sub) (auto simp: length_makeRoom_le tableOk_def dest: subsetD [OF makeRoom_subset])

lemma tableOk_mono: "tableOk n m \<Longrightarrow> n \<le> n' \<Longrightarrow> tableOk n' m"
  unfolding tableOk_def by fastforce

lemma tableOk_Nil [simp, inv_intros]: "tableOk n []"
  by (simp add: tableOk_def)

lemma snd_mput_subset: "snd ` set (mput k v m) \<subseteq> insert v (snd ` set m)"
  using set_mput_subset [of k v m] by auto

lemma distinct_snd_mput:
  "v \<notin> snd ` set m \<Longrightarrow> distinct (map snd m) \<Longrightarrow> distinct (map snd (mput k v m))"
proof (induction m)
  case (Cons p m)
  have "snd ` set (mput k v m) \<subseteq> insert v (snd ` set m)" by (rule snd_mput_subset)
  with Cons show ?case by (cases p) auto
qed simp

lemma tableOk_insert [inv_intros]:
  assumes "tableOk n m" "k \<noteq> []" "length m < maxOperationCommands \<or> k \<in> mkeys m"
  shows "tableOk (Suc n) (mput k n m)"
proof -
  have "n \<notin> snd ` set m" using assms(1) by (auto simp: tableOk_def)
  moreover have "distinct (map snd m)" using assms(1) by (simp add: tableOk_def)
  ultimately have "distinct (map snd (mput k n m))" by (rule distinct_snd_mput)
  moreover have "length (mput k n m) \<le> maxOperationCommands"
    using assms by (auto simp: length_mput tableOk_def mget_None_iff)
  moreover have "\<forall>(k', r) \<in> set (mput k n m). r < Suc n"
    using assms(1) set_mput_subset [of k n m] by (fastforce simp: tableOk_def)
  ultimately show ?thesis
    using assms(1,2) by (simp add: tableOk_def gomap_simps)
qed

lemma tableOk_inj:
  "tableOk n m \<Longrightarrow> mget m k = Some r \<Longrightarrow> mget m k' = Some r \<Longrightarrow> k = k'"
  unfolding tableOk_def
  by (metis (no_types, lifting) distinct_map inj_on_def map_of_SomeD prod.inject snd_conv)

lemma tableOk_bound: "tableOk n m \<Longrightarrow> mget m k = Some r \<Longrightarrow> r < n"
  unfolding tableOk_def by (fastforce dest: map_of_SomeD)

text \<open>No live command is lost: every allocated state that has not completed is in the table.\<close>

definition retainedLive :: "('s \<Rightarrow> bool) \<Rightarrow> (nat \<Rightarrow> 's) \<Rightarrow> nat \<Rightarrow> nat gomap \<Rightarrow> bool" where
  "retainedLive cmpl h n m \<longleftrightarrow> (\<forall>r < n. \<not> cmpl (h r) \<longrightarrow> r \<in> snd ` set m)"

lemma retainedLive_drop:
  assumes "retainedLive cmpl h n m" "\<forall>(k, r) \<in> set m - set m'. cmpl (h r)"
  shows "retainedLive cmpl h n m'"
  using assms unfolding retainedLive_def by fastforce

lemma retainedLive_expire [inv_intros]:
  "retainedLive cmpl h n m \<Longrightarrow> retainedLive cmpl h n (expireCommands cmpl at h now m)"
  by (rule retainedLive_drop) (auto simp: set_expireCommands expired_def)

lemma retainedLive_makeRoom:
  assumes "retainedLive cmpl h n m" "tableOk n m"
  shows "retainedLive cmpl h n (makeRoom cmpl at h m)"
proof (rule retainedLive_drop [OF assms(1)])
  have "\<forall>(k, r) \<in> set m - set (makeRoom cmpl at h m). cmpl (h r) \<and>
     (\<forall>(k', r') \<in> set (makeRoom cmpl at h m). cmpl (h r') \<longrightarrow> at (h r) \<le> at (h r'))"
    using assms(2) by (intro makeRoom_evicts) (auto simp: tableOk_def)
  then show "\<forall>(k, r) \<in> set m - set (makeRoom cmpl at h m). cmpl (h r)"
    by blast
qed

lemma retainedLive_upd:
  "retainedLive cmpl h n m \<Longrightarrow> cmpl (h r) \<longrightarrow> cmpl st \<Longrightarrow> retainedLive cmpl (h(r := st)) n m"
  by (auto simp: retainedLive_def)

lemma snd_mput:
  "mok m \<Longrightarrow> snd ` set (mput k v m) = insert v (snd ` {p \<in> set m. fst p \<noteq> k})"
proof (induction m)
  case (Cons p m)
  have *: "{q \<in> set (p # m). fst q \<noteq> fst p} = set m" if "fst p \<notin> fst ` set m"
    using that by (auto simp: image_iff)
  show ?case
  proof (cases "fst p = k")
    case True
    with Cons.prems * show ?thesis by (cases p) auto
  next
    case False
    with Cons show ?thesis by (cases p) (auto simp: image_iff)
  qed
qed simp

lemma retainedLive_insert:
  assumes "retainedLive cmpl h n m" "tableOk n m" "\<And>r. mget m k = Some r \<Longrightarrow> cmpl (h r)"
  shows "retainedLive cmpl (h(n := st)) (Suc n) (mput k n m)"
  unfolding retainedLive_def
proof (intro allI impI)
  fix r assume r: "r < Suc n" "\<not> cmpl ((h(n := st)) r)"
  have ok: "mok m" using assms(2) by (simp add: tableOk_def)
  show "r \<in> snd ` set (mput k n m)"
  proof (cases "r = n")
    case False
    with r assms(1) have "\<not> cmpl (h r)" "r \<in> snd ` set m" by (auto simp: retainedLive_def)
    moreover then obtain k' where "(k', r) \<in> set m" by auto
    ultimately have "(k', r) \<in> {p \<in> set m. fst p \<noteq> k}"
      using assms(3) [of r] ok by auto
    then show ?thesis by (force simp: snd_mput [OF ok])
  qed (simp add: snd_mput [OF ok])
qed

end
