(* ===== verification/Session.thy ===== *)
theory Session
  imports Retention
begin

text \<open>
  The state of one Agent session (\<open>DroneSession\<close> and the command states of
  \<open>internal/relay/relay.go\<close>), the protocol messages the Relay reads and writes, and the
  session invariant.  The messages are generated from a protocol package that is not in the
  repository: each record has the fields the Relay uses and one \<open>unknown\<close> field for the rest
  of the bytes, so that two messages are equal exactly when \<open>proto.Equal\<close> says so.
\<close>

section \<open>Messages\<close>

record operationContext =
  AircraftId :: string
  FlightId :: string
  IntentId :: string
  IntentVersion :: "32 word"
  ctx_unknown :: string

datatype ackStatus = AckApplied | AckAlreadyApplied | AckTemporaryError | AckOther int

record contextAck =
  ack_CommandId :: string
  ack_Status :: ackStatus
  ack_ActiveContext :: "operationContext option"

datatype aircraftCommandType = ARM | DISARM | OtherCommandType int

record aircraftCommand =
  acmd_CommandId :: string
  acmd_AircraftId :: string
  acmd_Type :: aircraftCommandType
  acmd_unknown :: string

record aircraftResult =
  ares_CommandId :: string
  ares_AircraftId :: string
  ares_Status :: int

record missionBinding =
  mb_MissionId :: string
  mb_MissionDigest :: string
  mb_MissionVersion :: "32 word"
  mb_DeploymentId :: string
  mb_OperatorId :: string
  mb_AircraftId :: string
  mb_FlightId :: string
  mb_IntentId :: string
  mb_IntentVersion :: "32 word"
  mb_unknown :: string

text \<open>Floating-point fields are kept as their IEEE bit patterns, as \<open>math.Float64bits\<close> and
  \<open>math.Float32bits\<close> read them.\<close>

record missionItem =
  mi_Sequence :: "32 word"
  mi_Current :: bool
  mi_Autocontinue :: bool
  mi_Param1 :: "64 word"
  mi_Param2 :: "64 word"
  mi_Param3 :: "64 word"
  mi_Param4 :: "64 word"
  mi_Frame :: "32 word"
  mi_Command :: "32 word"
  mi_LatitudeE7 :: "32 word"
  mi_LongitudeE7 :: "32 word"
  mi_AltitudeM :: "32 word"
  mi_unknown :: string

record missionPlan =
  mp_SchemaVersion :: "32 word"
  mp_Items :: "missionItem option list"
  mp_unknown :: string

record deployMissionCommand =
  dm_CommandId :: string
  dm_Binding :: "missionBinding option"
  dm_Plan :: "missionPlan option"
  dm_IssuedAtUnixMs :: int
  dm_ExpiresAtUnixMs :: int
  dm_unknown :: string

datatype missionStatus = MissionApplied | MissionAlreadyApplied | MissionRejected
  | MissionTemporaryError | MissionOutcomeUnknown | MissionBindingMismatch
  | MissionOnboardMismatch | MissionOther int

record missionResult =
  mr_CommandId :: string
  mr_Binding :: "missionBinding option"
  mr_Status :: missionStatus
  mr_Message :: string
  mr_CompletedAtUnixMs :: int
  mr_OnboardMissionDigest :: string
  mr_UploadedItemCount :: "32 word"
  mr_unknown :: string

datatype telemetryAckStatus = AckOK | AckPermanentError | AckRetryWithBackoff

record telemetryAck =
  ta_Seq :: "64 word"
  ta_Status :: telemetryAckStatus
  ta_Error :: string

record setContextCommand =
  sc_CommandId :: string
  sc_Context :: "operationContext option"
  sc_unknown :: string

record clearContextCommand =
  cc_CommandId :: string
  cc_FlightId :: string
  cc_Authoritative :: bool
  cc_unknown :: string

text \<open>The payloads of \<open>RelayStreamMessage\<close>.\<close>

datatype relayMsg =
    SetOperationContextMsg setContextCommand
  | ClearOperationContextMsg clearContextCommand
  | AircraftCommandMsg aircraftCommand
  | DeployMissionMsg deployMissionCommand
  | TelemetryAckMsg telemetryAck

section \<open>Command states\<close>

text \<open>The channel \<open>done\<close> of each state is the count of \<open>close\<close> calls on it.\<close>

record operationCommandState =
  op_fingerprint :: string
  op_expected :: "operationContext option"
  op_ack :: "contextAck option"
  op_err :: "goerror option"
  op_delivered :: bool
  op_completed :: bool
  op_completedAt :: gotime
  op_closes :: nat

record aircraftCommandState =
  ac_fingerprint :: string
  ac_cancelled :: bool \<comment> \<open>\<open>deliveryCancel\<close> was called\<close>
  ac_waiters :: int
  ac_result :: "aircraftResult option"
  ac_err :: "goerror option"
  ac_completed :: bool
  ac_completedAt :: gotime
  ac_closes :: nat

record missionAdmission =
  adm_cancelled :: bool \<comment> \<open>\<open>ctx\<close> is done\<close>
  adm_active :: int
  adm_closed :: bool

text \<open>\<open>md_cancelled\<close> is \<open>None\<close> while \<open>deliveryCancel\<close> is nil, then whether it was called.\<close>

record missionDeploymentState =
  md_fingerprint :: string
  md_command :: "deployMissionCommand option"
  md_deliveryStream :: "nat option"
  md_cancelled :: "bool option"
  md_admission :: "missionAdmission option"
  md_reserved :: bool
  md_admissionFailed :: bool
  md_waiters :: int
  md_result :: "missionResult option"
  md_err :: "goerror option"
  md_resultAdmissionOpen :: bool
  md_delivered :: bool
  md_completed :: bool
  md_completedAt :: gotime
  md_closes :: nat

definition zeroOp :: operationCommandState where
  "zeroOp = \<lparr>op_fingerprint = [], op_expected = None, op_ack = None, op_err = None,
     op_delivered = False, op_completed = False, op_completedAt = 0, op_closes = 0\<rparr>"

definition zeroAc :: aircraftCommandState where
  "zeroAc = \<lparr>ac_fingerprint = [], ac_cancelled = False, ac_waiters = 0, ac_result = None,
     ac_err = None, ac_completed = False, ac_completedAt = 0, ac_closes = 0\<rparr>"

definition zeroMd :: missionDeploymentState where
  "zeroMd = \<lparr>md_fingerprint = [], md_command = None, md_deliveryStream = None,
     md_cancelled = None, md_admission = None, md_reserved = False, md_admissionFailed = False,
     md_waiters = 0, md_result = None, md_err = None, md_resultAdmissionOpen = False,
     md_delivered = False, md_completed = False, md_completedAt = 0, md_closes = 0\<rparr>"

section \<open>Stream bindings and the session\<close>

text \<open>\<open>bd_sent\<close> lists the messages for which \<open>stream.Send\<close> was invoked, in order.\<close>

record telemetryStreamBinding =
  generation :: "64 word"
  closed :: bool
  bd_sent :: "relayMsg list"

text \<open>
  The fields of \<open>DroneSession\<close> under their Go names.  \<open>stream\<close> and \<open>pendingStream\<close> point
  into the heap \<open>bindings\<close>; the three command tables point into \<open>opHeap\<close>, \<open>acHeap\<close>
  and \<open>mdHeap\<close>.  \<open>pending\<close> is the key set of the Go map of channels; nothing receives from
  those channels, so their content is left out.  \<open>operationGate\<close> says whether the
  one-token channel holds its token.  The read leases of \<open>ownershipMu\<close> and
  \<open>controlStreamMu\<close> belong to the tasks of the system that hold them. \<open>Position\<close>, \<open>Attitude\<close>,
  \<open>VfrHud\<close> and \<open>SystemStatus\<close> are nil in every session and are left out.
\<close>

record DroneSession =
  stream :: "nat option"
  pendingStream :: "nat option"
  streamGeneration :: "64 word"
  agentID :: string
  SessionID :: string
  ConnectedAt :: gotime
  LastHeartbeat :: gotime
  AircraftID :: string
  FlightID :: string
  IntentID :: string
  IntentVer :: "32 word"
  operationContextUnreconciled :: bool
  emptyContextCommandID :: string
  pending :: "string set"
  operationCommands :: "nat gomap"
  operationGate :: bool
  aircraftCommands :: "nat gomap"
  missionDeployments :: "nat gomap"
  retired :: bool
  bindings :: "nat \<Rightarrow> telemetryStreamBinding"
  bindingNext :: nat
  opHeap :: "nat \<Rightarrow> operationCommandState"
  opNext :: nat
  acHeap :: "nat \<Rightarrow> aircraftCommandState"
  acNext :: nat
  mdHeap :: "nat \<Rightarrow> missionDeploymentState"
  mdNext :: nat

definition zeroBinding :: telemetryStreamBinding where
  "zeroBinding = \<lparr>generation = 0, closed = False, bd_sent = []\<rparr>"

section \<open>Finishing a command state\<close>

text \<open>The writes every completion path of a kind performs: the outcome, \<open>completed\<close>,
  \<open>completedAt\<close> and \<open>close(state.done)\<close>.\<close>

definition opFinish :: "contextAck option \<times> goerror option \<Rightarrow> gotime \<Rightarrow>
    operationCommandState \<Rightarrow> operationCommandState" where
  "opFinish p now st = st\<lparr>op_ack := fst p, op_err := snd p, op_completed := True,
     op_completedAt := now, op_closes := Suc (op_closes st)\<rparr>"

definition acFinish :: "aircraftResult option \<times> goerror option \<Rightarrow> gotime \<Rightarrow>
    aircraftCommandState \<Rightarrow> aircraftCommandState" where
  "acFinish p now st = st\<lparr>ac_result := fst p, ac_err := snd p, ac_completed := True,
     ac_completedAt := now, ac_closes := Suc (ac_closes st)\<rparr>"

definition mdFinish :: "missionResult option \<times> goerror option \<Rightarrow> gotime \<Rightarrow>
    missionDeploymentState \<Rightarrow> missionDeploymentState" where
  "mdFinish p now st = st\<lparr>md_result := fst p, md_err := snd p, md_completed := True,
     md_completedAt := now, md_closes := Suc (md_closes st)\<rparr>"

interpretation opLife: command_lifecycle op_completed op_completedAt op_closes opFinish
  by unfold_locales (simp_all add: opFinish_def)

interpretation acLife: command_lifecycle ac_completed ac_completedAt ac_closes acFinish
  by unfold_locales (simp_all add: acFinish_def)

interpretation mdLife: command_lifecycle md_completed md_completedAt md_closes mdFinish
  by unfold_locales (simp_all add: mdFinish_def)

section \<open>Admission of a command ID\<close>

datatype retainedCommandKind = retainedOperationCommand | retainedAircraftCommand
  | retainedMissionDeployment

definition expireOperationCommandsLocked :: "DroneSession \<Rightarrow> gotime \<Rightarrow> DroneSession" where
  "expireOperationCommandsLocked s now = s\<lparr>operationCommands :=
     expireCommands op_completed op_completedAt (opHeap s) now (operationCommands s)\<rparr>"

definition expireAircraftCommandsLocked :: "DroneSession \<Rightarrow> gotime \<Rightarrow> DroneSession" where
  "expireAircraftCommandsLocked s now = s\<lparr>aircraftCommands :=
     expireCommands ac_completed ac_completedAt (acHeap s) now (aircraftCommands s)\<rparr>"

definition expireMissionDeploymentsLocked :: "DroneSession \<Rightarrow> gotime \<Rightarrow> DroneSession" where
  "expireMissionDeploymentsLocked s now = s\<lparr>missionDeployments :=
     expireCommands md_completed md_completedAt (mdHeap s) now (missionDeployments s)\<rparr>"

definition makeOperationCommandRoomLocked :: "DroneSession \<Rightarrow> DroneSession" where
  "makeOperationCommandRoomLocked s = s\<lparr>operationCommands :=
     makeRoom op_completed op_completedAt (opHeap s) (operationCommands s)\<rparr>"

definition makeAircraftCommandRoomLocked :: "DroneSession \<Rightarrow> DroneSession" where
  "makeAircraftCommandRoomLocked s = s\<lparr>aircraftCommands :=
     makeRoom ac_completed ac_completedAt (acHeap s) (aircraftCommands s)\<rparr>"

definition makeMissionDeploymentRoomLocked :: "DroneSession \<Rightarrow> DroneSession" where
  "makeMissionDeploymentRoomLocked s = s\<lparr>missionDeployments :=
     makeRoom md_completed md_completedAt (mdHeap s) (missionDeployments s)\<rparr>"

definition prepareCommandIDAdmissionLocked ::
  "DroneSession \<Rightarrow> string \<Rightarrow> retainedCommandKind \<Rightarrow> gotime \<Rightarrow> goerror option \<times> DroneSession" where
  "prepareCommandIDAdmissionLocked s commandID kind now =
     (let s1 = expireOperationCommandsLocked s now;
          s2 = expireAircraftCommandsLocked s1 now;
          s3 = expireMissionDeploymentsLocked s2 now;
          conflict =
            (kind \<noteq> retainedOperationCommand \<and> mget (operationCommands s3) commandID \<noteq> None) \<or>
            (kind \<noteq> retainedAircraftCommand \<and> mget (aircraftCommands s3) commandID \<noteq> None) \<or>
            (kind \<noteq> retainedMissionDeployment \<and> mget (missionDeployments s3) commandID \<noteq> None)
      in (if conflict
          then Some (Status AlreadyExists ''command ID was already used by a different command kind'')
          else None, s3))"

section \<open>The session invariant\<close>

definition disjointKinds :: "DroneSession \<Rightarrow> bool" where
  "disjointKinds s \<longleftrightarrow>
     mkeys (operationCommands s) \<inter> mkeys (aircraftCommands s) = {} \<and>
     mkeys (operationCommands s) \<inter> mkeys (missionDeployments s) = {} \<and>
     mkeys (aircraftCommands s) \<inter> mkeys (missionDeployments s) = {}"

text \<open>\<open>liveIn\<close>: the ID is retained and its command has not completed.  A pending channel
  exists exactly for the operation commands in flight.\<close>

definition liveIn :: "('s \<Rightarrow> bool) \<Rightarrow> (nat \<Rightarrow> 's) \<Rightarrow> nat gomap \<Rightarrow> string \<Rightarrow> bool" where
  "liveIn cmpl h m k = (case mget m k of None \<Rightarrow> False | Some r \<Rightarrow> \<not> cmpl (h r))"

definition pendingOk :: "DroneSession \<Rightarrow> bool" where
  "pendingOk s \<longleftrightarrow>
     (\<forall>k. k \<in> pending s \<longleftrightarrow> liveIn op_completed (opHeap s) (operationCommands s) k)"

text \<open>A reserved mission owns an admission controller, so cancelling it never dereferences
  nil; a reservation that ended failed its admission and cancelled its controller; results are
  admitted, and a delivery recorded, only after activation.\<close>

definition missionStateOk :: "missionDeploymentState \<Rightarrow> bool" where
  "missionStateOk st \<longleftrightarrow>
     (md_reserved st \<longrightarrow> (\<exists>a. md_admission st = Some a \<and>
        (md_completed st \<longrightarrow> md_admissionFailed st \<and> adm_cancelled a))) \<and>
     (md_resultAdmissionOpen st \<longrightarrow> \<not> md_reserved st) \<and>
     (md_delivered st \<longrightarrow> md_resultAdmissionOpen st)"

text \<open>A retained mission keeps the command it was admitted for, under its ID.\<close>

definition missionCommandsOk :: "DroneSession \<Rightarrow> bool" where
  "missionCommandsOk s \<longleftrightarrow> (\<forall>(k, r) \<in> set (missionDeployments s).
     \<exists>c. md_command (mdHeap s r) = Some c \<and> dm_CommandId c = k)"

definition wf_session :: "DroneSession \<Rightarrow> bool" where
  "wf_session s \<longleftrightarrow>
     tableOk (opNext s) (operationCommands s) \<and>
     tableOk (acNext s) (aircraftCommands s) \<and>
     tableOk (mdNext s) (missionDeployments s) \<and>
     disjointKinds s \<and>
     closedOnce op_completed op_closes (opHeap s) \<and>
     closedOnce ac_completed ac_closes (acHeap s) \<and>
     closedOnce md_completed md_closes (mdHeap s) \<and>
     pendingOk s \<and>
     retainedLive op_completed (opHeap s) (opNext s) (operationCommands s) \<and>
     retainedLive ac_completed (acHeap s) (acNext s) (aircraftCommands s) \<and>
     retainedLive md_completed (mdHeap s) (mdNext s) (missionDeployments s) \<and>
     missionCommandsOk s \<and>
     (\<forall>r. missionStateOk (mdHeap s r))"

lemmas wf_session_parts = wf_session_def disjointKinds_def pendingOk_def missionCommandsOk_def

lemmas prepare_defs = prepareCommandIDAdmissionLocked_def expireOperationCommandsLocked_def
  expireAircraftCommandsLocked_def expireMissionDeploymentsLocked_def

text \<open>Expiry only drops entries, and only completed ones.\<close>

lemma disjointKinds_sub:
  assumes "disjointKinds s" "mkeys (operationCommands s') \<subseteq> mkeys (operationCommands s)"
    "mkeys (aircraftCommands s') \<subseteq> mkeys (aircraftCommands s)"
    "mkeys (missionDeployments s') \<subseteq> mkeys (missionDeployments s)"
  shows "disjointKinds s'"
  using assms(1) disjoint_mono [OF _ assms(2,3)] disjoint_mono [OF _ assms(2,4)]
    disjoint_mono [OF _ assms(3,4)] by (simp add: disjointKinds_def)

lemma mkeys_expire: "mkeys (expireCommands cmpl at h now m) \<subseteq> mkeys m"
  by (auto simp: set_expireCommands)

lemma mkeys_makeRoom: "mkeys (makeRoom cmpl at h m) \<subseteq> mkeys m"
  using makeRoom_subset by (rule image_mono)

text \<open>Dropping completed entries of a table keeps its live IDs.\<close>

lemma liveIn_iff: "mok m \<Longrightarrow> liveIn cmpl h m k \<longleftrightarrow> (\<exists>r. (k, r) \<in> set m \<and> \<not> cmpl (h r))"
  by (auto simp: liveIn_def map_of_eq_None_iff image_iff split: option.splits dest: map_of_SomeD)
    (metis map_of_eq_Some_iff option.inject)

lemma liveIn_drop:
  assumes "mok m" "mok m'" "set m' \<subseteq> set m" "\<forall>(k, r) \<in> set m - set m'. cmpl (h r)"
  shows "liveIn cmpl h m' k = liveIn cmpl h m k"
  using assms by (auto simp: liveIn_iff)

lemma liveIn_expire [simp]:
  "mok m \<Longrightarrow> liveIn cmpl h (expireCommands cmpl at h now m) k = liveIn cmpl h m k"
  by (rule liveIn_drop) (auto simp: set_expireCommands expired_def)

lemma liveIn_makeRoom [simp]:
  "mok m \<Longrightarrow> [] \<notin> mkeys m \<Longrightarrow> liveIn cmpl h (makeRoom cmpl at h m) k = liveIn cmpl h m k"
  by (rule liveIn_drop)
    (use makeRoom_subset [of cmpl at h m] makeRoom_evicts [of m cmpl at h] in fastforce)+

lemma wf_expireOperation [inv_intros]:
  assumes "wf_session s" shows "wf_session (expireOperationCommandsLocked s now)"
proof -
  have "pendingOk (expireOperationCommandsLocked s now)"
    using assms
    by (simp add: pendingOk_def expireOperationCommandsLocked_def wf_session_def tableOk_def)
  moreover have "disjointKinds (expireOperationCommandsLocked s now)"
    by (rule disjointKinds_sub [of s]) (use assms in
      \<open>simp_all add: wf_session_def expireOperationCommandsLocked_def mkeys_expire\<close>)
  ultimately show ?thesis
    using assms by (simp add: wf_session_def expireOperationCommandsLocked_def inv_intros
        missionCommandsOk_def)
qed

lemma wf_expireAircraft [inv_intros]:
  assumes "wf_session s" shows "wf_session (expireAircraftCommandsLocked s now)"
proof -
  have "disjointKinds (expireAircraftCommandsLocked s now)"
    by (rule disjointKinds_sub [of s]) (use assms in
      \<open>simp_all add: wf_session_def expireAircraftCommandsLocked_def mkeys_expire\<close>)
  then show ?thesis
    using assms by (simp add: wf_session_def expireAircraftCommandsLocked_def inv_intros pendingOk_def
        missionCommandsOk_def)
qed

lemma wf_expireMission [inv_intros]:
  assumes "wf_session s" shows "wf_session (expireMissionDeploymentsLocked s now)"
proof -
  have "disjointKinds (expireMissionDeploymentsLocked s now)"
    by (rule disjointKinds_sub [of s]) (use assms in
      \<open>simp_all add: wf_session_def expireMissionDeploymentsLocked_def mkeys_expire\<close>)
  then show ?thesis
    using assms by (simp add: wf_session_def expireMissionDeploymentsLocked_def inv_intros pendingOk_def
        missionCommandsOk_def set_expireCommands)
qed

lemma wf_prepare [inv_intros]:
  "wf_session s \<Longrightarrow> wf_session (snd (prepareCommandIDAdmissionLocked s cid kind now))"
  by (simp add: prepareCommandIDAdmissionLocked_def Let_def inv_intros)

end
