(* ===== verification/OperationCommands.thy ===== *)
theory OperationCommands
  imports Session
begin

text \<open>
  Operation-context commands on one session (\<open>internal/relay/apiserver.go\<close> and
  \<open>gatewayserver.go\<close>): admission and coalescing of a durable command ID, delivery marking,
  completion, and the acknowledgement handler that moves the session's authoritative context.
  Every function takes the current time where the source calls \<open>time.Now\<close>.
\<close>

section \<open>Reading and writing the authoritative context\<close>

definition requiresOperationContextReconciliation :: "DroneSession \<Rightarrow> bool" where
  "requiresOperationContextReconciliation s = operationContextUnreconciled s"

definition reserveEmptyContextReconciliation :: "DroneSession \<Rightarrow> string \<Rightarrow> bool \<times> DroneSession" where
  "reserveEmptyContextReconciliation s commandID =
     (if emptyContextCommandID s \<noteq> [] then (emptyContextCommandID s = commandID, s)
      else if \<not> operationContextUnreconciled s then (False, s)
      else (True, s\<lparr>emptyContextCommandID := commandID\<rparr>))"

definition releaseEmptyContextReconciliation :: "DroneSession \<Rightarrow> string \<Rightarrow> DroneSession" where
  "releaseEmptyContextReconciliation s commandID =
     (if emptyContextCommandID s = commandID \<and> operationContextUnreconciled s
      then s\<lparr>emptyContextCommandID := []\<rparr> else s)"

definition expectedContextAfterClear ::
  "DroneSession \<Rightarrow> string \<Rightarrow> bool \<Rightarrow> operationContext option" where
  "expectedContextAfterClear s flightID authoritative =
     (if authoritative \<or> FlightID s = [] \<or> FlightID s = flightID then None
      else Some \<lparr>AircraftId = AircraftID s, FlightId = FlightID s, IntentId = IntentID s,
        IntentVersion = IntentVer s, ctx_unknown = []\<rparr>)"

text \<open>The four assignments of the acknowledgement handler.\<close>

definition applyContext :: "operationContext option \<Rightarrow> DroneSession \<Rightarrow> DroneSession" where
  "applyContext c s = (case c of
     None \<Rightarrow> s\<lparr>AircraftID := [], FlightID := [], IntentID := [], IntentVer := 0\<rparr>
   | Some x \<Rightarrow> s\<lparr>AircraftID := AircraftId x, FlightID := FlightId x, IntentID := IntentId x,
       IntentVer := IntentVersion x\<rparr>)"

section \<open>Admission, completion and results\<close>

definition operationCommandRetryable :: "operationCommandState \<Rightarrow> bool" where
  "operationCommandRetryable st \<longleftrightarrow> op_err st \<noteq> None \<or>
     (\<exists>a. op_ack st = Some a \<and> ack_Status a = AckTemporaryError)"

lemma operationCommandRetryable_code [code]:
  "operationCommandRetryable st = (op_err st \<noteq> None \<or>
     (case op_ack st of None \<Rightarrow> False | Some a \<Rightarrow> ack_Status a = AckTemporaryError))"
  by (auto simp: operationCommandRetryable_def split: option.splits)

definition newOperationState :: "string \<Rightarrow> operationContext option \<Rightarrow> operationCommandState" where
  "newOperationState fp expected = zeroOp\<lparr>op_fingerprint := fp, op_expected := expected\<rparr>"

text \<open>Allocate a state, store it under its ID and open its pending channel.\<close>

definition installOperation ::
  "DroneSession \<Rightarrow> string \<Rightarrow> operationCommandState \<Rightarrow> DroneSession" where
  "installOperation s commandID st = s\<lparr>
     opHeap := (opHeap s)(opNext s := st), opNext := Suc (opNext s),
     operationCommands := mput commandID (opNext s) (operationCommands s),
     pending := insert commandID (pending s)\<rparr>"

definition beginOperationCommand ::
  "DroneSession \<Rightarrow> string \<Rightarrow> string \<Rightarrow> operationContext option \<Rightarrow> gotime \<Rightarrow>
    (goerror + nat \<times> bool) \<times> DroneSession" where
  "beginOperationCommand s commandID fingerprint expected now =
     (case prepareCommandIDAdmissionLocked s commandID retainedOperationCommand now of
        (Some err, s1) \<Rightarrow> (Inl err, s1)
      | (None, s1) \<Rightarrow>
        (let st = newOperationState fingerprint expected in
         case mget (operationCommands s1) commandID of
           Some r \<Rightarrow>
             (if op_fingerprint (opHeap s1 r) \<noteq> fingerprint
              then (Inl (Status AlreadyExists
                ''operation-context command ID was already used with a different payload''), s1)
              else if \<not> op_completed (opHeap s1 r) \<or> \<not> operationCommandRetryable (opHeap s1 r)
              then (Inr (r, False), s1)
              else (Inr (opNext s1, True), installOperation s1 commandID st))
         | None \<Rightarrow>
             (let s2 = makeOperationCommandRoomLocked s1 in
              if length (operationCommands s2) \<ge> maxOperationCommands
              then (Inl (Status ResourceExhausted ''operation-context command retention is full''), s2)
              else (Inr (opNext s2, True), installOperation s2 commandID st))))"

definition markOperationCommandDelivered :: "DroneSession \<Rightarrow> string \<Rightarrow> nat \<Rightarrow> DroneSession" where
  "markOperationCommandDelivered s commandID r =
     (if mget (operationCommands s) commandID = Some r \<and> \<not> op_completed (opHeap s r)
      then s\<lparr>opHeap := (opHeap s)(r := (opHeap s r)\<lparr>op_delivered := True\<rparr>)\<rparr> else s)"

text \<open>Remove the pending channel and finish the state.\<close>

definition completeOperation ::
  "DroneSession \<Rightarrow> string \<Rightarrow> nat \<Rightarrow> contextAck option \<times> goerror option \<Rightarrow> gotime \<Rightarrow> DroneSession" where
  "completeOperation s commandID r p now = s\<lparr>pending := pending s - {commandID},
     opHeap := (opHeap s)(r := opFinish p now (opHeap s r))\<rparr>"

definition finishOperationCommand ::
  "DroneSession \<Rightarrow> string \<Rightarrow> nat \<Rightarrow> contextAck option \<Rightarrow> goerror option \<Rightarrow> bool \<Rightarrow> gotime
    \<Rightarrow> DroneSession" where
  "finishOperationCommand s commandID r ack err fenceIfDelivered now =
     (if mget (operationCommands s) commandID \<noteq> Some r \<or> op_completed (opHeap s r) then s
      else
        (let s1 = (if fenceIfDelivered \<and> op_delivered (opHeap s r)
                   then s\<lparr>operationContextUnreconciled := True\<rparr> else s)
         in completeOperation s1 commandID r (ack, err) now))"

definition operationCommandResult :: "DroneSession \<Rightarrow> nat \<Rightarrow> contextAck option \<times> goerror option" where
  "operationCommandResult s r = (op_ack (opHeap s r), op_err (opHeap s r))"

section \<open>Acknowledgements\<close>

definition ackApplied :: "contextAck \<Rightarrow> bool" where
  "ackApplied ack \<longleftrightarrow> ack_Status ack = AckApplied \<or> ack_Status ack = AckAlreadyApplied"

definition ackMismatch :: goerror where
  "ackMismatch = Status Internal
     ''agent acknowledged an operation context different from the requested result''"

definition handleOperationContextCommandAck ::
  "DroneSession \<Rightarrow> contextAck \<Rightarrow> gotime \<Rightarrow> DroneSession" where
  "handleOperationContextCommandAck s ack now =
     (case mget (operationCommands s) (ack_CommandId ack) of
        None \<Rightarrow> s
      | Some r \<Rightarrow>
          (if ack_CommandId ack \<notin> pending s \<or> op_completed (opHeap s r) then s
           else
             (let expected = op_expected (opHeap s r);
                  ackErr = (if ackApplied ack \<and> ack_ActiveContext ack \<noteq> expected
                            then Some ackMismatch else None);
                  s1 = (if ackApplied ack
                        then (if ack_ActiveContext ack \<noteq> expected
                              then s\<lparr>operationContextUnreconciled := True\<rparr>
                              else (applyContext expected s)\<lparr>operationContextUnreconciled := False\<rparr>)
                        else s);
                  s2 = (if (\<not> ackApplied ack \<or> ackErr \<noteq> None) \<and>
                            emptyContextCommandID s1 = ack_CommandId ack
                        then s1\<lparr>emptyContextCommandID := []\<rparr> else s1)
              in completeOperation s2 (ack_CommandId ack) r (Some ack, ackErr) now)))"

text \<open>The guard every correlated handler applies: the receiving binding is the active one.\<close>

definition bindingCurrent :: "DroneSession \<Rightarrow> nat \<Rightarrow> bool" where
  "bindingCurrent s b \<longleftrightarrow> stream s = Some b \<and> \<not> closed (bindings s b)"

definition handleOperationContextCommandAckFrom ::
  "DroneSession \<Rightarrow> nat \<Rightarrow> contextAck \<Rightarrow> gotime \<Rightarrow> DroneSession" where
  "handleOperationContextCommandAckFrom s b ack now =
     (if bindingCurrent s b then handleOperationContextCommandAck s ack now else s)"

section \<open>The serialising gate\<close>

text \<open>\<open>acquireOperationCommandSlot\<close>: the receive on the one-token channel happens when the
  token is there; a done context ends the wait.  When both are ready Go picks either.\<close>

definition takeGate :: "DroneSession \<Rightarrow> DroneSession option" where
  "takeGate s = (if operationGate s then Some (s\<lparr>operationGate := False\<rparr>) else None)"

definition releaseGate :: "DroneSession \<Rightarrow> DroneSession" where
  "releaseGate s = s\<lparr>operationGate := True\<rparr>"

section \<open>Invariant preservation\<close>

text \<open>The invariant does not read the attribution, stream, gate and lease fields.\<close>

lemma wf_session_frame [simp]:
  "wf_session (s\<lparr>AircraftID := a\<rparr>) = wf_session s"
  "wf_session (s\<lparr>FlightID := a\<rparr>) = wf_session s"
  "wf_session (s\<lparr>IntentID := a\<rparr>) = wf_session s"
  "wf_session (s\<lparr>IntentVer := v\<rparr>) = wf_session s"
  "wf_session (s\<lparr>operationContextUnreconciled := b\<rparr>) = wf_session s"
  "wf_session (s\<lparr>emptyContextCommandID := a\<rparr>) = wf_session s"
  "wf_session (s\<lparr>operationGate := b\<rparr>) = wf_session s"
  "wf_session (s\<lparr>stream := x\<rparr>) = wf_session s"
  "wf_session (s\<lparr>pendingStream := x\<rparr>) = wf_session s"
  "wf_session (s\<lparr>streamGeneration := g\<rparr>) = wf_session s"
  "wf_session (s\<lparr>LastHeartbeat := t\<rparr>) = wf_session s"
  "wf_session (s\<lparr>retired := b\<rparr>) = wf_session s"
  "wf_session (s\<lparr>bindings := h\<rparr>) = wf_session s"
  "wf_session (s\<lparr>bindingNext := n\<rparr>) = wf_session s"
  by (simp_all add: wf_session_def disjointKinds_def pendingOk_def missionCommandsOk_def)

lemma wf_applyContext [simp]: "wf_session (applyContext c s) = wf_session s"
  by (simp add: applyContext_def split: option.splits)

lemma wf_makeOperationRoom [inv_intros]:
  assumes "wf_session s" shows "wf_session (makeOperationCommandRoomLocked s)"
proof -
  have "pendingOk (makeOperationCommandRoomLocked s)"
    using assms
    by (simp add: pendingOk_def makeOperationCommandRoomLocked_def wf_session_def tableOk_def)
  moreover have "disjointKinds (makeOperationCommandRoomLocked s)"
    by (rule disjointKinds_sub [of s])
      (use assms in \<open>simp_all add: wf_session_def makeOperationCommandRoomLocked_def mkeys_makeRoom\<close>)
  ultimately show ?thesis
    using assms by (simp add: wf_session_def makeOperationCommandRoomLocked_def inv_intros
        missionCommandsOk_def retainedLive_makeRoom)
qed

lemma liveIn_finish:
  assumes "tableOk n m" "mget m k = Some r" "cmpl st"
  shows "liveIn cmpl (h(r := st)) m k' \<longleftrightarrow> liveIn cmpl h m k' \<and> k' \<noteq> k"
proof (cases "mget m k'")
  case (Some r')
  then have "r' = r \<longleftrightarrow> k' = k" using assms(2) by (auto dest: tableOk_inj [OF assms(1,2)])
  with Some assms(2,3) show ?thesis by (auto simp: liveIn_def)
qed (simp add: liveIn_def)

lemma liveIn_same: "cmpl st = cmpl (h r) \<Longrightarrow> liveIn cmpl (h(r := st)) m k = liveIn cmpl h m k"
  by (auto simp: liveIn_def split: option.splits)

lemma liveIn_install:
  "tableOk n m \<Longrightarrow> \<not> cmpl st \<Longrightarrow>
     liveIn cmpl (h(n := st)) (mput k n m) k' \<longleftrightarrow> k' = k \<or> liveIn cmpl h m k'"
  using tableOk_bound [of n m k'] by (auto simp: liveIn_def gomap_simps split: option.splits)

lemma wf_completeOperation [inv_intros]:
  assumes "wf_session s" "mget (operationCommands s) k = Some r" "\<not> op_completed (opHeap s r)"
  shows "wf_session (completeOperation s k r p now)"
proof -
  have "pendingOk (completeOperation s k r p now)"
    using assms by (auto simp: pendingOk_def wf_session_def completeOperation_def
        liveIn_finish opLife.finish_completed)
  with assms show ?thesis
    by (simp add: wf_session_def completeOperation_def disjointKinds_def opLife.closedOnce_finish
        missionCommandsOk_def retainedLive_upd opLife.finish_completed)
qed

lemma wf_markDelivered [inv_intros]:
  assumes "wf_session s" shows "wf_session (markOperationCommandDelivered s k r)"
proof -
  have "pendingOk (markOperationCommandDelivered s k r)"
    using assms by (simp add: pendingOk_def wf_session_def markOperationCommandDelivered_def
        liveIn_same)
  with assms show ?thesis
    by (simp add: wf_session_def markOperationCommandDelivered_def disjointKinds_def
        opLife.closedOnce_same missionCommandsOk_def retainedLive_upd)
qed

lemma wf_finishOperationCommand [inv_intros]:
  "wf_session s \<Longrightarrow> wf_session (finishOperationCommand s k r ack err fence now)"
  by (auto simp: finishOperationCommand_def Let_def intro: wf_completeOperation)

lemma wf_handleOperationContextCommandAck [inv_intros]:
  assumes "wf_session s" shows "wf_session (handleOperationContextCommandAck s ack now)"
  using assms unfolding handleOperationContextCommandAck_def Let_def
  by (auto split: option.splits simp: applyContext_def intro!: wf_completeOperation)

lemma wf_handleAckFrom [inv_intros]:
  "wf_session s \<Longrightarrow> wf_session (handleOperationContextCommandAckFrom s b ack now)"
  by (simp add: handleOperationContextCommandAckFrom_def inv_intros)

lemma wf_installOperation:
  assumes "wf_session s" "k \<noteq> []" "\<not> op_completed st" "op_closes st = 0"
    "mget (aircraftCommands s) k = None" "mget (missionDeployments s) k = None"
    "length (operationCommands s) < maxOperationCommands \<or> k \<in> mkeys (operationCommands s)"
    "\<And>r. mget (operationCommands s) k = Some r \<Longrightarrow> op_completed (opHeap s r)"
  shows "wf_session (installOperation s k st)"
proof -
  have "pendingOk (installOperation s k st)"
    using assms(1,3) by (simp add: pendingOk_def wf_session_def installOperation_def
        liveIn_install)
  moreover have "disjointKinds (installOperation s k st)"
    using assms(1,5,6) by (simp add: disjointKinds_def wf_session_def installOperation_def
        gomap_simps map_of_eq_None_iff)
  ultimately show ?thesis
    using assms by (simp add: wf_session_def installOperation_def tableOk_insert
        opLife.closedOnce_fresh missionCommandsOk_def retainedLive_insert)
qed

text \<open>Admission succeeds only for an ID no other kind retains.\<close>

lemma prepare_free:
  assumes "prepareCommandIDAdmissionLocked s k kind now = (None, s1)"
  shows "kind \<noteq> retainedOperationCommand \<Longrightarrow> mget (operationCommands s1) k = None"
    and "kind \<noteq> retainedAircraftCommand \<Longrightarrow> mget (aircraftCommands s1) k = None"
    and "kind \<noteq> retainedMissionDeployment \<Longrightarrow> mget (missionDeployments s1) k = None"
  using assms by (auto simp: prepareCommandIDAdmissionLocked_def Let_def split: if_splits)

lemma wf_prepareD:
  "wf_session s \<Longrightarrow> prepareCommandIDAdmissionLocked s k kind now = (e, s1) \<Longrightarrow> wf_session s1"
  using wf_prepare [of s k kind now] by simp

lemma wf_beginOperationCommand [inv_intros]:
  assumes "wf_session s" "k \<noteq> []"
  shows "wf_session (snd (beginOperationCommand s k fp expected now))"
proof (cases "prepareCommandIDAdmissionLocked s k retainedOperationCommand now")
  case (Pair e s1)
  note wf1 = wf_prepareD [OF assms(1) Pair]
  show ?thesis
  proof (cases e)
    case None
    note free = prepare_free(2,3) [OF Pair [unfolded None]]
    let ?s2 = "makeOperationCommandRoomLocked s1"
    have inst: "mget (operationCommands s1) k = Some r \<Longrightarrow> op_completed (opHeap s1 r) \<Longrightarrow>
        wf_session (installOperation s1 k (newOperationState fp expected))" for r
      using wf1 free assms(2) mget_None_iff [of "operationCommands s1" k]
      by (intro wf_installOperation) (auto simp: newOperationState_def zeroOp_def)
    have fresh: "length (operationCommands ?s2) < maxOperationCommands \<Longrightarrow>
        mget (operationCommands s1) k = None \<Longrightarrow>
        wf_session (installOperation ?s2 k (newOperationState fp expected))"
      using wf_makeOperationRoom [OF wf1] free assms(2)
      by (intro wf_installOperation) (auto simp: newOperationState_def zeroOp_def
          makeOperationCommandRoomLocked_def dest: mget_makeRoomD)
    show ?thesis
      using wf1 inst fresh wf_makeOperationRoom [OF wf1]
      by (simp add: beginOperationCommand_def Pair None Let_def split: option.splits)
  qed (simp add: beginOperationCommand_def Pair wf1)
qed

end
