(* ===== verification/AircraftCommands.thy ===== *)
theory AircraftCommands
  imports OperationCommands
begin

text \<open>
  Immediate ARM/DISARM commands on one session (\<open>internal/relay/apiserver.go\<close>,
  \<open>gatewayserver.go\<close>).  An admitted command is shared by every caller that repeats it with
  the same payload (\<open>waiters\<close>); the Agent's result, a delivery failure, the last waiter leaving
  or the loss of the session completes it.
\<close>

definition newAircraftState :: "string \<Rightarrow> aircraftCommandState" where
  "newAircraftState fp = zeroAc\<lparr>ac_fingerprint := fp, ac_waiters := 1\<rparr>"

definition installAircraft :: "DroneSession \<Rightarrow> string \<Rightarrow> aircraftCommandState \<Rightarrow> DroneSession" where
  "installAircraft s commandID st = s\<lparr>
     acHeap := (acHeap s)(acNext s := st), acNext := Suc (acNext s),
     aircraftCommands := mput commandID (acNext s) (aircraftCommands s)\<rparr>"

text \<open>
  \<open>fingerprint\<close> is the digest of the encoded command, or \<open>None\<close> when encoding fails.
\<close>

definition beginAircraftCommandDelivery ::
  "DroneSession \<Rightarrow> aircraftCommand \<Rightarrow> string option \<Rightarrow> gotime \<Rightarrow>
    (goerror + nat \<times> bool) \<times> DroneSession" where
  "beginAircraftCommandDelivery s command fingerprint now =
     (case fingerprint of
        None \<Rightarrow> (Inl (Status Internal ''fingerprint aircraft command''), s)
      | Some fp \<Rightarrow>
        (case prepareCommandIDAdmissionLocked s (acmd_CommandId command) retainedAircraftCommand now of
           (Some err, s1) \<Rightarrow> (Inl err, s1)
         | (None, s1) \<Rightarrow>
           (case mget (aircraftCommands s1) (acmd_CommandId command) of
              Some r \<Rightarrow>
                (if ac_fingerprint (acHeap s1 r) \<noteq> fp
                 then (Inl (Status AlreadyExists
                   ''aircraft command ID was already used with a different payload''), s1)
                 else (Inr (r, False), s1\<lparr>acHeap := (acHeap s1)(r :=
                   (acHeap s1 r)\<lparr>ac_waiters := ac_waiters (acHeap s1 r) + 1\<rparr>)\<rparr>))
            | None \<Rightarrow>
                (let s2 = makeAircraftCommandRoomLocked s1 in
                 if length (aircraftCommands s2) \<ge> maxOperationCommands
                 then (Inl (Status ResourceExhausted ''aircraft command retention is full''), s2)
                 else (Inr (acNext s2, True),
                   installAircraft s2 (acmd_CommandId command) (newAircraftState fp))))))"

text \<open>Finish a state; \<open>cancel\<close> says whether the path calls \<open>deliveryCancel\<close>.\<close>

definition completeAircraft ::
  "DroneSession \<Rightarrow> nat \<Rightarrow> aircraftResult option \<times> goerror option \<Rightarrow> bool \<Rightarrow> gotime \<Rightarrow> DroneSession" where
  "completeAircraft s r p cancel now = s\<lparr>acHeap := (acHeap s)(r :=
     (acFinish p now (acHeap s r))\<lparr>ac_cancelled := ac_cancelled (acHeap s r) \<or> cancel\<rparr>)\<rparr>"

definition finishAircraftCommand ::
  "DroneSession \<Rightarrow> string \<Rightarrow> nat \<Rightarrow> aircraftResult option \<Rightarrow> goerror option \<Rightarrow> gotime \<Rightarrow> DroneSession" where
  "finishAircraftCommand s commandID r result err now =
     (if mget (aircraftCommands s) commandID \<noteq> Some r \<or> ac_completed (acHeap s r) then s
      else completeAircraft s r
        (case result of Some x \<Rightarrow> Some x | None \<Rightarrow> ac_result (acHeap s r), err) True now)"

definition takeAircraftCommandResult ::
  "DroneSession \<Rightarrow> nat \<Rightarrow> (aircraftResult option \<times> goerror option) \<times> DroneSession" where
  "takeAircraftCommandResult s r =
     (let st = acHeap s r;
          s1 = (if ac_waiters st > 0
                then s\<lparr>acHeap := (acHeap s)(r := st\<lparr>ac_waiters := ac_waiters st - 1\<rparr>)\<rparr> else s)
      in ((ac_result st, ac_err st), s1))"

definition cancelAircraftCommandWaiter ::
  "DroneSession \<Rightarrow> string \<Rightarrow> nat \<Rightarrow> goerror \<Rightarrow> gotime \<Rightarrow> DroneSession" where
  "cancelAircraftCommandWaiter s commandID r err now =
     (if mget (aircraftCommands s) commandID \<noteq> Some r then s
      else
        (let st = acHeap s r;
             st1 = (if ac_waiters st > 0 then st\<lparr>ac_waiters := ac_waiters st - 1\<rparr> else st);
             s1 = s\<lparr>acHeap := (acHeap s)(r := st1)\<rparr>
         in if ac_waiters st1 \<noteq> 0 \<or> ac_completed st1 then s1
            else completeAircraft s1 r (ac_result st1, Some err) True now))"

definition handleAircraftCommandResult ::
  "DroneSession \<Rightarrow> aircraftResult \<Rightarrow> gotime \<Rightarrow> DroneSession" where
  "handleAircraftCommandResult s result now =
     (case mget (aircraftCommands s) (ares_CommandId result) of
        None \<Rightarrow> s
      | Some r \<Rightarrow> if ac_completed (acHeap s r) then s
          else completeAircraft s r (Some result, ac_err (acHeap s r)) False now)"

definition handleAircraftCommandResultFrom ::
  "DroneSession \<Rightarrow> nat \<Rightarrow> aircraftResult \<Rightarrow> gotime \<Rightarrow> DroneSession" where
  "handleAircraftCommandResultFrom s b result now =
     (if bindingCurrent s b then handleAircraftCommandResult s result now else s)"

section \<open>Invariant preservation\<close>

text \<open>Only the heap of aircraft states changes, and each changed state is closed once.\<close>

lemma wf_acHeap_upd:
  assumes "wf_session s" "ac_closes st = (if ac_completed st then 1 else 0)"
    "ac_completed (acHeap s r) \<longrightarrow> ac_completed st"
  shows "wf_session (s\<lparr>acHeap := (acHeap s)(r := st)\<rparr>)"
  using assms by (simp add: wf_session_def disjointKinds_def pendingOk_def closedOnce_upd
      missionCommandsOk_def retainedLive_upd)

lemma wf_ac_closes:
  "wf_session s \<Longrightarrow> ac_closes (acHeap s r) = (if ac_completed (acHeap s r) then 1 else 0)"
  by (auto simp: wf_session_def closedOnce_def)

lemma wf_completeAircraft [inv_intros]:
  "wf_session s \<Longrightarrow> \<not> ac_completed (acHeap s r) \<Longrightarrow> wf_session (completeAircraft s r p c now)"
  by (simp add: completeAircraft_def wf_acHeap_upd acFinish_def wf_ac_closes)

lemma wf_finishAircraftCommand [inv_intros]:
  "wf_session s \<Longrightarrow> wf_session (finishAircraftCommand s k r result err now)"
  by (simp add: finishAircraftCommand_def inv_intros)

lemma wf_takeAircraft [inv_intros]:
  "wf_session s \<Longrightarrow> wf_session (snd (takeAircraftCommandResult s r))"
  by (simp add: takeAircraftCommandResult_def Let_def wf_acHeap_upd wf_ac_closes)

lemma wf_cancelAircraftWaiter [inv_intros]:
  assumes "wf_session s" shows "wf_session (cancelAircraftCommandWaiter s k r err now)"
proof -
  have "\<not> ac_completed (acHeap s r) \<Longrightarrow> ac_closes (acHeap s r) = 0"
    using wf_ac_closes [OF assms, of r] by simp
  then show ?thesis
    using assms wf_ac_closes [OF assms, of r]
    by (auto simp: cancelAircraftCommandWaiter_def Let_def completeAircraft_def acFinish_def
        intro!: wf_acHeap_upd)
qed

lemma wf_handleAircraftResult [inv_intros]:
  "wf_session s \<Longrightarrow> wf_session (handleAircraftCommandResult s result now)"
  by (simp add: handleAircraftCommandResult_def wf_completeAircraft split: option.splits)

lemma wf_handleAircraftFrom [inv_intros]:
  "wf_session s \<Longrightarrow> wf_session (handleAircraftCommandResultFrom s b result now)"
  by (simp add: handleAircraftCommandResultFrom_def inv_intros)

lemma wf_makeAircraftRoom [inv_intros]:
  assumes "wf_session s" shows "wf_session (makeAircraftCommandRoomLocked s)"
proof -
  have "disjointKinds (makeAircraftCommandRoomLocked s)"
    by (rule disjointKinds_sub [of s])
      (use assms in \<open>simp_all add: wf_session_def makeAircraftCommandRoomLocked_def mkeys_makeRoom\<close>)
  with assms show ?thesis
    by (simp add: wf_session_def makeAircraftCommandRoomLocked_def inv_intros pendingOk_def
        missionCommandsOk_def retainedLive_makeRoom)
qed

lemma wf_installAircraft:
  assumes "wf_session s" "k \<noteq> []" "\<not> ac_completed st" "ac_closes st = 0"
    "mget (operationCommands s) k = None" "mget (missionDeployments s) k = None"
    "length (aircraftCommands s) < maxOperationCommands" "mget (aircraftCommands s) k = None"
  shows "wf_session (installAircraft s k st)"
proof -
  have "disjointKinds (installAircraft s k st)"
    using assms(1,5,6) by (simp add: disjointKinds_def wf_session_def installAircraft_def
        gomap_simps map_of_eq_None_iff)
  moreover have "retainedLive ac_completed ((acHeap s)(acNext s := st)) (Suc (acNext s))
      (mput k (acNext s) (aircraftCommands s))"
    by (rule retainedLive_insert) (use assms in \<open>auto simp: wf_session_def\<close>)
  ultimately show ?thesis
    using assms by (simp add: wf_session_def installAircraft_def tableOk_insert
        acLife.closedOnce_fresh pendingOk_def missionCommandsOk_def)
qed

lemma wf_beginAircraft [inv_intros]:
  assumes "wf_session s" "acmd_CommandId c \<noteq> []"
  shows "wf_session (snd (beginAircraftCommandDelivery s c fp now))"
proof (cases "prepareCommandIDAdmissionLocked s (acmd_CommandId c) retainedAircraftCommand now")
  case (Pair e s1)
  note wf1 = wf_prepareD [OF assms(1) Pair]
  show ?thesis
  proof (cases e)
    case None
    note free = prepare_free(1,3) [OF Pair [unfolded None]]
    let ?s2 = "makeAircraftCommandRoomLocked s1"
    have fresh: "length (aircraftCommands ?s2) < maxOperationCommands \<Longrightarrow>
        mget (aircraftCommands s1) (acmd_CommandId c) = None \<Longrightarrow>
        wf_session (installAircraft ?s2 (acmd_CommandId c) (newAircraftState f))" for f
      using wf_makeAircraftRoom [OF wf1] free assms(2)
      by (intro wf_installAircraft) (auto simp: newAircraftState_def zeroAc_def
          makeAircraftCommandRoomLocked_def mget_makeRoom_None)
    show ?thesis
      using assms(1) wf1 fresh wf_makeAircraftRoom [OF wf1]
      by (simp add: beginAircraftCommandDelivery_def Pair None Let_def wf_acHeap_upd wf_ac_closes
          split: option.splits)
  qed (use assms(1) in \<open>simp add: beginAircraftCommandDelivery_def Pair wf1 split: option.splits\<close>)
qed

end
