(* ===== verification/Float32.thy ===== *)
theory Float32
  imports Prelude
begin

text \<open>
  IEEE binary32 values as the mission validation uses them
  (\<open>internal/relay/mission_deployment.go\<close>): reading a value from its bits, multiplication
  rounded to nearest even, conversion from and truncation to \<open>int32\<close>, comparison with an
  integer.  A finite value is \<open>Fin s m e\<close>, the number \<open>(-1)^s * m * 2^e\<close>.
\<close>

datatype f32 = NaN | Inf bool | Fin bool nat int

definition f32_of_bits :: "32 word \<Rightarrow> f32" where
  "f32_of_bits w =
     (let n = unat w; s = n div 2 ^ 31 = 1; ex = n div 2 ^ 23 mod 2 ^ 8; f = n mod 2 ^ 23 in
      if ex = 255 then (if f = 0 then Inf s else NaN)
      else if ex = 0 then Fin s f (- 149)
      else Fin s (f + 2 ^ 23) (int ex - 150))"

text \<open>The bits of a value; every NaN is written as the quiet NaN Go produces.\<close>

fun bits_of_f32 :: "f32 \<Rightarrow> 32 word" where
  "bits_of_f32 NaN = 0x7FC00000"
| "bits_of_f32 (Inf s) = of_nat ((if s then 2 ^ 31 else 0) + 255 * 2 ^ 23)"
| "bits_of_f32 (Fin s m e) = of_nat ((if s then 2 ^ 31 else 0) +
     (if m < 2 ^ 23 then m else nat (e + 150) * 2 ^ 23 + (m - 2 ^ 23)))"

fun bitlen :: "nat \<Rightarrow> nat" where
  "bitlen n = (if n = 0 then 0 else Suc (bitlen (n div 2)))"

declare bitlen.simps [simp del]

text \<open>Shift right by \<open>k\<close>, to nearest, ties to even.\<close>

definition roundShift :: "nat \<Rightarrow> nat \<Rightarrow> nat" where
  "roundShift m k =
     (let q = m div 2 ^ k; r = m mod 2 ^ k in
      if 2 * r > 2 ^ k \<or> (2 * r = 2 ^ k \<and> odd q) then q + 1 else q)"

text \<open>The nearest binary32 value to \<open>(-1)^s * m * 2^e\<close>.\<close>

definition roundF32 :: "bool \<Rightarrow> nat \<Rightarrow> int \<Rightarrow> f32" where
  "roundF32 s m e =
     (let q = max (- 149) (e + int (bitlen m) - 24);
          m1 = (if q \<le> e then m * 2 ^ nat (e - q) else roundShift m (nat (q - e)));
          (m2, q2) = (if m1 = 2 ^ 24 then (2 ^ 23, q + 1) else (m1, q))
      in if m = 0 then Fin s 0 (- 149)
         else if q2 > 104 then Inf s else Fin s m2 q2)"

fun mulF32 :: "f32 \<Rightarrow> f32 \<Rightarrow> f32" where
  "mulF32 NaN _ = NaN"
| "mulF32 _ NaN = NaN"
| "mulF32 (Inf s) (Inf t) = Inf (s \<noteq> t)"
| "mulF32 (Inf s) (Fin t m e) = (if m = 0 then NaN else Inf (s \<noteq> t))"
| "mulF32 (Fin s m e) (Inf t) = (if m = 0 then NaN else Inf (s \<noteq> t))"
| "mulF32 (Fin s m e) (Fin t n d) = roundF32 (s \<noteq> t) (m * n) (e + d)"

text \<open>The integer part of a finite value, as Go's conversion to an integer type truncates.\<close>

fun truncF32 :: "f32 \<Rightarrow> int" where
  "truncF32 (Fin s m e) =
     (let a = (if e \<ge> 0 then int m * 2 ^ nat e else int (m div 2 ^ nat (- e)))
      in if s then - a else a)"
| "truncF32 _ = 0"

definition f32_of_int :: "int \<Rightarrow> f32" where
  "f32_of_int i = roundF32 (i < 0) (nat \<bar>i\<bar>) 0"

text \<open>Strict comparisons with an integer constant; a comparison with a NaN is false.\<close>

fun f32_less_int :: "f32 \<Rightarrow> int \<Rightarrow> bool" where
  "f32_less_int NaN i = False"
| "f32_less_int (Inf s) i = s"
| "f32_less_int (Fin s m e) i =
     (if e \<ge> 0 then (if s then - int m else int m) * 2 ^ nat e < i
      else (if s then - int m else int m) < i * 2 ^ nat (- e))"

fun int_less_f32 :: "int \<Rightarrow> f32 \<Rightarrow> bool" where
  "int_less_f32 i NaN = False"
| "int_less_f32 i (Inf s) = (\<not> s)"
| "int_less_f32 i (Fin s m e) =
     (if e \<ge> 0 then i < (if s then - int m else int m) * 2 ^ nat e
      else i * 2 ^ nat (- e) < (if s then - int m else int m))"

fun isFiniteF32 :: "f32 \<Rightarrow> bool" where
  "isFiniteF32 (Fin s m e) = True"
| "isFiniteF32 _ = False"

text \<open>Reading and writing the bits are inverse, NaN payloads apart.\<close>

lemma bits_split:
  fixes n :: nat
  assumes "n < 2 ^ 32"
  shows "n = (if n div 2 ^ 31 = 1 then 2 ^ 31 else 0) + (n div 2 ^ 23 mod 2 ^ 8) * 2 ^ 23 + n mod 2 ^ 23"
proof -
  have hi: "n div 2 ^ 31 = 0 \<or> n div 2 ^ 31 = 1"
    using assms by (simp add: le_less_Suc_eq) linarith
  have "n div 2 ^ 23 div 2 ^ 8 = n div 2 ^ 31" by (simp add: div_mult2_eq [symmetric])
  then have "n div 2 ^ 23 = (n div 2 ^ 31) * 2 ^ 8 + n div 2 ^ 23 mod 2 ^ 8"
    by (metis div_mult_mod_eq)
  moreover have "n = (n div 2 ^ 23) * 2 ^ 23 + n mod 2 ^ 23" by (metis div_mult_mod_eq)
  ultimately have "n = ((n div 2 ^ 31) * 2 ^ 8 + n div 2 ^ 23 mod 2 ^ 8) * 2 ^ 23 + n mod 2 ^ 23"
    by metis
  with hi show ?thesis by (auto simp: algebra_simps)
qed

lemma bits_of_f32_of_bits:
  assumes "f32_of_bits w \<noteq> NaN"
  shows "bits_of_f32 (f32_of_bits w) = w"
proof -
  define n where "n = unat w"
  have w: "w = of_nat n" by (simp add: n_def)
  have "n < 2 ^ 32" using unsigned_less [of w] by (simp add: n_def)
  note split = bits_split [OF this]
  define s where "s \<longleftrightarrow> n div 2 ^ 31 = 1"
  define ex where "ex = n div 2 ^ 23 mod 2 ^ 8"
  define f where "f = n mod 2 ^ 23"
  have f: "f < 2 ^ 23" by (simp add: f_def)
  have n: "n = (if s then 2 ^ 31 else 0) + ex * 2 ^ 23 + f"
    using split unfolding s_def ex_def f_def .
  have val: "f32_of_bits w = (if ex = 255 then (if f = 0 then Inf s else NaN)
      else if ex = 0 then Fin s f (- 149) else Fin s (f + 2 ^ 23) (int ex - 150))"
    by (simp only: f32_of_bits_def Let_def n_def [symmetric] s_def ex_def f_def)
  show ?thesis
    using assms f unfolding val by (auto simp: w n)
qed

lemma isFinite_not_NaN: "isFiniteF32 x \<Longrightarrow> x \<noteq> NaN"
  by auto

text \<open>Rounding a shift is off by at most half a unit in the last place.\<close>

lemma roundShift_near: "\<bar>2 * (int (roundShift m k) * 2 ^ k) - 2 * int m\<bar> \<le> 2 ^ k"
proof -
  define q where "q = m div 2 ^ k"
  define r where "r = m mod 2 ^ k"
  have "m = q * 2 ^ k + r" unfolding q_def r_def by (rule div_mult_mod_eq [symmetric])
  then have m: "int m = int q * 2 ^ k + int r" by (metis of_nat_add of_nat_mult of_nat_numeral of_nat_power)
  have "r < 2 ^ k" by (simp add: r_def)
  then have r: "int r < 2 ^ k" by (metis of_nat_less_iff of_nat_numeral of_nat_power)
  have tie: "2 * r \<ge> 2 ^ k \<longleftrightarrow> 2 * int r \<ge> 2 ^ k"
    by (metis of_nat_le_iff of_nat_mult of_nat_numeral of_nat_power)
  have tie2: "2 * r \<le> 2 ^ k \<longleftrightarrow> 2 * int r \<le> 2 ^ k"
    by (metis of_nat_le_iff of_nat_mult of_nat_numeral of_nat_power)
  have up: "roundShift m k = q + 1 \<Longrightarrow> 2 * r \<ge> 2 ^ k \<Longrightarrow> ?thesis"
    using m r tie by (simp add: algebra_simps)
  have down: "roundShift m k = q \<Longrightarrow> 2 * r \<le> 2 ^ k \<Longrightarrow> ?thesis"
    using m tie2 by (simp add: algebra_simps)
  have rs: "roundShift m k = (if 2 * r > 2 ^ k \<or> (2 * r = 2 ^ k \<and> odd q) then q + 1 else q)"
    by (simp only: roundShift_def Let_def q_def r_def)
  show ?thesis
  proof (cases "2 * r > 2 ^ k \<or> (2 * r = 2 ^ k \<and> odd q)")
    case True
    then have "2 * r \<ge> 2 ^ k" by (elim disjE conjE) (simp_all only: less_imp_le order_refl)
    moreover have "roundShift m k = q + 1" using rs True by (simp only: if_True)
    ultimately show ?thesis using up by (simp only: simp_thms)
  next
    case False
    then have "2 * r \<le> 2 ^ k" by (simp only: de_Morgan_disj linorder_not_less)
    moreover have "roundShift m k = q" using rs False by (simp only: if_False)
    ultimately show ?thesis using down by (simp only: simp_thms)
  qed
qed

end
