(* ===== verification/MissionPlan.thy ===== *)
theory MissionPlan
  imports Session Float32
begin

text \<open>
  Validation of a mission and of the Agent's evidence about it
  (\<open>internal/relay/mission_deployment.go\<close>).  The canonical plan digest is computed by a
  package outside the repository and is the parameter \<open>digest\<close>.
\<close>

definition missionPlanSchemaVersion :: nat where "missionPlanSchemaVersion = 1"
definition maxMissionItems :: nat where "maxMissionItems = 200"

text \<open>\<open>MAV_FRAME_GLOBAL\<close>, \<open>MAV_CMD_NAV_WAYPOINT\<close>, \<open>MAV_CMD_NAV_LAND\<close> and
  \<open>MAV_CMD_NAV_TAKEOFF\<close> of the MAVLink common dialect.\<close>

definition frameGlobal :: "32 word" where "frameGlobal = 0"
definition cmdNavWaypoint :: "32 word" where "cmdNavWaypoint = 16"
definition cmdNavLand :: "32 word" where "cmdNavLand = 21"
definition cmdNavTakeoff :: "32 word" where "cmdNavTakeoff = 22"

definition isSupportedMissionFrame :: "32 word \<Rightarrow> bool" where
  "isSupportedMissionFrame v \<longleftrightarrow> v = frameGlobal"

definition isSupportedMissionCommand :: "32 word \<Rightarrow> bool" where
  "isSupportedMissionCommand v \<longleftrightarrow> v = cmdNavWaypoint \<or> v = cmdNavLand \<or> v = cmdNavTakeoff"

definition isPositiveZero :: "64 word \<Rightarrow> bool" where
  "isPositiveZero v \<longleftrightarrow> v = 0"

text \<open>The binary64 tests of the validation: the value is 1, the value is NaN or infinite.\<close>

definition isOne64 :: "64 word \<Rightarrow> bool" where
  "isOne64 v \<longleftrightarrow> v = 0x3FF0000000000000"

definition notFinite64 :: "64 word \<Rightarrow> bool" where
  "notFinite64 v \<longleftrightarrow> unat v div 2 ^ 52 mod 2 ^ 11 = 2047"

section \<open>ArduPilot's signed-centimetre altitude\<close>

definition f32_100 :: f32 where "f32_100 = Fin False 13107200 (- 17)"
definition f32_001 :: f32 where "f32_001 = Fin False 10737418 (- 30)"

definition altitudeCM :: "32 word \<Rightarrow> f32" where
  "altitudeCM a = mulF32 (f32_of_bits a) f32_100"

definition altitudeReadback :: "32 word \<Rightarrow> f32" where
  "altitudeReadback a = mulF32 (f32_of_int (truncF32 (altitudeCM a))) f32_001"

section \<open>Validation of the command\<close>

abbreviation invalidArg :: "string \<Rightarrow> goerror option" where
  "invalidArg m \<equiv> Some (Status InvalidArgument m)"

definition itemError :: "nat \<Rightarrow> string \<Rightarrow> goerror option" where
  "itemError i m = invalidArg (''mission item '' @ showNat i @ m)"

definition validateMissionItem :: "nat \<Rightarrow> missionItem option \<Rightarrow> goerror option" where
  "validateMissionItem i item =
     (case item of None \<Rightarrow> itemError i '' is nil or contains unknown fields''
      | Some it \<Rightarrow>
        if mi_unknown it \<noteq> [] then itemError i '' is nil or contains unknown fields''
        else if mi_Sequence it \<noteq> of_nat i then itemError i '' has non-contiguous sequence''
        else if mi_Current it then itemError i '' sets reserved current flag''
        else if \<not> mi_Autocontinue it then itemError i '' must enable autocontinue''
        else if \<not> isPositiveZero (mi_Param1 it) \<or> \<not> isPositiveZero (mi_Param2 it) \<or>
                \<not> isPositiveZero (mi_Param3 it)
          then itemError i '' params 1 through 3 must be positive zero''
        else if \<not> isSupportedMissionFrame (mi_Frame it)
          then itemError i ('' uses unsupported frame '' @ showNat (unat (mi_Frame it)))
        else if \<not> isSupportedMissionCommand (mi_Command it)
          then itemError i ('' uses unsupported command '' @ showNat (unat (mi_Command it)))
        else if (mi_Command it = cmdNavWaypoint \<or> mi_Command it = cmdNavTakeoff) \<and>
                \<not> isPositiveZero (mi_Param4 it)
          then itemError i ('' param4 must be positive zero for command '' @
            showNat (unat (mi_Command it)))
        else if mi_Command it = cmdNavLand \<and> \<not> isOne64 (mi_Param4 it)
          then itemError i '' param4 must be +1 for NAV_LAND''
        else if sint (mi_LatitudeE7 it) < - 900000000 \<or> sint (mi_LatitudeE7 it) > 900000000 \<or>
                sint (mi_LongitudeE7 it) < - 1800000000 \<or> sint (mi_LongitudeE7 it) > 1800000000
          then itemError i '' has invalid coordinates''
        else if list_ex notFinite64 [mi_Param1 it, mi_Param2 it, mi_Param3 it, mi_Param4 it] \<or>
                \<not> isFiniteF32 (f32_of_bits (mi_AltitudeM it))
          then itemError i '' contains a non-finite value''
        else if f32_less_int (altitudeCM (mi_AltitudeM it)) (- 8388608) \<or>
                int_less_f32 8388607 (altitudeCM (mi_AltitudeM it))
          then itemError i '' altitude exceeds ArduPilot signed-centimeter storage''
        else if bits_of_f32 (altitudeReadback (mi_AltitudeM it)) \<noteq> mi_AltitudeM it
          then itemError i '' altitude must round-trip through ArduPilot truncating signed-centimeter storage''
        else None)"

fun validateMissionItems :: "nat \<Rightarrow> missionItem option list \<Rightarrow> goerror option" where
  "validateMissionItems i [] = None"
| "validateMissionItems i (x # xs) =
     (case validateMissionItem i x of Some e \<Rightarrow> Some e | None \<Rightarrow> validateMissionItems (Suc i) xs)"

definition canonicalId :: "string \<Rightarrow> bool" where
  "canonicalId v \<longleftrightarrow> v \<noteq> [] \<and> v = trimSpace v"

definition isHexChar :: "char \<Rightarrow> bool" where
  "isHexChar c \<longleftrightarrow> isDigitASCII c \<or> (CHR ''a'' \<le> c \<and> c \<le> CHR ''f'') \<or> (CHR ''A'' \<le> c \<and> c \<le> CHR ''F'')"

text \<open>\<open>hex.DecodeString\<close> succeeds.\<close>

definition hexDecodes :: "string \<Rightarrow> bool" where
  "hexDecodes s \<longleftrightarrow> even (length s) \<and> list_all isHexChar s"

definition bindingValues :: "missionBinding \<Rightarrow> string list" where
  "bindingValues b = [mb_MissionId b, mb_MissionDigest b, mb_DeploymentId b, mb_OperatorId b,
     mb_AircraftId b, mb_FlightId b, mb_IntentId b]"

definition digestMessage :: "goerror option" where
  "digestMessage = invalidArg ''mission_digest must be lowercase hexadecimal SHA-256''"

definition validateDeployMissionCommand ::
  "(missionPlan \<Rightarrow> string + string) \<Rightarrow> deployMissionCommand option \<Rightarrow> goerror option" where
  "validateDeployMissionCommand digest command =
     (case command of
        None \<Rightarrow> invalidArg ''command, binding, and plan are required''
      | Some c \<Rightarrow> (case (dm_Binding c, dm_Plan c) of
          (Some b, Some plan) \<Rightarrow>
            if dm_unknown c \<noteq> [] \<or> mb_unknown b \<noteq> [] \<or> mp_unknown plan \<noteq> []
              then invalidArg ''mission command contains unknown fields''
            else if trimSpace (dm_CommandId c) = [] \<or> dm_CommandId c \<noteq> trimSpace (dm_CommandId c)
              then invalidArg ''command_id must be non-empty and canonical''
            else if \<not> list_all canonicalId (bindingValues b)
              then invalidArg ''all mission binding identifiers must be non-empty and canonical''
            else if mb_MissionVersion b = 0 \<or> mb_IntentVersion b = 0
              then invalidArg ''mission_version and intent_version must be positive''
            else if length (mb_MissionDigest b) \<noteq> 64 \<or>
                    toLower (mb_MissionDigest b) \<noteq> mb_MissionDigest b
              then digestMessage
            else if \<not> hexDecodes (mb_MissionDigest b) then digestMessage
            else if dm_IssuedAtUnixMs c \<le> 0 \<or> dm_ExpiresAtUnixMs c \<le> dm_IssuedAtUnixMs c
              then invalidArg ''mission command timestamps are invalid''
            else if unat (mp_SchemaVersion plan) \<noteq> missionPlanSchemaVersion
              then invalidArg (''unsupported mission schema version '' @
                showNat (unat (mp_SchemaVersion plan)))
            else if mp_Items plan = [] \<or> length (mp_Items plan) > maxMissionItems
              then invalidArg (''mission plan must contain 1 to '' @ showNat maxMissionItems @ '' items'')
            else (case validateMissionItems 0 (mp_Items plan) of
                Some e \<Rightarrow> Some e
              | None \<Rightarrow> (case digest plan of
                  Inl e \<Rightarrow> Some (Status Internal (''canonicalize mission plan: '' @ e))
                | Inr d \<Rightarrow> if d \<noteq> mb_MissionDigest b
                    then invalidArg ''mission_digest does not match the canonical plan'' else None))
        | _ \<Rightarrow> invalidArg ''command, binding, and plan are required''))"

section \<open>Validation of the Agent's result\<close>

abbreviation internalErr :: "string \<Rightarrow> goerror option" where
  "internalErr m \<equiv> Some (Status Internal m)"

fun knownMissionStatus :: "missionStatus \<Rightarrow> bool" where
  "knownMissionStatus (MissionOther _) = False"
| "knownMissionStatus _ = True"

definition planItems :: "deployMissionCommand \<Rightarrow> missionItem option list" where
  "planItems c = (case dm_Plan c of None \<Rightarrow> [] | Some p \<Rightarrow> mp_Items p)"

definition bindingDigest :: "deployMissionCommand \<Rightarrow> string" where
  "bindingDigest c = (case dm_Binding c of None \<Rightarrow> [] | Some b \<Rightarrow> mb_MissionDigest b)"

definition validateMissionDeploymentResult ::
  "deployMissionCommand option \<Rightarrow> missionResult \<Rightarrow> goerror option" where
  "validateMissionDeploymentResult command result =
     (case command of
        None \<Rightarrow> internalErr ''agent returned a mismatched mission deployment result''
      | Some c \<Rightarrow>
        if mr_CommandId result \<noteq> dm_CommandId c \<or> mr_Binding result \<noteq> dm_Binding c
          then internalErr ''agent returned a mismatched mission deployment result''
        else if mr_unknown result \<noteq> [] \<or>
                (case mr_Binding result of None \<Rightarrow> True | Some b \<Rightarrow> mb_unknown b \<noteq> [])
          then internalErr ''agent returned an invalid mission deployment result''
        else if \<not> knownMissionStatus (mr_Status result)
          then internalErr ''agent returned an invalid mission deployment status''
        else if mr_CompletedAtUnixMs result \<le> 0
          then internalErr ''agent returned a mission result without completion time''
        else if (mr_Status result = MissionApplied \<or> mr_Status result = MissionAlreadyApplied) \<and>
                mr_OnboardMissionDigest result \<noteq> bindingDigest c
          then internalErr ''agent success result does not prove the expected onboard mission''
        else if mr_Status result = MissionApplied \<and>
                unat (mr_UploadedItemCount result) \<noteq> length (planItems c)
          then internalErr ''agent applied result does not report the canonical uploaded item count''
        else if mr_Status result = MissionAlreadyApplied \<and> mr_UploadedItemCount result \<noteq> 0
          then internalErr ''agent already-applied result ambiguously reports newly uploaded items''
        else None)"

section \<open>What validation establishes\<close>

lemma validateMissionItems_None:
  "validateMissionItems i xs = None \<longleftrightarrow>
     (\<forall>j < length xs. validateMissionItem (i + j) (xs ! j) = None)"
proof (induction xs arbitrary: i)
  case (Cons x xs)
  show ?case
    by (auto simp: Cons.IH All_less_Suc2 split: option.splits)
qed simp

text \<open>The first item that is refused decides the error.\<close>

lemma validateMissionItems_Some:
  "validateMissionItems i xs = Some e \<longleftrightarrow>
     (\<exists>j < length xs. validateMissionItem (i + j) (xs ! j) = Some e \<and>
        (\<forall>l < j. validateMissionItem (i + l) (xs ! l) = None))"
proof (induction xs arbitrary: i)
  case (Cons x xs)
  show ?case
  proof (cases "validateMissionItem i x")
    case None
    then show ?thesis
      by (simp add: Cons.IH Ex_less_Suc2 All_less_Suc2)
  next
    case (Some e')
    then show ?thesis
      by (force simp: Ex_less_Suc2 All_less_Suc2)
  qed
qed simp

text \<open>The facts an accepted item has.\<close>

definition acceptableItem :: "nat \<Rightarrow> missionItem \<Rightarrow> bool" where
  "acceptableItem i it \<longleftrightarrow>
     mi_unknown it = [] \<and> mi_Sequence it = of_nat i \<and> \<not> mi_Current it \<and> mi_Autocontinue it \<and>
     mi_Param1 it = 0 \<and> mi_Param2 it = 0 \<and> mi_Param3 it = 0 \<and> mi_Frame it = frameGlobal \<and>
     ((mi_Command it = cmdNavLand \<and> mi_Param4 it = 0x3FF0000000000000) \<or>
      (mi_Command it \<in> {cmdNavWaypoint, cmdNavTakeoff} \<and> mi_Param4 it = 0)) \<and>
     \<bar>sint (mi_LatitudeE7 it)\<bar> \<le> 900000000 \<and> \<bar>sint (mi_LongitudeE7 it)\<bar> \<le> 1800000000 \<and>
     isFiniteF32 (f32_of_bits (mi_AltitudeM it)) \<and>
     \<not> f32_less_int (altitudeCM (mi_AltitudeM it)) (- 8388608) \<and>
     \<not> int_less_f32 8388607 (altitudeCM (mi_AltitudeM it)) \<and>
     bits_of_f32 (altitudeReadback (mi_AltitudeM it)) = mi_AltitudeM it"

lemma notFinite64_zero [simp]: "\<not> notFinite64 0"
  by (simp add: notFinite64_def)

lemma notFinite64_one [simp]: "\<not> notFinite64 0x3FF0000000000000"
  by (simp add: notFinite64_def)

lemma mission_commands_distinct [simp]:
  "cmdNavLand \<noteq> cmdNavWaypoint" "cmdNavLand \<noteq> cmdNavTakeoff" "cmdNavWaypoint \<noteq> cmdNavTakeoff"
  "cmdNavWaypoint \<noteq> cmdNavLand" "cmdNavTakeoff \<noteq> cmdNavLand" "cmdNavTakeoff \<noteq> cmdNavWaypoint"
  by (simp_all add: cmdNavLand_def cmdNavWaypoint_def cmdNavTakeoff_def)

lemmas mission_item_tests = isPositiveZero_def isOne64_def isSupportedMissionFrame_def
  isSupportedMissionCommand_def

lemma itemError_Some [simp]: "itemError i m \<noteq> None"
  by (simp add: itemError_def)

lemma validateMissionItem_ok:
  "validateMissionItem i x = None \<longleftrightarrow> (\<exists>it. x = Some it \<and> acceptableItem i it)"
proof (cases x)
  case (Some it)
  show ?thesis
    unfolding Some validateMissionItem_def acceptableItem_def mission_item_tests abs_le_iff
    by (auto split: if_splits)
qed (simp add: validateMissionItem_def)

end
