(* ===== verification/MissionDeployment.thy ===== *)
theory MissionDeployment
  imports AircraftCommands MissionPlan
begin

text \<open>
  Mission deployments on one session (\<open>internal/relay/mission_deployment.go\<close> and the result
  handlers of \<open>gatewayserver.go\<close>).  A deployment is admitted, perhaps first reserved for a
  retry that waits for the session's gate, activated for delivery on the current binding, and
  completed by the Agent's result, a delivery failure, the last waiter leaving or the loss of the
  session.  The observations of a context at the points where the source reads it are arguments,
  in the order of the reads; a context that is done stays done.
\<close>

definition maxMissionCommandWindow :: int where "maxMissionCommandWindow = 5 * minute"
definition maxMissionClockSkew :: int where "maxMissionClockSkew = 30 * second"

section \<open>The admission controller of a reservation\<close>

definition admissionAdd :: "missionAdmission \<Rightarrow> ctxErr option \<Rightarrow> missionAdmission option" where
  "admissionAdd a waiterErr =
     (if adm_closed a \<or> adm_cancelled a \<or> waiterErr \<noteq> None then None
      else Some (a\<lparr>adm_active := adm_active a + 1\<rparr>))"

definition newMissionAdmission :: "ctxErr option \<Rightarrow> missionAdmission option" where
  "newMissionAdmission waiterErr =
     admissionAdd \<lparr>adm_cancelled = False, adm_active = 0, adm_closed = False\<rparr> waiterErr"

definition admissionCancel :: "missionAdmission \<Rightarrow> missionAdmission" where
  "admissionCancel a = a\<lparr>adm_cancelled := True\<rparr>"

definition admissionRemove :: "missionAdmission \<Rightarrow> missionAdmission" where
  "admissionRemove a =
     (if adm_closed a \<or> adm_active a = 0 then a
      else (let a1 = a\<lparr>adm_active := adm_active a - 1\<rparr>
            in if adm_active a1 = 0 then admissionCancel (a1\<lparr>adm_closed := True\<rparr>) else a1))"

section \<open>Completion\<close>

definition retryableMissionDeployment :: "missionDeploymentState \<Rightarrow> bool" where
  "retryableMissionDeployment st =
     (if \<not> md_completed st then False
      else if md_admissionFailed st then True
      else if md_err st \<noteq> None then False
      else (case md_result st of None \<Rightarrow> False
            | Some r \<Rightarrow> mr_Status r = MissionTemporaryError \<or> mr_Status r = MissionOutcomeUnknown))"

definition uncertainMissionDeploymentResult ::
  "deployMissionCommand option \<Rightarrow> gotime \<Rightarrow> string \<Rightarrow> missionResult" where
  "uncertainMissionDeploymentResult command now reason =
     \<lparr>mr_CommandId = (case command of None \<Rightarrow> [] | Some c \<Rightarrow> dm_CommandId c),
      mr_Binding = (case command of None \<Rightarrow> None | Some c \<Rightarrow> dm_Binding c),
      mr_Status = MissionOutcomeUnknown, mr_Message = reason,
      mr_CompletedAtUnixMs = unixMilli now, mr_OnboardMissionDigest = [],
      mr_UploadedItemCount = 0, mr_unknown = []\<rparr>"

text \<open>The call of \<open>deliveryCancel\<close> where it is not nil.\<close>

definition cancelDelivery :: "missionDeploymentState \<Rightarrow> missionDeploymentState" where
  "cancelDelivery st = st\<lparr>md_cancelled := map_option (\<lambda>_. True) (md_cancelled st)\<rparr>"

text \<open>A reservation ends before admission: the retry may be attempted again.\<close>

definition endReservation :: "goerror \<Rightarrow> gotime \<Rightarrow> missionDeploymentState \<Rightarrow> missionDeploymentState" where
  "endReservation err now st = mdFinish (md_result st, Some err) now
     (st\<lparr>md_admissionFailed := True, md_admission := map_option admissionCancel (md_admission st)\<rparr>)"

definition completeMissionDeploymentForLostSessionLocked ::
  "gotime \<Rightarrow> string \<Rightarrow> missionDeploymentState \<Rightarrow> missionDeploymentState" where
  "completeMissionDeploymentForLostSessionLocked now reason st =
     (if md_completed st then st
      else
        (let st1 =
           (if md_reserved st
            then mdFinish (md_result st, Some (Status Aborted (reason @ '' before mission admission''))) now
                   (st\<lparr>md_admissionFailed := True\<rparr>)
            else if md_delivered st
            then mdFinish (Some (uncertainMissionDeploymentResult (md_command st) now reason), md_err st) now st
            else mdFinish (md_result st,
                   Some (Status Aborted (reason @ '' before confirmed delivery''))) now st)
         in cancelDelivery
              (st1\<lparr>md_admission := map_option admissionCancel (md_admission st1)\<rparr>)))"

definition finishMissionDeployment ::
  "DroneSession \<Rightarrow> string \<Rightarrow> nat \<Rightarrow> missionResult option \<Rightarrow> goerror option \<Rightarrow> gotime
    \<Rightarrow> DroneSession" where
  "finishMissionDeployment s commandID r result err now =
     (if mget (missionDeployments s) commandID \<noteq> Some r \<or> md_completed (mdHeap s r) then s
      else s\<lparr>mdHeap := (mdHeap s)(r := cancelDelivery (mdFinish
        (case result of Some x \<Rightarrow> Some x | None \<Rightarrow> md_result (mdHeap s r), err) now (mdHeap s r)))\<rparr>)"

definition failMissionDeploymentReservation ::
  "DroneSession \<Rightarrow> string \<Rightarrow> nat \<Rightarrow> goerror \<Rightarrow> gotime \<Rightarrow> bool \<times> DroneSession" where
  "failMissionDeploymentReservation s commandID r err now =
     (if mget (missionDeployments s) commandID \<noteq> Some r \<or> md_completed (mdHeap s r) \<or>
         \<not> md_reserved (mdHeap s r) then (False, s)
      else (True, s\<lparr>mdHeap := (mdHeap s)(r := endReservation err now (mdHeap s r))\<rparr>))"

definition missionDeploymentCompleted :: "DroneSession \<Rightarrow> nat \<Rightarrow> bool" where
  "missionDeploymentCompleted s r = md_completed (mdHeap s r)"

definition takeMissionDeploymentResult ::
  "DroneSession \<Rightarrow> nat \<Rightarrow> (missionResult option \<times> goerror option) \<times> DroneSession" where
  "takeMissionDeploymentResult s r =
     (let st = mdHeap s r;
          s1 = (if md_waiters st > 0
                then s\<lparr>mdHeap := (mdHeap s)(r := st\<lparr>md_waiters := md_waiters st - 1\<rparr>)\<rparr> else s)
      in ((md_result st, md_err st), s1))"

definition dropWaiter :: "missionDeploymentState \<Rightarrow> missionDeploymentState" where
  "dropWaiter st = (if md_waiters st > 0 then st\<lparr>md_waiters := md_waiters st - 1\<rparr> else st)"

text \<open>What the last waiter does to a state that has not completed.\<close>

definition abandonMission :: "gotime \<Rightarrow> missionDeploymentState \<Rightarrow> missionDeploymentState" where
  "abandonMission now st =
     (if md_reserved st
      then endReservation (Status Canceled ''all mission retry waiters ended before admission'') now st
      else cancelDelivery (mdFinish (Some (uncertainMissionDeploymentResult (md_command st) now
             ''mission result wait ended after command admission''), md_err st) now st))"

definition cancelMissionDeploymentWaiter ::
  "DroneSession \<Rightarrow> string \<Rightarrow> nat \<Rightarrow> gotime \<Rightarrow> DroneSession" where
  "cancelMissionDeploymentWaiter s commandID r now =
     (if mget (missionDeployments s) commandID \<noteq> Some r then s
      else
        (let st = dropWaiter (mdHeap s r) in
         s\<lparr>mdHeap := (mdHeap s)(r :=
           if md_waiters st \<noteq> 0 \<or> md_completed st then st else abandonMission now st)\<rparr>))"

section \<open>Admission\<close>

datatype missionAttach = AttachFailed goerror | NotRetained | Attached nat | Reserved nat

definition currentBinding :: "DroneSession \<Rightarrow> nat option" where
  "currentBinding s = stream s"

definition missionReservation ::
  "DroneSession \<Rightarrow> deployMissionCommand \<Rightarrow> string \<Rightarrow> missionAdmission \<Rightarrow> missionDeploymentState" where
  "missionReservation s command fp a = zeroMd\<lparr>md_fingerprint := fp, md_command := Some command,
     md_deliveryStream := currentBinding s, md_waiters := 1, md_reserved := True,
     md_admission := Some a\<rparr>"

definition installMission :: "DroneSession \<Rightarrow> string \<Rightarrow> missionDeploymentState \<Rightarrow> DroneSession" where
  "installMission s commandID st = s\<lparr>
     mdHeap := (mdHeap s)(mdNext s := st), mdNext := Suc (mdNext s),
     missionDeployments := mput commandID (mdNext s) (missionDeployments s)\<rparr>"

definition missionPayloadConflict :: goerror where
  "missionPayloadConflict =
     Status AlreadyExists ''mission command ID was already used with a different payload''"

text \<open>The error of a waiter context that the source found done.\<close>

definition waiterError :: "ctxErr option \<Rightarrow> goerror" where
  "waiterError w = (case w of None \<Rightarrow> Status Unknown [] | Some e \<Rightarrow> fromContextError e)"

definition fingerprintMission :: goerror where
  "fingerprintMission = Status Internal ''fingerprint mission command''"

text \<open>\<open>w1\<close> and \<open>w2\<close> are the observations of the waiter's context.\<close>

definition attachMissionDeployment ::
  "DroneSession \<Rightarrow> deployMissionCommand \<Rightarrow> string option \<Rightarrow> ctxErr option \<Rightarrow> ctxErr option \<Rightarrow>
    gotime \<Rightarrow> missionAttach \<times> DroneSession" where
  "attachMissionDeployment s command fingerprint w1 w2 now =
     (case fingerprint of
        None \<Rightarrow> (AttachFailed fingerprintMission, s)
      | Some fp \<Rightarrow>
       (case prepareCommandIDAdmissionLocked s (dm_CommandId command) retainedMissionDeployment now of
          (Some err, s1) \<Rightarrow> (AttachFailed err, s1)
        | (None, s1) \<Rightarrow>
         (case mget (missionDeployments s1) (dm_CommandId command) of
            None \<Rightarrow> (NotRetained, s1)
          | Some r \<Rightarrow>
            (let st = mdHeap s1 r in
             if md_fingerprint st \<noteq> fp then (AttachFailed missionPayloadConflict, s1)
             else if md_completed st \<and> retryableMissionDeployment st \<and>
                     (md_admissionFailed st \<or> md_deliveryStream st = currentBinding s1)
             then (case newMissionAdmission w1 of
                     None \<Rightarrow> (AttachFailed (waiterError w1), s1)
                   | Some a \<Rightarrow> (Reserved (mdNext s1),
                       installMission s1 (dm_CommandId command) (missionReservation s1 command fp a)))
             else if md_reserved st \<and> md_admission st \<noteq> None
             then (case admissionAdd (the (md_admission st)) w1 of
                     Some a \<Rightarrow> (Attached r, s1\<lparr>mdHeap := (mdHeap s1)(r :=
                       st\<lparr>md_admission := Some a, md_waiters := md_waiters st + 1\<rparr>)\<rparr>)
                   | None \<Rightarrow> (case newMissionAdmission w2 of
                       None \<Rightarrow> (AttachFailed (waiterError w2), s1)
                     | Some a \<Rightarrow>
                         (let s2 = s1\<lparr>mdHeap := (mdHeap s1)(r := endReservation (Status Canceled
                            ''mission retry admission closed before a live waiter attached'') now st)\<rparr>
                          in (Reserved (mdNext s2), installMission s2 (dm_CommandId command)
                               (missionReservation s2 command fp a)))))
             else (Attached r, s1\<lparr>mdHeap := (mdHeap s1)(r :=
                     st\<lparr>md_waiters := md_waiters st + 1\<rparr>)\<rparr>)))))"

text \<open>
  \<open>e1\<close> and \<open>e2\<close> are the observations of the caller's context: of the request for a direct
  delivery, of the reservation's admission for a reservation.
\<close>

definition activateMission ::
  "DroneSession \<Rightarrow> deployMissionCommand \<Rightarrow> string \<Rightarrow> nat option \<Rightarrow> nat \<times> DroneSession" where
  "activateMission s command fp reservation =
     (case reservation of
        None \<Rightarrow> (mdNext s, installMission s (dm_CommandId command)
          (zeroMd\<lparr>md_fingerprint := fp, md_command := Some command,
             md_deliveryStream := currentBinding s, md_cancelled := Some False, md_waiters := 1\<rparr>))
      | Some r \<Rightarrow> (r, s\<lparr>
          mdHeap := (mdHeap s)(r := (mdHeap s r)\<lparr>md_command := Some command,
            md_deliveryStream := currentBinding s, md_cancelled := Some False,
            md_reserved := False, md_admissionFailed := False\<rparr>),
          missionDeployments := mput (dm_CommandId command) r (missionDeployments s)\<rparr>))"

text \<open>The checks between the choice of the state and the write: context, issue time, window,
  room, context again.\<close>

definition admitMissionDelivery ::
  "DroneSession \<Rightarrow> deployMissionCommand \<Rightarrow> string \<Rightarrow> nat option \<Rightarrow> ctxErr option \<Rightarrow> ctxErr option \<Rightarrow>
    gotime \<Rightarrow> (goerror + nat \<times> bool) \<times> DroneSession" where
  "admitMissionDelivery s1 command fp reservation e1 e2 now =
     (if e1 \<noteq> None then (Inl (waiterError e1), s1)
      else if dm_IssuedAtUnixMs command > unixMilli (now + maxMissionClockSkew)
      then (Inl (Status InvalidArgument ''mission command issue time is too far in the future''), s1)
      else if dm_ExpiresAtUnixMs command - dm_IssuedAtUnixMs command >
              maxMissionCommandWindow div millisecond
      then (Inl (Status InvalidArgument ''mission command validity window is too long''), s1)
      else
        (let replacing = mget (missionDeployments s1) (dm_CommandId command) \<noteq> None;
             s2 = (if \<not> replacing then makeMissionDeploymentRoomLocked s1 else s1)
         in if \<not> replacing \<and> length (missionDeployments s2) \<ge> maxOperationCommands
            then (Inl (Status ResourceExhausted ''mission deployment retention is full''), s2)
            else if e2 \<noteq> None then (Inl (waiterError e2), s2)
            else (case activateMission s2 command fp reservation of
                    (r, s3) \<Rightarrow> (Inr (r, True), s3))))"

definition beginMissionDeployment ::
  "DroneSession \<Rightarrow> deployMissionCommand \<Rightarrow> string option \<Rightarrow> nat option \<Rightarrow> ctxErr option \<Rightarrow>
    ctxErr option \<Rightarrow> gotime \<Rightarrow> (goerror + nat \<times> bool) \<times> DroneSession" where
  "beginMissionDeployment s command fingerprint reservation e1 e2 now =
     (case fingerprint of
        None \<Rightarrow> (Inl fingerprintMission, s)
      | Some fp \<Rightarrow>
       (case prepareCommandIDAdmissionLocked s (dm_CommandId command) retainedMissionDeployment now of
          (Some err, s1) \<Rightarrow> (Inl err, s1)
        | (None, s1) \<Rightarrow>
         (case mget (missionDeployments s1) (dm_CommandId command) of
            None \<Rightarrow> admitMissionDelivery s1 command fp reservation e1 e2 now
          | Some r \<Rightarrow>
            (let st = mdHeap s1 r in
             if md_fingerprint st \<noteq> fp then (Inl missionPayloadConflict, s1)
             else if reservation \<noteq> None \<and> reservation \<noteq> Some r
             then (Inl (Status Canceled ''mission retry admission was superseded''), s1)
             else if reservation = Some r \<and> md_reserved st \<and> \<not> md_completed st
             then admitMissionDelivery s1 command fp reservation e1 e2 now
             else if \<not> md_completed st \<or> \<not> retryableMissionDeployment st \<or>
                     md_deliveryStream st \<noteq> currentBinding s1
             then (Inr (r, False), s1\<lparr>mdHeap := (mdHeap s1)(r :=
                     st\<lparr>md_waiters := md_waiters st + 1\<rparr>)\<rparr>)
             else admitMissionDelivery s1 command fp reservation e1 e2 now))))"

section \<open>The send task\<close>

text \<open>The commit callback, run immediately before \<open>Send\<close>.\<close>

definition commitMissionDelivery :: "DroneSession \<Rightarrow> string \<Rightarrow> nat \<Rightarrow> bool \<times> DroneSession" where
  "commitMissionDelivery s commandID r =
     (if mget (missionDeployments s) commandID \<noteq> Some r \<or> md_completed (mdHeap s r) then (False, s)
      else (True, s\<lparr>mdHeap := (mdHeap s)(r := (mdHeap s r)\<lparr>md_resultAdmissionOpen := True\<rparr>)\<rparr>))"

text \<open>After \<open>Send\<close>: record whether it was invoked, then report a failure.\<close>

definition recordMissionDelivery :: "DroneSession \<Rightarrow> string \<Rightarrow> nat \<Rightarrow> bool \<Rightarrow> DroneSession" where
  "recordMissionDelivery s commandID r attempted =
     (if mget (missionDeployments s) commandID = Some r \<and> \<not> md_completed (mdHeap s r)
      then s\<lparr>mdHeap := (mdHeap s)(r := (mdHeap s r)\<lparr>md_delivered := attempted\<rparr>)\<rparr> else s)"

definition missionSendFailed ::
  "DroneSession \<Rightarrow> deployMissionCommand \<Rightarrow> nat \<Rightarrow> bool \<Rightarrow> goerror option \<Rightarrow> gotime \<Rightarrow> DroneSession" where
  "missionSendFailed s command r attempted sendErr now =
     (case sendErr of
        None \<Rightarrow> s
      | Some err \<Rightarrow>
          if attempted
          then finishMissionDeployment s (dm_CommandId command) r
                 (Some (uncertainMissionDeploymentResult (Some command) now
                   ''mission stream write failed after delivery began'')) None now
          else finishMissionDeployment s (dm_CommandId command) r None (Some err) now)"

section \<open>The context of a reservation\<close>

text \<open>The goroutine that \<open>add\<close> starts for a waiter removes it when the waiter's context ends; the
  worker of the reservation cancels its context when it returns.\<close>

definition updAdmission ::
  "(missionAdmission \<Rightarrow> missionAdmission) \<Rightarrow> nat \<Rightarrow> DroneSession \<Rightarrow> DroneSession" where
  "updAdmission f r s = s\<lparr>mdHeap := (mdHeap s)(r :=
     (mdHeap s r)\<lparr>md_admission := map_option f (md_admission (mdHeap s r))\<rparr>)\<rparr>"

definition missionWaiterGone :: "nat \<Rightarrow> DroneSession \<Rightarrow> DroneSession" where
  "missionWaiterGone r s = updAdmission admissionRemove r s"

definition cancelMissionAdmission :: "nat \<Rightarrow> DroneSession \<Rightarrow> DroneSession" where
  "cancelMissionAdmission r s = updAdmission admissionCancel r s"

section \<open>The Agent's result\<close>

definition handleMissionDeploymentResult ::
  "DroneSession \<Rightarrow> missionResult \<Rightarrow> gotime \<Rightarrow> DroneSession" where
  "handleMissionDeploymentResult s result now =
     (case mget (missionDeployments s) (mr_CommandId result) of
        None \<Rightarrow> s
      | Some r \<Rightarrow>
          (let st = mdHeap s r in
           if md_completed st \<or> \<not> md_resultAdmissionOpen st then s
           else s\<lparr>mdHeap := (mdHeap s)(r := cancelDelivery (mdFinish
             (case validateMissionDeploymentResult (md_command st) result of
                Some err \<Rightarrow> (md_result st, Some err)
              | None \<Rightarrow> (Some result, md_err st)) now st))\<rparr>))"

definition handleMissionDeploymentResultFrom ::
  "DroneSession \<Rightarrow> nat \<Rightarrow> missionResult \<Rightarrow> gotime \<Rightarrow> DroneSession" where
  "handleMissionDeploymentResultFrom s b result now =
     (if bindingCurrent s b then handleMissionDeploymentResult s result now else s)"

section \<open>Invariant preservation\<close>

text \<open>A change of one mission state keeps the invariant when the state keeps its command, stays
  completed once completed, is closed once and is itself in order.\<close>

definition missionStep :: "missionDeploymentState \<Rightarrow> missionDeploymentState \<Rightarrow> bool" where
  "missionStep st st' \<longleftrightarrow> md_command st' = md_command st \<and> (md_completed st \<longrightarrow> md_completed st') \<and>
     (md_closes st = (if md_completed st then 1 else 0) \<longrightarrow>
        md_closes st' = (if md_completed st' then 1 else 0)) \<and>
     (missionStateOk st \<longrightarrow> missionStateOk st')"

lemma missionCommandsOk_upd:
  assumes "missionCommandsOk s" "md_command st = md_command (mdHeap s r)"
  shows "missionCommandsOk (s\<lparr>mdHeap := (mdHeap s)(r := st)\<rparr>)"
  unfolding missionCommandsOk_def
proof (clarsimp, intro conjI impI allI)
  fix k r' assume m: "(k, r') \<in> set (missionDeployments s)"
  have "\<exists>c. md_command (mdHeap s r') = Some c \<and> dm_CommandId c = k"
    using assms(1) m by (auto simp: missionCommandsOk_def)
  then show "r' = r \<Longrightarrow> \<exists>c. md_command st = Some c \<and> dm_CommandId c = k"
    and "\<exists>c. md_command (mdHeap s r') = Some c \<and> dm_CommandId c = k"
    using assms(2) by auto
qed

lemma wf_mdHeap_upd:
  assumes "wf_session s" "missionStep (mdHeap s r) st"
  shows "wf_session (s\<lparr>mdHeap := (mdHeap s)(r := st)\<rparr>)"
proof -
  have "missionCommandsOk (s\<lparr>mdHeap := (mdHeap s)(r := st)\<rparr>)"
    using assms by (intro missionCommandsOk_upd) (auto simp: wf_session_def missionStep_def)
  moreover have "closedOnce md_completed md_closes ((mdHeap s)(r := st))"
    using assms by (intro closedOnce_upd) (auto simp: wf_session_def missionStep_def closedOnce_def)
  ultimately show ?thesis
    using assms by (simp add: wf_session_def disjointKinds_def pendingOk_def retainedLive_upd
        missionStep_def)
qed

lemma missionStep_waiters [simp]: "missionStep st (st\<lparr>md_waiters := w\<rparr>)"
  by (simp add: missionStep_def missionStateOk_def)

lemma missionStep_finish:
  "\<not> md_completed st \<Longrightarrow> \<not> md_reserved st \<Longrightarrow> missionStep st (cancelDelivery (mdFinish p now st))"
  by (simp add: missionStep_def missionStateOk_def cancelDelivery_def mdFinish_def)

lemma missionStep_updAdmission:
  "(\<And>a. adm_cancelled a \<Longrightarrow> adm_cancelled (f a)) \<Longrightarrow>
     missionStep st (st\<lparr>md_admission := map_option f (md_admission st)\<rparr>)"
  by (auto simp: missionStep_def missionStateOk_def)

lemma wf_missionAdmission [inv_intros]:
  "wf_session s \<Longrightarrow> wf_session (missionWaiterGone r s)"
  "wf_session s \<Longrightarrow> wf_session (cancelMissionAdmission r s)"
  by (auto simp: missionWaiterGone_def cancelMissionAdmission_def updAdmission_def admissionRemove_def
      admissionCancel_def Let_def intro!: wf_mdHeap_upd missionStep_updAdmission)

lemma missionStep_trans: "missionStep a b \<Longrightarrow> missionStep b c \<Longrightarrow> missionStep a c"
  by (simp add: missionStep_def)

lemma missionStep_refl [simp]: "missionStep a a"
  by (simp add: missionStep_def)

lemma missionStep_endReservation:
  "\<not> md_completed st \<Longrightarrow> missionStep st (endReservation e now st)"
  by (auto simp: missionStep_def missionStateOk_def endReservation_def mdFinish_def
      admissionCancel_def)

lemma missionStep_lost [simp]:
  "missionStep st (completeMissionDeploymentForLostSessionLocked now reason st)"
  by (auto simp: missionStep_def missionStateOk_def cancelDelivery_def mdFinish_def
      admissionCancel_def completeMissionDeploymentForLostSessionLocked_def Let_def)

lemma wf_finishMission [inv_intros]:
  "wf_session s \<Longrightarrow> \<not> md_reserved (mdHeap s r) \<Longrightarrow>
     wf_session (finishMissionDeployment s k r result err now)"
  by (simp add: finishMissionDeployment_def wf_mdHeap_upd missionStep_finish)

lemma wf_failReservation [inv_intros]:
  "wf_session s \<Longrightarrow> wf_session (snd (failMissionDeploymentReservation s k r err now))"
  by (simp add: failMissionDeploymentReservation_def wf_mdHeap_upd missionStep_endReservation)

lemma wf_takeMission [inv_intros]:
  "wf_session s \<Longrightarrow> wf_session (snd (takeMissionDeploymentResult s r))"
  by (simp add: takeMissionDeploymentResult_def Let_def wf_mdHeap_upd)

lemma missionStep_dropWaiter: "missionStep st (dropWaiter st)"
  by (simp add: dropWaiter_def)

lemma missionStep_abandon: "\<not> md_completed st \<Longrightarrow> missionStep st (abandonMission now st)"
  by (simp add: abandonMission_def missionStep_endReservation missionStep_finish)

lemma wf_cancelMissionWaiter [inv_intros]:
  "wf_session s \<Longrightarrow> wf_session (cancelMissionDeploymentWaiter s k r now)"
  by (auto simp: cancelMissionDeploymentWaiter_def Let_def intro!: wf_mdHeap_upd
      missionStep_dropWaiter missionStep_trans [OF missionStep_dropWaiter missionStep_abandon])

lemma wf_commitMission [inv_intros]:
  "wf_session s \<Longrightarrow> \<not> md_reserved (mdHeap s r) \<Longrightarrow> wf_session (snd (commitMissionDelivery s k r))"
  by (auto simp: commitMissionDelivery_def missionStep_def missionStateOk_def intro!: wf_mdHeap_upd)

lemma wf_recordMission [inv_intros]:
  "wf_session s \<Longrightarrow> (a \<Longrightarrow> md_resultAdmissionOpen (mdHeap s r)) \<Longrightarrow>
     wf_session (recordMissionDelivery s k r a)"
  by (auto simp: recordMissionDelivery_def missionStep_def missionStateOk_def intro!: wf_mdHeap_upd)

lemma wf_missionSendFailed [inv_intros]:
  "wf_session s \<Longrightarrow> \<not> md_reserved (mdHeap s r) \<Longrightarrow> wf_session (missionSendFailed s c r a e now)"
  by (simp add: missionSendFailed_def wf_finishMission split: option.splits)

lemma wf_handleMissionResult [inv_intros]:
  assumes "wf_session s" shows "wf_session (handleMissionDeploymentResult s result now)"
proof -
  have "missionStateOk (mdHeap s r)" for r using assms by (simp add: wf_session_def)
  then have "md_resultAdmissionOpen (mdHeap s r) \<Longrightarrow> \<not> md_reserved (mdHeap s r)" for r
    by (simp add: missionStateOk_def)
  then show ?thesis
    unfolding handleMissionDeploymentResult_def Let_def
    by (auto split: option.split intro!: wf_mdHeap_upd assms missionStep_finish)
qed

lemma wf_handleMissionFrom [inv_intros]:
  "wf_session s \<Longrightarrow> wf_session (handleMissionDeploymentResultFrom s b result now)"
  by (simp add: handleMissionDeploymentResultFrom_def inv_intros)

lemma missionCommandsOk_install:
  assumes "missionCommandsOk s" "tableOk (mdNext s) (missionDeployments s)"
    "md_command st = Some c" "dm_CommandId c = k"
  shows "missionCommandsOk (installMission s k st)"
proof -
  have "\<forall>(k', r) \<in> set (missionDeployments s). r \<noteq> mdNext s \<and>
      (\<exists>c. md_command (mdHeap s r) = Some c \<and> dm_CommandId c = k')"
    using assms(1,2) unfolding missionCommandsOk_def tableOk_def by fastforce
  then show ?thesis
    using assms(3,4) set_mput_subset [of k "mdNext s" "missionDeployments s"]
    unfolding missionCommandsOk_def installMission_def by fastforce
qed

lemma wf_installMission:
  assumes "wf_session s" "k \<noteq> []" "\<not> md_completed st" "md_closes st = 0" "missionStateOk st"
    "md_command st = Some c" "dm_CommandId c = k"
    "mget (operationCommands s) k = None" "mget (aircraftCommands s) k = None"
    "length (missionDeployments s) < maxOperationCommands \<or> k \<in> mkeys (missionDeployments s)"
    "\<And>r. mget (missionDeployments s) k = Some r \<Longrightarrow> md_completed (mdHeap s r)"
  shows "wf_session (installMission s k st)"
proof -
  have "disjointKinds (installMission s k st)"
    using assms(1,8,9) by (simp add: disjointKinds_def wf_session_def installMission_def
        gomap_simps map_of_eq_None_iff)
  moreover have "retainedLive md_completed ((mdHeap s)(mdNext s := st)) (Suc (mdNext s))
      (mput k (mdNext s) (missionDeployments s))"
    by (rule retainedLive_insert) (use assms in \<open>auto simp: wf_session_def\<close>)
  moreover have "missionCommandsOk (installMission s k st)"
    using assms by (intro missionCommandsOk_install) (auto simp: wf_session_def)
  ultimately show ?thesis
    using assms by (simp add: wf_session_def installMission_def tableOk_insert
        mdLife.closedOnce_fresh pendingOk_def)
qed

lemma wf_installReservation:
  assumes "wf_session s" "dm_CommandId c \<noteq> []"
    "mget (operationCommands s) (dm_CommandId c) = None"
    "mget (aircraftCommands s) (dm_CommandId c) = None"
    "mget (missionDeployments s) (dm_CommandId c) = Some r" "md_completed (mdHeap s r)"
  shows "wf_session (installMission s (dm_CommandId c) (missionReservation s0 c fp a))"
  using assms mget_None_iff [of "missionDeployments s" "dm_CommandId c"]
  by (intro wf_installMission) (auto simp: missionStateOk_def missionReservation_def zeroMd_def)

text \<open>A reservation whose admission no longer accepts waiters has not completed yet.\<close>

lemma wf_reserved_live:
  assumes "wf_session s" "md_reserved (mdHeap s r)"
    "\<not> (md_completed (mdHeap s r) \<and> retryableMissionDeployment (mdHeap s r) \<and> md_admissionFailed (mdHeap s r))"
  shows "\<not> md_completed (mdHeap s r)"
proof -
  have "missionStateOk (mdHeap s r)" using assms(1) by (simp add: wf_session_def)
  with assms(2,3) show ?thesis by (auto simp: missionStateOk_def retryableMissionDeployment_def)
qed

lemma missionStep_admit:
  "md_admission st = Some a \<Longrightarrow> \<not> md_completed st \<Longrightarrow>
     missionStep st (st\<lparr>md_admission := Some a', md_waiters := w\<rparr>)"
  by (simp add: missionStep_def missionStateOk_def)

lemma wf_attachMission [inv_intros]:
  assumes "wf_session s" "dm_CommandId c \<noteq> []"
  shows "wf_session (snd (attachMissionDeployment s c fp w1 w2 now))"
proof (cases "prepareCommandIDAdmissionLocked s (dm_CommandId c) retainedMissionDeployment now")
  case (Pair e s1)
  note wf1 = wf_prepareD [OF assms(1) Pair]
  show ?thesis
  proof (cases "fp = None \<or> e \<noteq> None \<or> mget (missionDeployments s1) (dm_CommandId c) = None")
    case True
    with wf1 assms(1) show ?thesis
      by (auto simp: attachMissionDeployment_def Pair split: option.split)
  next
    case False
    then obtain f r where f: "fp = Some f" and e: "e = None"
      and r: "mget (missionDeployments s1) (dm_CommandId c) = Some r" by auto
    note free = prepare_free(1,2) [OF Pair [unfolded e]]
    have live: "md_reserved (mdHeap s1 r) \<Longrightarrow>
        \<not> (md_completed (mdHeap s1 r) \<and> retryableMissionDeployment (mdHeap s1 r) \<and>
           (md_admissionFailed (mdHeap s1 r) \<or> md_deliveryStream (mdHeap s1 r) = currentBinding s1)) \<Longrightarrow>
        \<not> md_completed (mdHeap s1 r)"
      using wf_reserved_live [OF wf1] by blast
    have redo: "md_completed (mdHeap s1 r) \<Longrightarrow> wf_session
        (installMission s1 (dm_CommandId c) (missionReservation s1 c f a))" for a
      using wf1 assms(2) free r by (intro wf_installReservation) auto
    have again: "\<not> md_completed (mdHeap s1 r) \<Longrightarrow> wf_session (installMission
        (s1\<lparr>mdHeap := (mdHeap s1)(r := endReservation er now (mdHeap s1 r))\<rparr>) (dm_CommandId c)
        (missionReservation s2 c f a))" for er s2 a
      using wf1 assms(2) free r
      by (intro wf_installReservation [where r = r] wf_mdHeap_upd missionStep_endReservation)
        (auto simp: endReservation_def mdFinish_def)
    show ?thesis
      using wf1 live redo again
      by (auto simp: attachMissionDeployment_def Pair f e r Let_def split: option.split
          intro!: wf_mdHeap_upd missionStep_admit)
  qed
qed

text \<open>What the worker of a reservation relies on: the state is its own, reserved under the ID of
  its command, and the context it observes is the one of its admission.\<close>

definition reservationOf ::
  "DroneSession \<Rightarrow> nat option \<Rightarrow> string \<Rightarrow> ctxErr option \<Rightarrow> bool" where
  "reservationOf s reservation k e1 \<longleftrightarrow>
     (case reservation of None \<Rightarrow> True
      | Some r \<Rightarrow> r < mdNext s \<and> md_reserved (mdHeap s r) \<and>
          (\<exists>c. md_command (mdHeap s r) = Some c \<and> dm_CommandId c = k) \<and>
          (\<forall>a. md_admission (mdHeap s r) = Some a \<and> adm_cancelled a \<longrightarrow> e1 \<noteq> None))"

text \<open>A reservation whose context is not done is live, hence retained under its ID.\<close>

lemma reservation_live:
  assumes "wf_session s" "reservationOf s (Some r) k None"
  shows "\<not> md_completed (mdHeap s r)" and "mget (missionDeployments s) k = Some r"
proof -
  have "missionStateOk (mdHeap s r)" using assms(1) by (simp add: wf_session_def)
  then show live: "\<not> md_completed (mdHeap s r)"
    using assms(2) by (auto simp: reservationOf_def missionStateOk_def)
  obtain k' where k': "(k', r) \<in> set (missionDeployments s)"
    using assms live by (auto simp: wf_session_def retainedLive_def reservationOf_def)
  moreover have "k' = k"
    using k' assms by (force simp: wf_session_def missionCommandsOk_def reservationOf_def)
  moreover have "mok (missionDeployments s)" using assms(1) by (simp add: wf_session_def tableOk_def)
  ultimately show "mget (missionDeployments s) k = Some r" by simp
qed

lemma mput_same: "mget m k = Some v \<Longrightarrow> mput k v m = m"
  by (induction m) auto

lemma wf_activateReservation:
  assumes "wf_session s" "reservationOf s (Some r) (dm_CommandId c) None"
  shows "wf_session (snd (activateMission s c fp (Some r)))"
proof -
  note live = reservation_live [OF assms]
  let ?st = "(mdHeap s r)\<lparr>md_command := Some c, md_deliveryStream := currentBinding s,
    md_cancelled := Some False, md_reserved := False, md_admissionFailed := False\<rparr>"
  have "missionStateOk (mdHeap s r)" "md_reserved (mdHeap s r)"
    using assms by (auto simp: wf_session_def reservationOf_def)
  then have ok: "missionStateOk ?st" by (auto simp: missionStateOk_def)
  have only: "k' = dm_CommandId c" if "(k', r) \<in> set (missionDeployments s)" for k'
    using that live(2) assms(1) tableOk_inj [of "mdNext s" "missionDeployments s" k' r "dm_CommandId c"]
    by (auto simp: wf_session_def tableOk_def)
  have "missionCommandsOk (s\<lparr>mdHeap := (mdHeap s)(r := ?st)\<rparr>)"
    using assms(1) only unfolding missionCommandsOk_def wf_session_def
    by (auto split: if_splits)
  moreover have "closedOnce md_completed md_closes ((mdHeap s)(r := ?st))"
    using assms(1) by (intro mdLife.closedOnce_same) (auto simp: wf_session_def)
  ultimately have "wf_session (s\<lparr>mdHeap := (mdHeap s)(r := ?st)\<rparr>)"
    using assms(1) ok by (simp add: wf_session_def disjointKinds_def pendingOk_def retainedLive_upd)
  then show ?thesis
    by (simp add: activateMission_def mput_same live(2))
qed

lemma wf_activateDirect:
  assumes "wf_session s" "dm_CommandId c \<noteq> []"
    "mget (operationCommands s) (dm_CommandId c) = None"
    "mget (aircraftCommands s) (dm_CommandId c) = None"
    "length (missionDeployments s) < maxOperationCommands \<or>
       dm_CommandId c \<in> mkeys (missionDeployments s)"
    "\<And>r. mget (missionDeployments s) (dm_CommandId c) = Some r \<Longrightarrow> md_completed (mdHeap s r)"
  shows "wf_session (snd (activateMission s c fp None))"
  using assms by (simp add: activateMission_def)
    (rule wf_installMission; simp add: missionStateOk_def zeroMd_def)

lemma wf_makeMissionRoom [inv_intros]:
  assumes "wf_session s" shows "wf_session (makeMissionDeploymentRoomLocked s)"
proof -
  have "disjointKinds (makeMissionDeploymentRoomLocked s)"
    by (rule disjointKinds_sub [of s])
      (use assms in \<open>simp_all add: wf_session_def makeMissionDeploymentRoomLocked_def mkeys_makeRoom\<close>)
  moreover have "missionCommandsOk (makeMissionDeploymentRoomLocked s)"
    using assms makeRoom_subset unfolding wf_session_def missionCommandsOk_def
      makeMissionDeploymentRoomLocked_def by fastforce
  ultimately show ?thesis
    using assms by (simp add: wf_session_def makeMissionDeploymentRoomLocked_def inv_intros
        pendingOk_def retainedLive_makeRoom)
qed

lemma reservationOf_room [simp]:
  "reservationOf (makeMissionDeploymentRoomLocked s) q k e = reservationOf s q k e"
  by (simp add: reservationOf_def makeMissionDeploymentRoomLocked_def split: option.split)

lemma wf_admitMission:
  assumes "wf_session s" "dm_CommandId c \<noteq> []" "reservationOf s q (dm_CommandId c) e1"
    "mget (operationCommands s) (dm_CommandId c) = None"
    "mget (aircraftCommands s) (dm_CommandId c) = None"
    "\<And>r. q = None \<Longrightarrow> mget (missionDeployments s) (dm_CommandId c) = Some r \<Longrightarrow>
        md_completed (mdHeap s r)"
  shows "wf_session (snd (admitMissionDelivery s c fp q e1 e2 now))"
proof -
  let ?replacing = "mget (missionDeployments s) (dm_CommandId c) \<noteq> None"
  define s2 where "s2 = (if \<not> ?replacing then makeMissionDeploymentRoomLocked s else s)"
  have wf2: "wf_session s2" using assms(1) by (simp add: s2_def wf_makeMissionRoom)
  have act: "wf_session (snd (activateMission s2 c fp q))"
    if e1: "e1 = None" and room: "?replacing \<or> length (missionDeployments s2) < maxOperationCommands"
  proof (cases q)
    case (Some r)
    with assms(3) e1 have "reservationOf s2 (Some r) (dm_CommandId c) None" by (simp add: s2_def)
    with wf2 show ?thesis unfolding Some by (rule wf_activateReservation)
  next
    case None
    have "\<exists>r. mget (missionDeployments s) (dm_CommandId c) = Some r \<Longrightarrow>
        dm_CommandId c \<in> mkeys (missionDeployments s)"
      using mget_None_iff [of "missionDeployments s" "dm_CommandId c"] by auto
    with wf2 assms(2,4,5,6) room show ?thesis
      unfolding None by (intro wf_activateDirect)
        (auto simp: s2_def makeMissionDeploymentRoomLocked_def mget_makeRoom_None split: if_splits)
  qed
  show ?thesis
    unfolding admitMissionDelivery_def Let_def s2_def [symmetric]
    using assms(1) wf2 act by (auto simp: not_le split: prod.split)
qed

lemma wf_beginMission [inv_intros]:
  assumes "wf_session s" "dm_CommandId c \<noteq> []" "reservationOf s q (dm_CommandId c) e1"
  shows "wf_session (snd (beginMissionDeployment s c fp q e1 e2 now))"
proof (cases "prepareCommandIDAdmissionLocked s (dm_CommandId c) retainedMissionDeployment now")
  case (Pair e s1)
  note wf1 = wf_prepareD [OF assms(1) Pair]
  have same: "mdHeap s1 = mdHeap s" "mdNext s1 = mdNext s"
    using Pair by (auto simp: prepare_defs Let_def)
  show ?thesis
  proof (cases "fp = None \<or> e \<noteq> None")
    case True
    with wf1 assms(1) show ?thesis by (auto simp: beginMissionDeployment_def Pair split: option.split)
  next
    case False
    then obtain f where f: "fp = Some f" and e: "e = None" by auto
    have q1: "reservationOf s1 q (dm_CommandId c) e1"
      using assms(3) by (simp add: reservationOf_def same split: option.splits)
    have admit: "wf_session (snd (admitMissionDelivery s1 c f q e1 e2 now))"
      if "\<And>r. q = None \<Longrightarrow> mget (missionDeployments s1) (dm_CommandId c) = Some r \<Longrightarrow>
        md_completed (mdHeap s1 r)"
      using wf1 assms(2) q1 prepare_free(1,2) [OF Pair [unfolded e]] that
      by (intro wf_admitMission) auto
    show ?thesis
      using wf1 admit by (auto simp: beginMissionDeployment_def Pair f e Let_def wf_mdHeap_upd
          split: option.split)
  qed
qed

end
