(* ===== verification/ContextCache.thy ===== *)
theory ContextCache
  imports Prelude "HOL-Library.Product_Lexorder"
begin

text \<open>
  The snapshot of an Agent's operation context and the process-local cache that hands it to the
  Agent's next session (\<open>internal/relay/relay.go\<close>): entries live five minutes, at most 1024
  Agents are retained, and an entry is consumed once.  The locale \<open>context_cache\<close> states what
  the session code relies on.
\<close>

record operationContextSnapshot =
  snap_aircraftID :: string
  snap_flightID :: string
  snap_intentID :: string
  snap_intentVersion :: "32 word"
  snap_unreconciled :: bool
  snap_emptyContextCommandID :: string

section \<open>The cache of disconnected contexts\<close>

definition disconnectedOperationContextTTL :: int where
  "disconnectedOperationContextTTL = 5 * minute"

definition maxDisconnectedOperationContextCount :: nat where
  "maxDisconnectedOperationContextCount = 1024"

record retainedOperationContext =
  ret_snapshot :: operationContextSnapshot
  ret_expiresAt :: gotime

text \<open>The eviction scan: earliest expiry, ties broken by the smaller Agent ID.\<close>

fun scanEvicted :: "retainedOperationContext gomap \<Rightarrow> string \<times> gotime \<Rightarrow> string \<times> gotime" where
  "scanEvicted [] acc = acc"
| "scanEvicted ((k, v) # m) (evicted, oldest) = scanEvicted m
     (if evicted = [] \<or> ret_expiresAt v < oldest \<or> (ret_expiresAt v = oldest \<and> k < evicted)
      then (k, ret_expiresAt v) else (evicted, oldest))"

definition retainDisconnectedOperationContextLocked ::
  "string \<Rightarrow> operationContextSnapshot \<Rightarrow> gotime \<Rightarrow> retainedOperationContext gomap \<Rightarrow>
    retainedOperationContext gomap" where
  "retainDisconnectedOperationContextLocked aid snapshot now m =
     (let m1 = filter (\<lambda>(k, v). now < ret_expiresAt v) m;
          m2 = (if mget m1 aid = None \<and> length m1 \<ge> maxDisconnectedOperationContextCount
                then mdel (fst (scanEvicted m1 ([], 0))) m1 else m1)
      in mput aid \<lparr>ret_snapshot = snapshot,
           ret_expiresAt = now + disconnectedOperationContextTTL\<rparr> m2)"

definition takeDisconnectedOperationContextLocked ::
  "string \<Rightarrow> gotime \<Rightarrow> retainedOperationContext gomap \<Rightarrow>
    operationContextSnapshot option \<times> retainedOperationContext gomap" where
  "takeDisconnectedOperationContextLocked aid now m =
     (case mget m aid of
        None \<Rightarrow> None
      | Some v \<Rightarrow> if now < ret_expiresAt v then Some (ret_snapshot v) else None,
      mdel aid m)"

section \<open>The contract of the cache\<close>

datatype 'a cacheOp = Retain string 'a gotime | Take string gotime

locale context_cache =
  fixes retain :: "string \<Rightarrow> 'a \<Rightarrow> gotime \<Rightarrow> 'c \<Rightarrow> 'c"
    and take :: "string \<Rightarrow> gotime \<Rightarrow> 'c \<Rightarrow> 'a option \<times> 'c"
    and ok :: "'c \<Rightarrow> bool"
    and ttl :: int
  assumes ok_retain: "ok c \<Longrightarrow> k \<noteq> [] \<Longrightarrow> ok (retain k a now c)"
    and ok_take: "ok c \<Longrightarrow> ok (snd (take k now c))"
    and take_retained: "ok c \<Longrightarrow>
      fst (take k later (retain k a now c)) = (if later - now < ttl then Some a else None)"
    and take_other: "ok c \<Longrightarrow> k' \<noteq> k \<Longrightarrow> fst (take k later (retain k' a now c)) = Some x \<Longrightarrow>
      fst (take k later c) = Some x"
    and take_again: "ok c \<Longrightarrow> fst (take k later (snd (take k now c))) = None"
    and take_kept: "ok c \<Longrightarrow> k' \<noteq> k \<Longrightarrow> fst (take k later (snd (take k' now c))) = fst (take k later c)"
begin

fun runOp :: "'a cacheOp \<Rightarrow> 'c \<Rightarrow> 'c" where
  "runOp (Retain k a now) c = retain k a now c"
| "runOp (Take k now) c = snd (take k now c)"

fun about :: "'a cacheOp \<Rightarrow> string" where
  "about (Retain k a now) = k"
| "about (Take k now) = k"

fun isRetain :: "'a cacheOp \<Rightarrow> bool" where
  "isRetain (Retain _ _ _) = True"
| "isRetain (Take _ _) = False"

lemma ok_run: "ok c \<Longrightarrow> \<forall>op \<in> set ops. about op \<noteq> [] \<Longrightarrow> ok (fold runOp ops c)"
proof (induction ops arbitrary: c)
  case (Cons op ops)
  then show ?case by (cases op) (simp_all add: ok_retain ok_take)
qed simp

text \<open>Whatever else happens in between, an Agent gets a context only if it was retained for it
  and not taken since.\<close>

lemma none_stays_none:
  assumes "ok c" "fst (take k later c) = None"
    "\<forall>op \<in> set ops. about op \<noteq> [] \<and> (isRetain op \<longrightarrow> about op \<noteq> k)"
  shows "fst (take k later (fold runOp ops c)) = None"
  using assms
proof (induction ops arbitrary: c)
  case (Cons op ops)
  show ?case
  proof (cases op)
    case (Retain k' a now)
    with Cons.prems have "fst (take k later (retain k' a now c)) = None"
      using take_other [of c k' k later a now] by (cases "fst (take k later (retain k' a now c))") auto
    with Retain Cons show ?thesis by (simp add: ok_retain)
  next
    case (Take k' now)
    then have "fst (take k later (snd (take k' now c))) = None"
      using Cons.prems take_again take_kept by (cases "k' = k") auto
    with Take Cons show ?thesis by (simp add: ok_take)
  qed
qed simp

lemma taken_once:
  assumes "ok c" "\<forall>op \<in> set ops. about op \<noteq> [] \<and> (isRetain op \<longrightarrow> about op \<noteq> k)"
  shows "fst (take k later (fold runOp ops (snd (take k now c)))) = None"
  using assms by (intro none_stays_none) (auto simp: ok_take take_again)

end

section \<open>The cache keeps its contract\<close>

definition cacheOk :: "retainedOperationContext gomap \<Rightarrow> bool" where
  "cacheOk m \<longleftrightarrow> mok m \<and> [] \<notin> mkeys m \<and> length m \<le> maxDisconnectedOperationContextCount"

text \<open>The scan finds the least entry by expiry and Agent ID.\<close>

lemma scanEvicted_least:
  assumes "[] \<notin> mkeys m"
  shows "let (k', old') = scanEvicted m (k, old) in
    (k' = k \<and> old' = old \<or> (\<exists>v. (k', v) \<in> set m \<and> ret_expiresAt v = old')) \<and>
    (k \<noteq> [] \<longrightarrow> k' \<noteq> [] \<and> (old', k') \<le> (old, k)) \<and>
    (\<forall>(q, v) \<in> set m. k' \<noteq> [] \<and> (old', k') \<le> (ret_expiresAt v, q))"
  using assms
proof (induction m arbitrary: k old)
  case (Cons p m)
  obtain q v where p: "p = (q, v)" by (cases p)
  from Cons.prems p have ne: "q \<noteq> []" "[] \<notin> mkeys m" by auto
  let ?k = "if k = [] \<or> ret_expiresAt v < old \<or> (ret_expiresAt v = old \<and> q < k) then q else k"
  let ?o = "if k = [] \<or> ret_expiresAt v < old \<or> (ret_expiresAt v = old \<and> q < k)
    then ret_expiresAt v else old"
  have eq: "scanEvicted (p # m) (k, old) = scanEvicted m (?k, ?o)" by (auto simp: p)
  have le: "(?o, ?k) \<le> (ret_expiresAt v, q)" "k \<noteq> [] \<longrightarrow> (?o, ?k) \<le> (old, k)" "?k \<noteq> []"
    using ne(1) by (auto simp: less_eq_prod_def)
  obtain k' old' where s: "scanEvicted m (?k, ?o) = (k', old')" by force
  have IH: "(k' = ?k \<and> old' = ?o \<or> (\<exists>v. (k', v) \<in> set m \<and> ret_expiresAt v = old')) \<and>
    (?k \<noteq> [] \<longrightarrow> k' \<noteq> [] \<and> (old', k') \<le> (?o, ?k)) \<and>
    (\<forall>(q, v) \<in> set m. k' \<noteq> [] \<and> (old', k') \<le> (ret_expiresAt v, q))"
    using Cons.IH [OF ne(2), of ?k ?o] unfolding s Let_def by simp
  have 1: "k' = k \<and> old' = old \<or> (\<exists>w. (k', w) \<in> set (p # m) \<and> ret_expiresAt w = old')"
    using IH unfolding p by (auto split: if_splits)
  have 2: "k' \<noteq> []" "(old', k') \<le> (?o, ?k)" using IH le(3) by blast+
  have 3: "k \<noteq> [] \<longrightarrow> (old', k') \<le> (old, k)" using 2(2) le(2) order_trans by blast
  have 4: "(old', k') \<le> (ret_expiresAt v, q)" using 2(2) le(1) by (rule order_trans)
  have 5: "\<forall>(q, v) \<in> set m. k' \<noteq> [] \<and> (old', k') \<le> (ret_expiresAt v, q)" using IH by blast
  have "\<forall>(q, v) \<in> set (p # m). k' \<noteq> [] \<and> (old', k') \<le> (ret_expiresAt v, q)"
    unfolding p set_simps ball_simps(7) prod.case using 2(1) 4 5 by blast
  then show ?case
    unfolding eq s Let_def prod.case using 1 2(1) 3 by blast
qed simp

lemma scanEvicted_first:
  assumes "[] \<notin> mkeys m" "m \<noteq> []"
  shows "\<exists>v. (fst (scanEvicted m ([], 0)), v) \<in> set m \<and>
    (\<forall>(q, w) \<in> set m. (ret_expiresAt v, fst (scanEvicted m ([], 0))) \<le> (ret_expiresAt w, q))"
proof -
  obtain k' old' where s: "scanEvicted m ([], 0) = (k', old')" by force
  obtain q w where "(q, w) \<in> set m" using assms(2) by (cases m) auto
  with scanEvicted_least [OF assms(1), of "[]" 0] have "k' \<noteq> []"
    unfolding s Let_def prod.case by blast
  with scanEvicted_least [OF assms(1), of "[]" 0] show ?thesis
    unfolding s Let_def prod.case fst_conv by blast
qed

lemma cacheOk_retain:
  assumes "cacheOk m" "k \<noteq> []"
  shows "cacheOk (retainDisconnectedOperationContextLocked k a now m)"
proof -
  define m1 where "m1 = filter (\<lambda>(k, v). now < ret_expiresAt v) m"
  define m2 where "m2 = (if mget m1 k = None \<and> length m1 \<ge> maxDisconnectedOperationContextCount
    then mdel (fst (scanEvicted m1 ([], 0))) m1 else m1)"
  have m1: "mok m1" "[] \<notin> mkeys m1" "length m1 \<le> maxDisconnectedOperationContextCount"
    using assms(1) order_trans [OF length_filter_le]
    by (auto simp: cacheOk_def m1_def simp del: length_filter_le)
  have m2: "mok m2" "[] \<notin> mkeys m2" using m1 by (auto simp: m2_def set_mdel image_iff)
  have "length m2 < maxDisconnectedOperationContextCount \<or> mget m2 k \<noteq> None"
  proof (cases "mget m1 k = None \<and> length m1 \<ge> maxDisconnectedOperationContextCount")
    case True
    then have "m1 \<noteq> []" by (auto simp: maxDisconnectedOperationContextCount_def)
    then have "fst (scanEvicted m1 ([], 0)) \<in> mkeys m1"
      using scanEvicted_first [OF m1(2)] by force
    from length_mdel_less [OF this] True m1(3) show ?thesis by (simp add: m2_def)
  qed (auto simp: m2_def)
  moreover have "length m2 \<le> maxDisconnectedOperationContextCount"
    using m1(3) length_delete_le [of _ m1] by (auto simp: m2_def intro: order_trans)
  moreover have "retainDisconnectedOperationContextLocked k a now m = mput k \<lparr>ret_snapshot = a,
      ret_expiresAt = now + disconnectedOperationContextTTL\<rparr> m2"
    by (simp only: retainDisconnectedOperationContextLocked_def Let_def m1_def m2_def)
  ultimately show ?thesis
    using m2 assms(2) by (auto simp: cacheOk_def length_mput mkeys_mput)
qed

lemma mget_retain_other:
  assumes "mok m" "k' \<noteq> k" "mget (retainDisconnectedOperationContextLocked k' a now m) k = Some v"
  shows "mget m k = Some v"
  using assms by (auto simp: retainDisconnectedOperationContextLocked_def Let_def gomap_simps
      set_mdel split: if_splits option.splits)

interpretation ctxCache: context_cache retainDisconnectedOperationContextLocked
  takeDisconnectedOperationContextLocked cacheOk disconnectedOperationContextTTL
proof (unfold_locales, goal_cases)
  case (1 c k a now)
  then show ?case by (rule cacheOk_retain)
next
  case (3 c k later a now)
  then show ?case
    by (simp add: takeDisconnectedOperationContextLocked_def gomap_simps
        retainDisconnectedOperationContextLocked_def Let_def)
next
  case (4 c k' k later a now x)
  then obtain v where v: "mget (retainDisconnectedOperationContextLocked k' a now c) k = Some v"
    "later < ret_expiresAt v" "ret_snapshot v = x"
    by (auto simp: takeDisconnectedOperationContextLocked_def split: option.splits if_splits)
  have "mget c k = Some v"
    by (rule mget_retain_other [OF _ 4(2) v(1)]) (use 4(1) in \<open>simp add: cacheOk_def\<close>)
  with v show ?case by (simp add: takeDisconnectedOperationContextLocked_def)
qed (auto simp: takeDisconnectedOperationContextLocked_def cacheOk_def gomap_simps
    intro: order_trans [OF length_delete_le])

end
