(* ===== verification/SessionLifecycle.thy ===== *)
theory SessionLifecycle
  imports MissionDeployment ContextCache
begin

text \<open>
  The end of a session and of a binding (\<open>internal/relay/gatewayserver.go\<close>): every command in
  flight is completed, and the operation context is snapshotted for a replacement session or for
  the bounded cache of disconnected Agents (\<open>internal/relay/relay.go\<close>).
\<close>

section \<open>Aborting the commands in flight\<close>

definition liveOperationIDs :: "DroneSession \<Rightarrow> string set" where
  "liveOperationIDs s =
     fst ` set (filter (\<lambda>(k, r). \<not> op_completed (opHeap s r)) (operationCommands s))"

text \<open>The three loops, with the error of each kind.  A deployment is completed by
  \<open>completeMissionDeploymentForLostSessionLocked\<close>.\<close>

definition abortCommands :: "string \<Rightarrow> string \<Rightarrow> string \<Rightarrow> gotime \<Rightarrow> DroneSession \<Rightarrow> DroneSession" where
  "abortCommands opReason acReason mdReason now s = s\<lparr>
     pending := pending s - liveOperationIDs s,
     opHeap := abortLoop op_completed (\<lambda>st. opFinish (op_ack st, Some (Status Aborted opReason)) now st)
       (operationCommands s) (opHeap s),
     acHeap := abortLoop ac_completed (\<lambda>st. (acFinish (ac_result st, Some (Status Aborted acReason)) now st)
       \<lparr>ac_cancelled := True\<rparr>) (aircraftCommands s) (acHeap s),
     mdHeap := abortLoop md_completed (completeMissionDeploymentForLostSessionLocked now mdReason)
       (missionDeployments s) (mdHeap s)\<rparr>"

definition abortPendingCommandsLocked :: "DroneSession \<Rightarrow> gotime \<Rightarrow> DroneSession" where
  "abortPendingCommandsLocked s now = abortCommands
     ''agent session retired while awaiting operation-context acknowledgement''
     ''agent session retired while awaiting aircraft command result''
     ''agent session retired while awaiting mission result'' now s"

definition abortPendingCommandsForStreamReplacement :: "DroneSession \<Rightarrow> gotime \<Rightarrow> DroneSession" where
  "abortPendingCommandsForStreamReplacement s now =
     (let contextOutcomeUncertain = (liveOperationIDs s \<noteq> {});
          s1 = abortCommands
            ''agent stream replaced while awaiting operation-context acknowledgement''
            ''agent stream replaced after aircraft command delivery; outcome is uncertain''
            ''agent stream replaced after mission delivery'' now s
      in if contextOutcomeUncertain then s1\<lparr>operationContextUnreconciled := True\<rparr> else s1)"

section \<open>The context snapshot\<close>

definition deliveredInFlight :: "DroneSession \<Rightarrow> bool" where
  "deliveredInFlight s \<longleftrightarrow>
     list_ex (\<lambda>(k, r). \<not> op_completed (opHeap s r) \<and> op_delivered (opHeap s r)) (operationCommands s)"

definition takeSnapshot :: "DroneSession \<Rightarrow> operationContextSnapshot" where
  "takeSnapshot s =
     (let unrec = operationContextUnreconciled s \<or> deliveredInFlight s;
          empty = emptyContextCommandID s;
          keep = (case mget (operationCommands s) empty of
                    None \<Rightarrow> False | Some r \<Rightarrow> \<not> op_completed (opHeap s r))
      in \<lparr>snap_aircraftID = AircraftID s, snap_flightID = FlightID s, snap_intentID = IntentID s,
          snap_intentVersion = IntentVer s, snap_unreconciled = unrec,
          snap_emptyContextCommandID = (if unrec \<and> empty \<noteq> [] \<and> \<not> keep then [] else empty)\<rparr>)"

definition snapshotContextAndAbortPending ::
  "DroneSession \<Rightarrow> gotime \<Rightarrow> operationContextSnapshot \<times> DroneSession" where
  "snapshotContextAndAbortPending s now = (takeSnapshot s, abortPendingCommandsLocked s now)"

definition restoreInto :: "operationContextSnapshot \<Rightarrow> DroneSession \<Rightarrow> DroneSession" where
  "restoreInto snapshot s = s\<lparr>AircraftID := snap_aircraftID snapshot,
     FlightID := snap_flightID snapshot, IntentID := snap_intentID snapshot,
     IntentVer := snap_intentVersion snapshot,
     operationContextUnreconciled := snap_unreconciled snapshot,
     emptyContextCommandID := snap_emptyContextCommandID snapshot\<rparr>"

section \<open>Aborting keeps the invariant and leaves nothing in flight\<close>

lemma liveOperationIDs_pending: "wf_session s \<Longrightarrow> liveOperationIDs s = pending s"
  by (auto simp: wf_session_def pendingOk_def liveOperationIDs_def tableOk_def liveIn_iff
      image_iff)

lemma abort_reaches:
  assumes "\<And>st. \<not> cmpl st \<Longrightarrow> cmpl (f st)" "retainedLive cmpl h n m"
    "r < n"
  shows "cmpl (abortLoop cmpl f m h r)"
proof -
  have "\<not> cmpl (h r) \<Longrightarrow> r \<in> snd ` set m" using assms(2,3) by (simp add: retainedLive_def)
  then show ?thesis
    by (cases "cmpl (h r)") (simp_all add: abortLoop_apply [of cmpl f, OF assms(1)] assms(1))
qed

lemma lost_completed [simp]:
  "md_completed (completeMissionDeploymentForLostSessionLocked now reason st)"
  by (simp add: completeMissionDeploymentForLostSessionLocked_def Let_def cancelDelivery_def
      mdFinish_def)

lemma lost_closes:
  "\<not> md_completed st \<Longrightarrow>
     md_closes (completeMissionDeploymentForLostSessionLocked now reason st) = Suc (md_closes st)"
  by (simp add: completeMissionDeploymentForLostSessionLocked_def Let_def cancelDelivery_def
      mdFinish_def)

lemma abortCommands_done:
  assumes "wf_session s"
  shows "r < opNext s \<Longrightarrow> op_completed (opHeap (abortCommands a b c now s) r)"
    and "r < acNext s \<Longrightarrow> ac_completed (acHeap (abortCommands a b c now s) r)"
    and "r < mdNext s \<Longrightarrow> md_completed (mdHeap (abortCommands a b c now s) r)"
proof -
  note live = assms [unfolded wf_session_def]
  show "r < opNext s \<Longrightarrow> op_completed (opHeap (abortCommands a b c now s) r)"
    by (simp add: abortCommands_def) (rule abort_reaches; simp add: opFinish_def live)
  show "r < acNext s \<Longrightarrow> ac_completed (acHeap (abortCommands a b c now s) r)"
    by (simp add: abortCommands_def) (rule abort_reaches; simp add: acFinish_def live)
  show "r < mdNext s \<Longrightarrow> md_completed (mdHeap (abortCommands a b c now s) r)"
    by (simp add: abortCommands_def) (rule abort_reaches; simp add: live)
qed

lemma abortCommands_same [simp]:
  "opNext (abortCommands a b c now s) = opNext s"
  "acNext (abortCommands a b c now s) = acNext s"
  "mdNext (abortCommands a b c now s) = mdNext s"
  "operationCommands (abortCommands a b c now s) = operationCommands s"
  "aircraftCommands (abortCommands a b c now s) = aircraftCommands s"
  "missionDeployments (abortCommands a b c now s) = missionDeployments s"
  by (simp_all add: abortCommands_def)

text \<open>What happens to one deployment: it is left alone or completed for the lost session.\<close>

lemma abort_mission_at:
  "mdHeap (abortCommands a b c now s) r =
     (if r \<in> snd ` set (missionDeployments s) \<and> \<not> md_completed (mdHeap s r)
      then completeMissionDeploymentForLostSessionLocked now c (mdHeap s r) else mdHeap s r)"
  by (simp add: abortCommands_def abortLoop_apply)

lemma abort_missionStep: "missionStep (mdHeap s r) (mdHeap (abortCommands a b c now s) r)"
  by (simp add: abort_mission_at)

lemma wf_abortCommands [inv_intros]:
  assumes "wf_session s" shows "wf_session (abortCommands a b c now s)" (is "wf_session ?s")
proof -
  note all_done = abortCommands_done [OF assms, of _ a b c now]
  have "closedOnce op_completed op_closes (opHeap ?s)" "closedOnce ac_completed ac_closes (acHeap ?s)"
    using assms by (simp_all add: abortCommands_def wf_session_def closedOnce_abortLoop opFinish_def
        acFinish_def)
  moreover have "closedOnce md_completed md_closes (mdHeap ?s)"
    using assms by (simp add: abortCommands_def wf_session_def closedOnce_abortLoop lost_closes)
  moreover have "retainedLive op_completed (opHeap ?s) (opNext ?s) (operationCommands ?s)"
    "retainedLive ac_completed (acHeap ?s) (acNext ?s) (aircraftCommands ?s)"
    "retainedLive md_completed (mdHeap ?s) (mdNext ?s) (missionDeployments ?s)"
    using all_done by (simp_all add: retainedLive_def)
  moreover have "missionStateOk (mdHeap ?s r)" for r
    using assms abort_missionStep [of s r a b c now] by (simp add: wf_session_def missionStep_def)
  moreover have "missionCommandsOk ?s"
    using assms abort_missionStep [of s _ a b c now]
    by (auto simp: wf_session_def missionCommandsOk_def missionStep_def)
  moreover have "pendingOk ?s"
  proof -
    have "pending ?s = {}" using liveOperationIDs_pending [OF assms] by (simp add: abortCommands_def)
    moreover have "\<not> liveIn op_completed (opHeap ?s) (operationCommands ?s) k" for k
      using assms all_done(1) by (auto simp: liveIn_def wf_session_def split: option.split
          dest: tableOk_bound)
    ultimately show ?thesis by (simp add: pendingOk_def)
  qed
  moreover have "disjointKinds ?s" using assms by (simp add: wf_session_def disjointKinds_def)
  ultimately show ?thesis
    using assms by (simp add: wf_session_def)
qed

lemma wf_abortPending [inv_intros]:
  "wf_session s \<Longrightarrow> wf_session (abortPendingCommandsLocked s now)"
  by (simp add: abortPendingCommandsLocked_def wf_abortCommands)

lemma wf_abortReplacement [inv_intros]:
  "wf_session s \<Longrightarrow> wf_session (abortPendingCommandsForStreamReplacement s now)"
  by (simp add: abortPendingCommandsForStreamReplacement_def Let_def wf_abortCommands)

lemma wf_restoreInto [simp]: "wf_session (restoreInto snap s) = wf_session s"
  by (simp add: restoreInto_def)

end
