(* ===== verification/Filters.thy ===== *)
theory Filters
  imports Prelude
begin

text \<open>
  Message filters of the output router (\<open>internal/outputs/filters.go\<close>).  Message names are
  ASCII, as the MAVLink dialects' names are: on other bytes the model leaves a character as it
  is, where Go consults the Unicode tables.
\<close>

definition wildcardMessage :: string where
  "wildcardMessage = ''*''"

record MessageFilter =
  Include :: "string list"
  Exclude :: "string list"

section \<open>Canonical message names\<close>

text \<open>The part after the last dot, the whole name when there is none.\<close>

definition afterLastDot :: "string \<Rightarrow> string" where
  "afterLastDot s = rev (takeWhile (\<lambda>c. c \<noteq> CHR ''.'') (rev s))"

definition goTypePrefix :: string where
  "goTypePrefix = ''message''"

definition stripTypePrefix :: "string \<Rightarrow> string" where
  "stripTypePrefix s =
     (if length s \<ge> length goTypePrefix \<and> toLower (take (length goTypePrefix) s) = goTypePrefix
      then drop (length goTypePrefix) s else s)"

definition replaceSeparators :: "string \<Rightarrow> string" where
  "replaceSeparators s = map (\<lambda>c. if c = CHR ''-'' \<or> c = CHR '' '' then CHR ''_'' else c) s"

text \<open>Whether an upper-case character after \<open>prev\<close> and before \<open>rest\<close> starts a word.\<close>

definition startsWord :: "char option \<Rightarrow> string \<Rightarrow> bool" where
  "startsWord prev rest \<longleftrightarrow>
     (case prev of None \<Rightarrow> False
      | Some p \<Rightarrow> p \<noteq> CHR ''_'' \<and> (isLowerASCII p \<or> isDigitASCII p \<or>
          (case rest of [] \<Rightarrow> False | n # _ \<Rightarrow> isLowerASCII n)))"

text \<open>The loop over the runes, with the builder as accumulator.\<close>

fun snakeRunes :: "char option \<Rightarrow> string \<Rightarrow> string \<Rightarrow> string" where
  "snakeRunes prev [] acc = acc"
| "snakeRunes prev (c # cs) acc = snakeRunes (Some c) cs
     (if c = CHR ''_'' then (if acc \<noteq> [] \<and> last acc \<noteq> CHR ''_'' then acc @ ''_'' else acc)
      else if isUpperASCII c
      then (if startsWord prev cs then acc @ ''_'' else acc) @ [toLowerChar c]
      else acc @ [toLowerChar c])"

definition trimUnderscores :: "string \<Rightarrow> string" where
  "trimUnderscores s =
     rev (dropWhile (\<lambda>c. c = CHR ''_'') (rev (dropWhile (\<lambda>c. c = CHR ''_'') s)))"

definition messageAlias :: "string \<Rightarrow> string" where
  "messageAlias s = (if s = ''system_status'' then ''sys_status''
     else if s = ''gpsraw_int'' then ''gps_raw_int'' else s)"

definition NormalizeMessageName :: "string \<Rightarrow> string" where
  "NormalizeMessageName messageName =
     (let name = trimSpace messageName in
      if name = [] then []
      else if name = wildcardMessage then wildcardMessage
      else messageAlias (trimUnderscores (snakeRunes None
        (replaceSeparators (stripTypePrefix (afterLastDot
          (dropWhile (\<lambda>c. c = CHR ''*'') name)))) [])))"

section \<open>Filters\<close>

definition hasIncludes :: "MessageFilter \<Rightarrow> bool" where
  "hasIncludes f = list_ex (\<lambda>m. NormalizeMessageName m \<noteq> []) (Include f)"

definition containsMessage :: "string list \<Rightarrow> string \<Rightarrow> bool" where
  "containsMessage messages messageName = list_ex (\<lambda>item.
     let normalized = NormalizeMessageName item in
     normalized \<noteq> [] \<and> (normalized = wildcardMessage \<or> normalized = messageName)) messages"

definition Allows :: "MessageFilter \<Rightarrow> string \<Rightarrow> bool" where
  "Allows f messageName =
     (if \<not> hasIncludes f then False
      else
        (let normalized = NormalizeMessageName messageName in
         if containsMessage (Exclude f) normalized then False
         else containsMessage (Include f) normalized))"

definition telemetryMessageFilter :: MessageFilter where
  "telemetryMessageFilter = \<lparr>Include = [''Heartbeat'', ''GlobalPositionInt'', ''BatteryStatus'',
     ''SysStatus'', ''VfrHud'', ''ExtendedSysState'', ''GpsRawInt'', ''SystemTime''], Exclude = []\<rparr>"

section \<open>Facts\<close>

text \<open>A filter entry matches a message name when their canonical names agree or the entry is the
  wildcard; the empty canonical name matches nothing.\<close>

definition entryMatches :: "string \<Rightarrow> string \<Rightarrow> bool" where
  "entryMatches item name \<longleftrightarrow> NormalizeMessageName item \<noteq> [] \<and>
     (NormalizeMessageName item = wildcardMessage \<or>
      NormalizeMessageName item = NormalizeMessageName name)"

lemma containsMessage_iff:
  "containsMessage ms (NormalizeMessageName n) \<longleftrightarrow> (\<exists>m \<in> set ms. entryMatches m n)"
  by (auto simp: containsMessage_def entryMatches_def list_ex_iff Let_def)

lemma Allows_iff:
  "Allows f n \<longleftrightarrow> (\<exists>m \<in> set (Include f). entryMatches m n) \<and>
     \<not> (\<exists>m \<in> set (Exclude f). entryMatches m n)"
  by (auto simp: Allows_def Let_def containsMessage_iff hasIncludes_def list_ex_iff entryMatches_def)

text \<open>Characters of a canonical name.\<close>

definition canonicalChar :: "char \<Rightarrow> bool" where
  "canonicalChar c \<longleftrightarrow> \<not> isUpperASCII c \<and> c \<noteq> CHR ''-'' \<and> c \<noteq> CHR '' '' \<and> c \<noteq> CHR ''.''"

lemma toLowerChar_not_upper [simp]: "\<not> isUpperASCII (toLowerChar c)"
  by (cases c) (auto simp: toLowerChar_def isUpperASCII_def less_eq_char_def)

lemma of_char_toLower:
  "(of_char (toLowerChar c) :: nat) = (if isUpperASCII c then of_char c + 32 else of_char c)"
  by (auto simp: toLowerChar_def isUpperASCII_def less_eq_char_def)

lemma canonicalChar_iff:
  "canonicalChar c \<longleftrightarrow> (of_char c :: nat) \<notin> {65..90} \<union> {45, 32, 46}"
proof -
  have "c = CHR ''-'' \<longleftrightarrow> (of_char c :: nat) = 45" "c = CHR '' '' \<longleftrightarrow> (of_char c :: nat) = 32"
    "c = CHR ''.'' \<longleftrightarrow> (of_char c :: nat) = 46"
    using of_char_eq_iff [of c "CHR ''-''", where 'a = nat] of_char_eq_iff [of c "CHR '' ''", where 'a = nat]
      of_char_eq_iff [of c "CHR ''.''", where 'a = nat] by simp_all
  then show ?thesis by (auto simp: canonicalChar_def isUpperASCII_def less_eq_char_def)
qed

lemma canonicalChar_toLower:
  assumes "c \<notin> {CHR ''-'', CHR '' '', CHR ''.''}"
  shows "canonicalChar (toLowerChar c)"
proof (cases "isUpperASCII c")
  case True
  then show ?thesis
    by (simp add: canonicalChar_iff of_char_toLower isUpperASCII_def less_eq_char_def)
next
  case False
  with assms show ?thesis by (simp add: toLowerChar_def canonicalChar_def)
qed

lemma canonicalChar_consts [simp]:
  "canonicalChar CHR ''_''" "canonicalChar CHR ''*''"
  "\<forall>c \<in> set ''sys_status''. canonicalChar c" "\<forall>c \<in> set ''gps_raw_int''. canonicalChar c"
  by (simp_all add: canonicalChar_iff)

lemma snakeRunes_chars:
  "set (snakeRunes prev cs acc) \<subseteq> set acc \<union> {CHR ''_''} \<union> toLowerChar ` set cs"
proof (induction prev cs acc rule: snakeRunes.induct)
  case (2 prev c cs acc)
  show ?case
    by (rule order_trans [OF eq_refl [OF arg_cong [OF snakeRunes.simps(2), of set]]])
      (rule order_trans [OF 2], auto)
qed auto

lemma set_trimUnderscores: "set (trimUnderscores s) \<subseteq> set s"
  by (auto simp: trimUnderscores_def dest!: set_dropWhileD)

lemma afterLastDot_no_dot: "CHR ''.'' \<notin> set (afterLastDot s)"
  by (auto simp: afterLastDot_def dest: set_takeWhileD)

lemma stripTypePrefix_set: "set (stripTypePrefix s) \<subseteq> set s"
  by (auto simp: stripTypePrefix_def dest: in_set_dropD)

lemma NormalizeMessageName_chars:
  assumes "c \<in> set (NormalizeMessageName n)"
  shows "canonicalChar c"
proof (cases "trimSpace n = [] \<or> trimSpace n = wildcardMessage")
  case True
  with assms have "c = CHR ''*''"
    by (auto simp: NormalizeMessageName_def wildcardMessage_def Let_def split: if_splits)
  then show ?thesis by simp
next
  case False
  define w where "w = replaceSeparators (stripTypePrefix (afterLastDot
    (dropWhile (\<lambda>c. c = CHR ''*'') (trimSpace n))))"
  have "CHR ''.'' \<notin> set (stripTypePrefix (afterLastDot (dropWhile (\<lambda>c. c = CHR ''*'') (trimSpace n))))"
    using afterLastDot_no_dot stripTypePrefix_set by blast
  then have w: "c' \<notin> {CHR ''-'', CHR '' '', CHR ''.''}" if "c' \<in> set w" for c'
    using that by (auto simp: w_def replaceSeparators_def split: if_splits)
  have "c \<in> set (messageAlias (trimUnderscores (snakeRunes None w [])))"
    using assms False by (simp add: NormalizeMessageName_def Let_def w_def)
  moreover have "messageAlias s = ''sys_status'' \<or> messageAlias s = ''gps_raw_int'' \<or> messageAlias s = s"
    for s by (simp add: messageAlias_def)
  ultimately consider "c \<in> set ''sys_status''" | "c \<in> set ''gps_raw_int''" |
      "c \<in> set (trimUnderscores (snakeRunes None w []))"
    by metis
  then show ?thesis
  proof cases
    case 1
    then show ?thesis using canonicalChar_consts(3) by blast
  next
    case 2
    then show ?thesis using canonicalChar_consts(4) by blast
  next
    case 3
    note subsetD [OF snakeRunes_chars subsetD [OF set_trimUnderscores 3]]
    then consider "c = CHR ''_''" | c' where "c' \<in> set w" "c = toLowerChar c'" by auto
    then show ?thesis using w canonicalChar_toLower by cases simp_all
  qed
qed

section \<open>Properties\<close>

text \<open>A filter lets a message through exactly when some include entry matches its name (by
  canonical name, or the wildcard) and no exclude entry does: exclusion wins, and a filter without
  a usable include entry lets nothing through.\<close>

theorem Allows_spec:
  "Allows f n \<longleftrightarrow> (\<exists>m \<in> set (Include f). entryMatches m n) \<and>
     \<not> (\<exists>m \<in> set (Exclude f). entryMatches m n)"
  by (rule Allows_iff)

end
