(* ===== verification/Router.thy ===== *)
theory Router
  imports Filters Session "HOL-Library.Multiset"
begin

text \<open>
  The telemetry envelope (\<open>pkg/telemetry/envelope.go\<close>), the router that fans it out
  (\<open>internal/outputs/router.go\<close>) and the Relay's reading of the routing errors
  (\<open>internal/relay/relay.go\<close>).  A consumer is its name and the outcome of its
  \<open>WriteEnvelope\<close>; \<open>Route\<close> runs the matching consumers concurrently, so the list of errors the
  source returns is some permutation of the list \<open>Route\<close> gives here.
\<close>

text \<open>A zero \<open>time.Time\<close> is \<open>None\<close>; \<open>TimestampDevice\<close> is kept as its bits.  The values of \<open>Fields\<close> are of
  any type in the source; the envelopes of the Relay hold the strings of a frame.\<close>

record 'v envelope =
  env_AgentID :: string
  env_OperatorID :: string
  env_AircraftID :: string
  env_RelayID :: string
  env_SessionID :: string
  env_FlightID :: string
  env_IntentID :: string
  env_IntentVersion :: "32 word"
  env_Source :: string
  env_TimestampRelay :: "gotime option"
  env_TimestampAgent :: "gotime option"
  env_TimestampDevice :: "64 word"
  env_Dialect :: string
  env_MsgID :: "32 word"
  env_MsgName :: string
  env_WALID :: string
  env_WALSequence :: "64 word"
  env_SystemID :: "8 word"
  env_ComponentID :: "8 word"
  env_Sequence :: "16 word"
  env_Fields :: "'v gomap"
  env_Raw :: string

type_synonym TelemetryEnvelope = "string envelope"

record consumer =
  consumerName :: string
  writeEnvelope :: "TelemetryEnvelope \<Rightarrow> goerror option"
  closeConsumer :: "goerror option"

record route =
  route_consumer :: consumer
  route_filter :: MessageFilter

record RouteError =
  Consumer :: string
  Err :: goerror

definition AddConsumer :: "consumer \<Rightarrow> MessageFilter \<Rightarrow> route list \<Rightarrow> route list" where
  "AddConsumer c f routes = routes @ [\<lparr>route_consumer = c, route_filter = f\<rparr>]"

definition HasConsumers :: "route list \<Rightarrow> bool" where
  "HasConsumers routes \<longleftrightarrow> routes \<noteq> []"

text \<open>What one route contributes.\<close>

definition routeOne :: "TelemetryEnvelope \<Rightarrow> route \<Rightarrow> RouteError list" where
  "routeOne envelope r =
     (if \<not> Allows (route_filter r) (env_MsgName envelope) then []
      else (case writeEnvelope (route_consumer r) envelope of
              None \<Rightarrow> []
            | Some err \<Rightarrow> [\<lparr>Consumer = consumerName (route_consumer r), Err = err\<rparr>]))"

definition Route :: "route list \<Rightarrow> TelemetryEnvelope \<Rightarrow> RouteError list" where
  "Route routes envelope = concat (map (routeOne envelope) routes)"

text \<open>\<open>Router.Close\<close>: every consumer is closed; the error of the last failing one is kept.\<close>

fun closeRoutes :: "route list \<Rightarrow> (string \<times> goerror) option \<Rightarrow> (string \<times> goerror) option" where
  "closeRoutes [] acc = acc"
| "closeRoutes (r # rs) acc = closeRoutes rs (case closeConsumer (route_consumer r) of
     Some err \<Rightarrow> Some (consumerName (route_consumer r), err) | None \<Rightarrow> acc)"

section \<open>The Relay's reading of the errors\<close>

definition ConsumerName :: string where
  "ConsumerName = ''telemetry''"

text \<open>The loop of \<open>handleTelemetryMessage\<close> over the errors in completion order.\<close>

fun telemetryError :: "RouteError list \<Rightarrow> goerror option \<Rightarrow> goerror option" where
  "telemetryError [] acc = acc"
| "telemetryError (e # es) acc =
     telemetryError es (if Consumer e = ConsumerName then Some (Err e) else acc)"

definition handleTelemetryMessage :: "RouteError list \<Rightarrow> goerror option" where
  "handleTelemetryMessage errs = telemetryError errs None"

section \<open>Facts\<close>

lemma telemetryError_eq:
  "telemetryError es acc = (case filter (\<lambda>e. Consumer e = ConsumerName) es of
     [] \<Rightarrow> acc | fs \<Rightarrow> Some (Err (last fs)))"
proof (induction es arbitrary: acc)
  case (Cons e es)
  then show ?case by (auto split: list.splits)
qed simp

lemma mset_eq_short: "mset xs = mset ys \<Longrightarrow> length ys \<le> 1 \<Longrightarrow> xs = ys"
  using mset_eq_length [of xs ys] by (cases xs; cases ys) auto

lemma length_routeOne: "length (routeOne envelope r) \<le> 1"
  by (simp add: routeOne_def split: option.split)

text \<open>The routes of the telemetry writer.\<close>

definition writerRoutes :: "route list \<Rightarrow> route list" where
  "writerRoutes routes = filter (\<lambda>r. consumerName (route_consumer r) = ConsumerName) routes"

lemma filter_Route:
  "filter (\<lambda>e. Consumer e = ConsumerName) (Route routes envelope) = Route (writerRoutes routes) envelope"
  by (induction routes) (auto simp: Route_def routeOne_def writerRoutes_def split: option.splits)

section \<open>Properties\<close>

text \<open>Whatever order the consumers finish in, with one normalized-telemetry writer among the
  outputs the error of an envelope is exactly the writer's own error: failures of the export sinks
  never turn into a refusal of the frame, and a message the writer's filter excludes is not
  refused.\<close>

theorem telemetry_error_is_writer_error:
  assumes "mset errs = mset (Route routes envelope)" "writerRoutes routes = [w]"
  shows "handleTelemetryMessage errs =
    (if Allows (route_filter w) (env_MsgName envelope)
     then writeEnvelope (route_consumer w) envelope else None)"
proof -
  have "mset (filter (\<lambda>e. Consumer e = ConsumerName) errs) =
      mset (filter (\<lambda>e. Consumer e = ConsumerName) (Route routes envelope))"
    using assms(1) by simp
  then have "mset (filter (\<lambda>e. Consumer e = ConsumerName) errs) = mset (Route [w] envelope)"
    by (simp only: filter_Route assms(2))
  then have "filter (\<lambda>e. Consumer e = ConsumerName) errs = routeOne envelope w"
    by (intro mset_eq_short) (simp_all add: Route_def length_routeOne [simplified] del: mset_filter)
  then show ?thesis
    by (simp add: handleTelemetryMessage_def telemetryError_eq routeOne_def split: option.split)
qed

definition exampleEnvelope :: TelemetryEnvelope where
  "exampleEnvelope = \<lparr>env_AgentID = ''a1'', env_OperatorID = [], env_AircraftID = [],
     env_RelayID = ''r1'', env_SessionID = ''s1'', env_FlightID = [], env_IntentID = [],
     env_IntentVersion = 0, env_Source = ''a1'', env_TimestampRelay = Some 2,
     env_TimestampAgent = Some 1, env_TimestampDevice = 0, env_Dialect = ''common'', env_MsgID = 0,
     env_MsgName = ''x'', env_WALID = ''w'', env_WALSequence = 7,
     env_SystemID = 0, env_ComponentID = 0, env_Sequence = 0, env_Fields = [], env_Raw = []\<rparr>"

text \<open>A failing file sink beside a writer that accepts: the errors hold the sink's failure only.\<close>

definition exampleRoutes :: "route list" where
  "exampleRoutes =
     [\<lparr>route_consumer = \<lparr>consumerName = ''file'', writeEnvelope = (\<lambda>e. Some (OtherError ''disk full'')),
         closeConsumer = None\<rparr>, route_filter = \<lparr>Include = [''*''], Exclude = []\<rparr>\<rparr>,
      \<lparr>route_consumer = \<lparr>consumerName = ConsumerName, writeEnvelope = (\<lambda>e. None),
         closeConsumer = None\<rparr>, route_filter = \<lparr>Include = [''*''], Exclude = []\<rparr>\<rparr>]"

lemma telemetry_error_is_writer_error_witness:
  "Route exampleRoutes exampleEnvelope \<noteq> [] \<and>
   handleTelemetryMessage (Route exampleRoutes exampleEnvelope) = None"
proof -
  let ?w = "exampleRoutes ! 1"
  have star: "NormalizeMessageName ''*'' = ''*''"
    by (simp add: NormalizeMessageName_def trimSpace_visible visible_def wildcardMessage_def)
  have "Allows (route_filter (exampleRoutes ! 0)) m" for m
    by (simp add: exampleRoutes_def Allows_def hasIncludes_def containsMessage_def star
        wildcardMessage_def Let_def)
  then have "Route exampleRoutes exampleEnvelope \<noteq> []"
    by (simp add: Route_def routeOne_def exampleRoutes_def)
  moreover have "handleTelemetryMessage (Route exampleRoutes exampleEnvelope) = None"
    by (subst telemetry_error_is_writer_error [of _ exampleRoutes exampleEnvelope ?w])
      (simp_all add: exampleRoutes_def writerRoutes_def ConsumerName_def)
  ultimately show ?thesis by blast
qed

end
