(* ===== verification/Reporter.thy ===== *)
theory Reporter
  imports Prelude
begin

text \<open>
  The Registry reporter (\<open>internal/registryreporter/reporter.go\<close>): which Agents this Relay
  reports alive, by generations.  An RPC is split at the call: the part before it takes the lock
  and returns what the part after it needs; the outcome of the call is the argument of the second
  part, so that other operations may run in between.  Cancelling a context is a flag of its owner.
\<close>

record agentGeneration =
  gen_cancelled :: bool
  gen_started :: bool

text \<open>\<open>workerDone\<close> is the end of \<open>workerCtx\<close>, \<open>hasConn\<close> whether the reporter owns a connection.\<close>

record reporter =
  started :: bool
  workerDone :: bool
  hasConn :: bool
  connOnce :: bool
  connErr :: "goerror option"
  activeAgents :: "nat gomap"
  registeredAgents :: "nat gomap"
  agentLastReported :: "gotime gomap"
  agentAdmissions :: "nat gomap"
  genHeap :: "nat \<Rightarrow> agentGeneration"
  genNext :: nat
  admDone :: "nat \<Rightarrow> bool" \<comment> \<open>\<open>agentAdmission.cancel\<close> was called\<close>
  admNext :: nat

section \<open>Configuration\<close>

record reporterConfig =
  rc_Address :: string
  rc_RelayID :: string
  rc_AdvertiseAddress :: string
  rc_RelayGRPCPort :: int
  rc_HeartbeatInterval :: int
  rc_RequestTimeout :: int

definition reporterDefaults :: "reporterConfig \<Rightarrow> reporterConfig" where
  "reporterDefaults c =
     (let c1 = (if rc_HeartbeatInterval c \<le> 0 then c\<lparr>rc_HeartbeatInterval := 10 * second\<rparr> else c)
      in if rc_RequestTimeout c1 \<le> 0 then c1\<lparr>rc_RequestTimeout := 5 * second\<rparr> else c1)"

definition validateReporterConfig :: "reporterConfig \<Rightarrow> goerror option" where
  "validateReporterConfig c =
     (if trimSpace (rc_Address c) = [] then Some (OtherError ''registry address is required'')
      else if trimSpace (rc_RelayID c) = [] then Some (OtherError ''registry relay ID is required'')
      else if trimSpace (rc_AdvertiseAddress c) = []
      then Some (OtherError ''registry relay advertise address is required'')
      else if rc_RelayGRPCPort c \<le> 0
      then Some (OtherError ''registry relay gRPC port must be positive'')
      else None)"

definition newReporter :: "bool \<Rightarrow> reporter" where
  "newReporter conn = \<lparr>started = False, workerDone = False, hasConn = conn, connOnce = False,
     connErr = None, activeAgents = [], registeredAgents = [],
     agentLastReported = [], agentAdmissions = [],
     genHeap = (\<lambda>_. \<lparr>gen_cancelled = False, gen_started = False\<rparr>), genNext = 0,
     admDone = (\<lambda>_. False), admNext = 0\<rparr>"

section \<open>Cancellation\<close>

definition cancelGen :: "nat option \<Rightarrow> reporter \<Rightarrow> reporter" where
  "cancelGen g r = (case g of None \<Rightarrow> r
     | Some i \<Rightarrow> r\<lparr>genHeap := (genHeap r)(i := (genHeap r i)\<lparr>gen_cancelled := True\<rparr>)\<rparr>)"

definition cancelAdm :: "nat option \<Rightarrow> reporter \<Rightarrow> reporter" where
  "cancelAdm a r = (case a of None \<Rightarrow> r | Some i \<Rightarrow> r\<lparr>admDone := (admDone r)(i := True)\<rparr>)"

text \<open>Make \<open>g\<close> the active generation of an Agent, or none, and cancel the one before.\<close>

definition replaceActive :: "string \<Rightarrow> nat \<Rightarrow> reporter \<Rightarrow> reporter" where
  "replaceActive aid g r = cancelGen (mget (activeAgents r) aid)
     (r\<lparr>activeAgents := mput aid g (activeAgents r), registeredAgents := mput aid g (registeredAgents r)\<rparr>)"

definition dropActive :: "string \<Rightarrow> reporter \<Rightarrow> reporter" where
  "dropActive aid r = cancelGen (mget (activeAgents r) aid)
     (r\<lparr>activeAgents := mdel aid (activeAgents r), registeredAgents := mdel aid (registeredAgents r)\<rparr>)"

section \<open>Registration of an Agent\<close>

text \<open>\<open>startAgentHeartbeat\<close>; the result says whether a heartbeat worker was started.\<close>

definition startAgentHeartbeat :: "reporter \<Rightarrow> string \<Rightarrow> nat \<Rightarrow> bool \<times> reporter" where
  "startAgentHeartbeat r aid g =
     (if \<not> started r \<or> gen_started (genHeap r g) \<or> mget (activeAgents r) aid \<noteq> Some g
      then (False, r)
      else (True, r\<lparr>genHeap := (genHeap r)(g := (genHeap r g)\<lparr>gen_started := True\<rparr>)\<rparr>))"

text \<open>Up to the RPC: a fresh generation and admission; an admission in flight for the same Agent is
  cancelled.\<close>

definition registerAgentBegin :: "reporter \<Rightarrow> string \<Rightarrow> (goerror + nat \<times> nat) \<times> reporter" where
  "registerAgentBegin r agent =
     (let aid = trimSpace agent in
      if aid = [] then (Inl (OtherError ''registry registration requires agent ID''), r)
      else
        (let g = genNext r; a = admNext r;
             r1 = r\<lparr>genHeap := (genHeap r)(g := \<lparr>gen_cancelled = False, gen_started = False\<rparr>),
               genNext := Suc g, admDone := (admDone r)(a := False), admNext := Suc a,
               agentAdmissions := mput aid a (agentAdmissions r)\<rparr>
         in (Inr (g, a), cancelAdm (mget (agentAdmissions r) aid) r1)))"

text \<open>After the RPC, with its error.\<close>

definition registerAgentEnd ::
  "reporter \<Rightarrow> string \<Rightarrow> nat \<Rightarrow> nat \<Rightarrow> goerror option \<Rightarrow> gotime \<Rightarrow> goerror option \<times> reporter" where
  "registerAgentEnd r agent g a err now =
     (let aid = trimSpace agent; r0 = cancelAdm (Some a) r in
      case err of
        Some e \<Rightarrow>
          (let r1 = (if mget (agentAdmissions r0) aid = Some a
                     then r0\<lparr>agentAdmissions := mdel aid (agentAdmissions r0)\<rparr> else r0)
           in (Some (OtherError (''register agent '' @ aid @ '' with registry: '' @ errText e)),
               cancelGen (Some g) r1))
      | None \<Rightarrow>
          if mget (agentAdmissions r0) aid \<noteq> Some a
          then (Some (OtherError ''agent registration was superseded''), cancelGen (Some g) r0)
          else
            (let r1 = replaceActive aid g (r0\<lparr>agentAdmissions := mdel aid (agentAdmissions r0),
                   agentLastReported := mput aid now (agentLastReported r0)\<rparr>)
             in (None, snd (startAgentHeartbeat r1 aid g))))"

definition StopAgent :: "reporter \<Rightarrow> string \<Rightarrow> reporter" where
  "StopAgent r agent =
     (let aid = trimSpace agent in
      dropActive aid (cancelAdm (mget (agentAdmissions r) aid)
        (r\<lparr>agentAdmissions := mdel aid (agentAdmissions r),
           agentLastReported := mdel aid (agentLastReported r)\<rparr>)))"

section \<open>Heartbeats\<close>

datatype reportCall = CallRegister | CallHeartbeat

text \<open>Up to the RPC: the generation reported for and the call, or nothing to do.  The elapsed time
  is that of the monotonic clock.\<close>

definition reportAgentBegin ::
  "reporter \<Rightarrow> reporterConfig \<Rightarrow> string \<Rightarrow> bool \<Rightarrow> nat option \<Rightarrow> gotime \<Rightarrow>
    (nat \<times> reportCall) option \<times> reporter" where
  "reportAgentBegin r c aid forceRegister expected now =
     (case mget (activeAgents r) aid of
        None \<Rightarrow> (None, r)
      | Some g \<Rightarrow>
          if expected \<noteq> None \<and> expected \<noteq> Some g then (None, r)
          else
            (let registered = (mget (registeredAgents r) aid = Some g);
                 recent = (case mget (agentLastReported r) aid of None \<Rightarrow> False
                   | Some t \<Rightarrow> now - t < rc_HeartbeatInterval c)
             in if \<not> forceRegister \<and> registered \<and> recent then (None, r)
                else (Some (g, if forceRegister \<or> \<not> registered then CallRegister else CallHeartbeat),
                      r\<lparr>agentLastReported := mput aid now (agentLastReported r)\<rparr>)))"

text \<open>The calls: a heartbeat that finds the Agent unknown registers it.\<close>

definition reportOutcome :: "reportCall \<Rightarrow> goerror option \<Rightarrow> goerror option \<Rightarrow> goerror option" where
  "reportOutcome call heartbeat register = (case call of
     CallRegister \<Rightarrow> register
   | CallHeartbeat \<Rightarrow> (case heartbeat of
       Some e \<Rightarrow> if statusCode e = NotFound then register else Some e
     | None \<Rightarrow> None))"

definition reportAgentEnd ::
  "reporter \<Rightarrow> string \<Rightarrow> nat \<Rightarrow> goerror option \<Rightarrow> goerror option \<times> reporter" where
  "reportAgentEnd r aid g err =
     (case err of
        Some e \<Rightarrow>
          (Some (OtherError (''report agent '' @ aid @ '' to registry: '' @ errText e)),
           if mget (activeAgents r) aid = Some g
           then r\<lparr>agentLastReported := mdel aid (agentLastReported r)\<rparr> else r)
      | None \<Rightarrow>
          (None, if mget (activeAgents r) aid = Some g
                 then r\<lparr>registeredAgents := mput aid g (registeredAgents r)\<rparr> else r))"

section \<open>The Relay's own liveness\<close>

text \<open>\<open>registerRelay\<close>: the request, with its port as an \<open>int32\<close>, and the call's error.  A port above
  \<open>2 ^ 31 - 1\<close> wraps around.\<close>

record relayInfo =
  ri_RelayId :: string
  ri_Address :: string
  ri_GrpcPort :: "32 word"

definition relayRequest :: "reporterConfig \<Rightarrow> relayInfo" where
  "relayRequest c = \<lparr>ri_RelayId = rc_RelayID c, ri_Address = rc_AdvertiseAddress c,
     ri_GrpcPort = word_of_int (rc_RelayGRPCPort c)\<rparr>"

definition registerRelay :: "reporterConfig \<Rightarrow> (relayInfo \<Rightarrow> 'r \<Rightarrow> goerror option \<times> 'r) \<Rightarrow> 'r \<Rightarrow>
    goerror option \<times> 'r" where
  "registerRelay c register registry =
     (case register (relayRequest c) registry of
        (Some e, r) \<Rightarrow> (Some (OtherError (''register relay '' @ rc_RelayID c @ '': '' @ errText e)), r)
      | (None, r) \<Rightarrow> (None, r))"

text \<open>A tick of the Relay's heartbeat loop: a Registry that does not know the Relay is told again.  The
  Registry is a parameter, with its state; the error is only logged.\<close>

definition relayTick :: "reporterConfig \<Rightarrow> (string \<Rightarrow> 'r \<Rightarrow> goerror option \<times> 'r) \<Rightarrow>
    (relayInfo \<Rightarrow> 'r \<Rightarrow> goerror option \<times> 'r) \<Rightarrow> 'r \<Rightarrow> goerror option \<times> 'r" where
  "relayTick c heartbeat register registry =
     (case heartbeat (rc_RelayID c) registry of
        (Some e, r) \<Rightarrow> if statusCode e = NotFound then registerRelay c register r else (Some e, r)
      | (None, r) \<Rightarrow> (None, r))"

lemma relayTick_known:
  assumes "\<And>i r r'. register i r = (None, r') \<Longrightarrow> knows r' (ri_RelayId i)"
    and "\<And>k r r'. heartbeat k r = (None, r') \<Longrightarrow> knows r' k"
    and "relayTick c heartbeat register r = (None, r')"
  shows "knows r' (rc_RelayID c)"
  using assms(3) assms(1) [of "relayRequest c"] assms(2) [of "rc_RelayID c"]
  by (auto simp: relayTick_def registerRelay_def relayRequest_def split: prod.splits option.splits if_splits)

section \<open>The reporter's lifecycle\<close>

text \<open>\<open>Start\<close> under its own lock, up to the loop of \<open>start\<close> over the Agents active at that point:
  \<open>relayErr\<close> is the outcome of \<open>registerRelay\<close>, \<open>doneAfter\<close> the worker context after it.\<close>

definition startReporter :: "reporter \<Rightarrow> goerror option \<Rightarrow> bool \<Rightarrow>
    (goerror option \<times> nat gomap option) \<times> reporter" where
  "startReporter r relayErr doneAfter =
     (let closedErr = OtherError ''start closed registry reporter: context canceled'' in
      if started r then ((None, None), r)
      else if workerDone r then ((Some closedErr, None), r)
      else (case relayErr of
          Some e \<Rightarrow> ((Some e, None), r)
        | None \<Rightarrow>
            if doneAfter then ((Some closedErr, None), r)
            else ((None, Some (activeAgents r)), r\<lparr>started := True\<rparr>)))"

text \<open>\<open>Close\<close> cancels the worker context, from which every generation's context derives, once; and once
  the workers have ended, unless its own context ends first, it closes the connection, once.\<close>

definition closeReporter :: "reporter \<Rightarrow> reporter" where
  "closeReporter r = r\<lparr>workerDone := True\<rparr>"

definition closeWaited :: "ctxErr option \<Rightarrow> goerror option \<Rightarrow> reporter \<Rightarrow> goerror option \<times> reporter" where
  "closeWaited ended closeErr r =
     (case ended of
        Some e \<Rightarrow> (Some (OtherError (''stop registry reporter: '' @ errText (CtxError e))), r)
      | None \<Rightarrow>
          (let r1 = (if hasConn r \<and> \<not> connOnce r
               then r\<lparr>connOnce := True, connErr := map_option
                   (\<lambda>e. OtherError (''close registry connection: '' @ errText e)) closeErr\<rparr>
               else r)
           in (connErr r1, r1)))"

definition generationDone :: "reporter \<Rightarrow> nat \<Rightarrow> bool" where
  "generationDone r g \<longleftrightarrow> workerDone r \<or> gen_cancelled (genHeap r g)"

section \<open>The invariant\<close>

text \<open>An Agent registered is active with the same generation; the active generation of an Agent is
  its own, allocated and not cancelled; every other generation that was started is cancelled, so
  at most one heartbeat worker per Agent stays alive, and it belongs to the active generation.\<close>

definition reporterOk :: "reporter \<Rightarrow> bool" where
  "reporterOk r \<longleftrightarrow>
     (\<forall>k g. mget (registeredAgents r) k = Some g \<longrightarrow> mget (activeAgents r) k = Some g) \<and>
     (\<forall>k g. mget (activeAgents r) k = Some g \<longrightarrow> g < genNext r \<and> \<not> gen_cancelled (genHeap r g)) \<and>
     (\<forall>k k' g. mget (activeAgents r) k = Some g \<and> mget (activeAgents r) k' = Some g \<longrightarrow> k = k') \<and>
     (\<forall>g < genNext r. gen_started (genHeap r g) \<and> \<not> gen_cancelled (genHeap r g) \<longrightarrow>
        (\<exists>k. mget (activeAgents r) k = Some g))"

section \<open>Interleavings\<close>

text \<open>The reporter with its calls in flight and its goroutines: registrations (Agent, generation,
  admission), heartbeat reports (Agent, generation), the rest of \<open>start\<close>'s loop, the generations whose
  heartbeat worker runs and the Relay's heartbeat loops.  A heartbeat worker may run once more after
  its context is cancelled, because \<open>select\<close> chooses freely; it does one report at a time.\<close>

record repState =
  rep :: reporter
  registering :: "(string \<times> nat \<times> nat) list"
  reporting :: "(string \<times> nat) list"
  starting :: "nat gomap option"
  agentWorkers :: "nat list"
  relayWorkers :: nat

text \<open>The workers that a section has started.\<close>

definition newWorkers :: "reporter \<Rightarrow> reporter \<Rightarrow> nat list" where
  "newWorkers r r' =
     filter (\<lambda>g. gen_started (genHeap r' g) \<and> \<not> gen_started (genHeap r g)) [0..<genNext r']"

definition becomes :: "reporter \<Rightarrow> repState \<Rightarrow> repState" where
  "becomes r' s = s\<lparr>rep := r', agentWorkers := newWorkers (rep s) r' @ agentWorkers s\<rparr>"

inductive repStep :: "reporterConfig \<Rightarrow> repState \<Rightarrow> repState \<Rightarrow> bool" for c where
  RegisterCall: "registerAgentBegin (rep s) agent = (Inr (g, a), r) \<Longrightarrow>
    repStep c s (s\<lparr>rep := r, registering := (agent, g, a) # registering s\<rparr>)"
| RegisterReturn: "(agent, g, a) \<in> set (registering s) \<Longrightarrow>
    repStep c s (becomes (snd (registerAgentEnd (rep s) agent g a err now))
      (s\<lparr>registering := remove1 (agent, g, a) (registering s)\<rparr>))"
| Stop: "repStep c s (s\<lparr>rep := StopAgent (rep s) agent\<rparr>)"
| ReportCall: "g \<in> set (agentWorkers s) \<Longrightarrow> g \<notin> snd ` set (reporting s) \<Longrightarrow>
    reportAgentBegin (rep s) c aid False (Some g) now = (Some (g', call), r) \<Longrightarrow>
    repStep c s (s\<lparr>rep := r, reporting := (aid, g') # reporting s\<rparr>)"
| ReportReturn: "(aid, g) \<in> set (reporting s) \<Longrightarrow>
    repStep c s (s\<lparr>rep := snd (reportAgentEnd (rep s) aid g err),
      reporting := remove1 (aid, g) (reporting s)\<rparr>)"
| WorkerEnds: "g \<in> set (agentWorkers s) \<Longrightarrow> g \<notin> snd ` set (reporting s) \<Longrightarrow> generationDone (rep s) g \<Longrightarrow>
    repStep c s (s\<lparr>agentWorkers := remove1 g (agentWorkers s)\<rparr>)"
| Start: "starting s = None \<Longrightarrow>
    startReporter (rep s) relayErr (workerDone (rep s)) = ((err, agents), r) \<Longrightarrow>
    repStep c s (s\<lparr>rep := r, starting := agents\<rparr>)"
| StartNext: "starting s = Some ((aid, g) # agents) \<Longrightarrow>
    repStep c s (becomes (snd (startAgentHeartbeat (rep s) aid g)) (s\<lparr>starting := Some agents\<rparr>))"
| StartEnd: "starting s = Some [] \<Longrightarrow>
    repStep c s (s\<lparr>starting := None, relayWorkers := Suc (relayWorkers s)\<rparr>)"
| RelayWorkerEnds: "workerDone (rep s) \<Longrightarrow>
    repStep c s (s\<lparr>relayWorkers := relayWorkers s - 1\<rparr>)"
| Close: "starting s = None \<Longrightarrow> repStep c s (s\<lparr>rep := closeReporter (rep s)\<rparr>)"
| CloseWaits: "workerDone (rep s) \<Longrightarrow> ended = None \<longrightarrow> agentWorkers s = [] \<and> relayWorkers s = 0 \<Longrightarrow>
    repStep c s (s\<lparr>rep := snd (closeWaited ended closeErr (rep s))\<rparr>)"

definition idleReporter :: "bool \<Rightarrow> repState" where
  "idleReporter conn = \<lparr>rep = newReporter conn, registering = [], reporting = [], starting = None,
     agentWorkers = [], relayWorkers = 0\<rparr>"

inductive repReachable :: "reporterConfig \<Rightarrow> repState \<Rightarrow> bool" for c where
  Init: "repReachable c (idleReporter conn)"
| Step: "repReachable c s \<Longrightarrow> repStep c s s' \<Longrightarrow> repReachable c s'"

text \<open>A generation whose registration is in flight is its own: allocated, not started, not
  cancelled, not active, and of no other call.\<close>

definition freshGen :: "reporter \<Rightarrow> nat \<Rightarrow> bool" where
  "freshGen r g \<longleftrightarrow> g < genNext r \<and> \<not> gen_started (genHeap r g) \<and> \<not> gen_cancelled (genHeap r g) \<and>
     (\<forall>k. mget (activeAgents r) k \<noteq> Some g)"



lemma cancelAdm_frame [simp]:
  "reporterOk (cancelAdm a r) = reporterOk r" "freshGen (cancelAdm a r) g = freshGen r g"
  "activeAgents (cancelAdm a r) = activeAgents r" "genHeap (cancelAdm a r) = genHeap r"
  "genNext (cancelAdm a r) = genNext r" "registeredAgents (cancelAdm a r) = registeredAgents r"
  "agentAdmissions (cancelAdm a r) = agentAdmissions r" "started (cancelAdm a r) = started r"
  by (simp_all add: cancelAdm_def reporterOk_def freshGen_def split: option.split)

lemma ok_admissions [simp]:
  "reporterOk (r\<lparr>agentAdmissions := m\<rparr>) = reporterOk r"
  "freshGen (r\<lparr>agentAdmissions := m\<rparr>) g = freshGen r g"
  "reporterOk (r\<lparr>agentLastReported := l\<rparr>) = reporterOk r"
  "freshGen (r\<lparr>agentLastReported := l\<rparr>) g = freshGen r g"
  "reporterOk (r\<lparr>workerDone := b\<rparr>) = reporterOk r" "freshGen (r\<lparr>workerDone := b\<rparr>) g = freshGen r g"
  "reporterOk (r\<lparr>started := b\<rparr>) = reporterOk r" "freshGen (r\<lparr>started := b\<rparr>) g = freshGen r g"
  by (simp_all add: reporterOk_def freshGen_def)








lemma cancelGen_frame [simp]:
  "activeAgents (cancelGen g r) = activeAgents r" "registeredAgents (cancelGen g r) = registeredAgents r"
  "genNext (cancelGen g r) = genNext r"
  by (simp_all add: cancelGen_def split: option.split)
















lemma ok_close [simp]:
  "reporterOk (closeReporter r) = reporterOk r" "freshGen (closeReporter r) g = freshGen r g"
  "reporterOk (snd (closeWaited e ce r)) = reporterOk r" "freshGen (snd (closeWaited e ce r)) g = freshGen r g"
  by (auto simp: closeReporter_def closeWaited_def reporterOk_def freshGen_def Let_def split: option.split)

section \<open>The workers\<close>

text \<open>What every operation on Agents leaves of the reporter's life.\<close>

definition repFrame :: "reporter \<Rightarrow> reporter \<Rightarrow> bool" where
  "repFrame r r' \<longleftrightarrow> genNext r \<le> genNext r' \<and>
     (\<forall>g < genNext r. gen_started (genHeap r g) \<longrightarrow> gen_started (genHeap r' g)) \<and>
     started r' = started r \<and> workerDone r' = workerDone r \<and> connOnce r' = connOnce r"


lemma frame_cancel [simp]:
  "repFrame r (cancelGen g r') = repFrame r r'" "repFrame r (cancelAdm a r') = repFrame r r'"
  "repFrame (cancelAdm a r) r' = repFrame r r'"
  by (auto simp: repFrame_def cancelGen_def cancelAdm_def split: option.splits)

lemma frame_maps [simp]:
  "repFrame r (r'\<lparr>agentAdmissions := m\<rparr>) = repFrame r r'" "repFrame r (r'\<lparr>agentLastReported := l\<rparr>) = repFrame r r'"
  "repFrame r (r'\<lparr>activeAgents := v\<rparr>) = repFrame r r'" "repFrame r (r'\<lparr>registeredAgents := v\<rparr>) = repFrame r r'"
  "repFrame r r"
  by (simp_all add: repFrame_def)


lemma frame_active [simp]:
  "repFrame r (replaceActive aid g r') = repFrame r r'" "repFrame r (dropActive aid r') = repFrame r r'"
  by (simp_all add: replaceActive_def dropActive_def)





lemma becomes_frame [simp]:
  "rep (becomes r s) = r" "registering (becomes r s) = registering s" "reporting (becomes r s) = reporting s"
  by (simp_all add: becomes_def)







section \<open>The interface the Relay uses\<close>

text \<open>A call of \<open>RegisterAgent\<close> during which nothing else touches the reporter.\<close>

definition RegisterAgent ::
  "reporter \<Rightarrow> string \<Rightarrow> goerror option \<Rightarrow> gotime \<Rightarrow> goerror option \<times> reporter" where
  "RegisterAgent r agent err now =
     (case registerAgentBegin r agent of
        (Inl e, r1) \<Rightarrow> (Some e, r1)
      | (Inr (g, a), r1) \<Rightarrow> registerAgentEnd r1 agent g a err now)"

definition agentLive :: "reporter \<Rightarrow> string \<Rightarrow> bool" where
  "agentLive r aid \<longleftrightarrow> mget (activeAgents r) aid \<noteq> None"

datatype registryOp = RegisterOp string "goerror option" gotime | StopOp string

text \<open>What a registry promises the Relay: a successful registration makes exactly this Agent live, a
  failed one changes no Agent's liveness, stopping ends it.\<close>

locale agent_registry =
  fixes register :: "'r \<Rightarrow> string \<Rightarrow> goerror option \<Rightarrow> gotime \<Rightarrow> goerror option \<times> 'r"
    and stop :: "'r \<Rightarrow> string \<Rightarrow> 'r"
    and live :: "'r \<Rightarrow> string \<Rightarrow> bool"
    and key :: "string \<Rightarrow> string"
  assumes register_live: "live (snd (register r agent err now)) k =
      (if fst (register r agent err now) = None then k = key agent \<or> live r k else live r k)"
    and stop_live: "live (stop r agent) k = (k \<noteq> key agent \<and> live r k)"
    and register_err: "err \<noteq> None \<Longrightarrow> fst (register r agent err now) \<noteq> None"
    and register_same: "fst (register r agent err now) = None \<longleftrightarrow> fst (register r' agent err now) = None"
begin

fun runReg :: "registryOp \<Rightarrow> 'r \<Rightarrow> 'r" where
  "runReg (RegisterOp agent err now) r = snd (register r agent err now)"
| "runReg (StopOp agent) r = stop r agent"

text \<open>Whether an operation makes an Agent live, ends its liveness, or leaves it.\<close>

fun effectOn :: "'r \<Rightarrow> string \<Rightarrow> registryOp \<Rightarrow> bool option" where
  "effectOn r k (RegisterOp agent err now) =
     (if key agent = k \<and> fst (register r agent err now) = None then Some True else None)"
| "effectOn r k (StopOp agent) = (if key agent = k then Some False else None)"

lemma effectOn_state: "effectOn r k op = effectOn r' k op"
proof (cases op)
  case (RegisterOp agent err now)
  then show ?thesis using register_same [of r agent err now r'] by simp
qed simp

lemma run_live: "live (runReg op r) k = (case effectOn r k op of None \<Rightarrow> live r k | Some b \<Rightarrow> b)"
  by (cases op) (auto simp: register_live stop_live)

lemma last_effect_wins:
  "live (fold runReg ops r) k =
     (case filter (\<lambda>op. effectOn r k op \<noteq> None) ops of [] \<Rightarrow> live r k
      | es \<Rightarrow> effectOn r k (last es) = Some True)"
proof (induction ops arbitrary: r)
  case (Cons op ops)
  have "effectOn (runReg op r) k = effectOn r k" using effectOn_state by blast
  with Cons show ?case
    by (auto simp: run_live split: list.splits option.splits)
qed simp

end

lemma RegisterAgent_result:
  "fst (RegisterAgent r agent err now) = None \<longleftrightarrow> trimSpace agent \<noteq> [] \<and> err = None"
  by (auto simp: RegisterAgent_def registerAgentBegin_def Let_def registerAgentEnd_def
      gomap_simps split: option.splits)

lemma activeAgents_startHeartbeat [simp]:
  "activeAgents (snd (startAgentHeartbeat r aid g)) = activeAgents r"
  by (simp add: startAgentHeartbeat_def)

lemma RegisterAgent_active:
  "agentLive (snd (RegisterAgent r agent err now)) k =
     (if trimSpace agent \<noteq> [] \<and> err = None then k = trimSpace agent \<or> agentLive r k else agentLive r k)"
  by (auto simp: RegisterAgent_def registerAgentBegin_def Let_def registerAgentEnd_def agentLive_def
      gomap_simps replaceActive_def split: option.splits)

interpretation agentRegistry: agent_registry RegisterAgent StopAgent agentLive trimSpace
proof (unfold_locales, goal_cases)
  case (1 r agent err now k)
  show ?case by (simp add: RegisterAgent_active RegisterAgent_result)
next
  case (2 r agent k)
  show ?case by (auto simp: StopAgent_def Let_def dropActive_def agentLive_def gomap_simps)
next
  case (3 err r agent now)
  then show ?case by (simp add: RegisterAgent_result)
next
  case (4 r agent err now r')
  show ?case by (simp add: RegisterAgent_result)
qed

fun regStep :: "registryOp \<Rightarrow> reporter \<Rightarrow> reporter" where
  "regStep (RegisterOp agent err now) r = snd (RegisterAgent r agent err now)"
| "regStep (StopOp agent) r = StopAgent r agent"

fun regEffect :: "string \<Rightarrow> registryOp \<Rightarrow> bool option" where
  "regEffect k (RegisterOp agent err now) =
     (if trimSpace agent = k \<and> k \<noteq> [] \<and> err = None then Some True else None)"
| "regEffect k (StopOp agent) = (if trimSpace agent = k then Some False else None)"

lemma regStep_run: "regStep = agentRegistry.runReg"
proof (intro ext)
  show "regStep op r = agentRegistry.runReg op r" for op r by (cases op) simp_all
qed

lemma regEffect_effectOn: "regEffect k op = agentRegistry.effectOn r k op"
  by (cases op) (auto simp: RegisterAgent_result)

section \<open>Properties\<close>



lemma trim_a1 [simp]: "trimSpace ''a1'' = ''a1''"
  by (simp add: trimSpace_visible visible_def)

lemmas example_reporter_defs = RegisterAgent_def registerAgentBegin_def registerAgentEnd_def Let_def
  startReporter_def newReporter_def idleReporter_def cancelAdm_def cancelGen_def replaceActive_def
  startAgentHeartbeat_def newWorkers_def becomes_def

text \<open>A reporter that was started and has registered Agent \<open>a1\<close>.\<close>

definition exampleStarted :: repState where
  "exampleStarted = (idleReporter True)\<lparr>rep := (newReporter True)\<lparr>started := True\<rparr>, relayWorkers := 1\<rparr>"

definition exampleRegistering :: repState where
  "exampleRegistering = exampleStarted\<lparr>rep := snd (registerAgentBegin (rep exampleStarted) ''a1''),
     registering := [(''a1'', 0, 0)]\<rparr>"


lemma exampleRegistering_reachable: "repReachable c exampleRegistering"
proof -
  let ?s0 = "idleReporter True"
  let ?s1 = "?s0\<lparr>rep := (newReporter True)\<lparr>started := True\<rparr>, starting := Some []\<rparr>"
  have "repStep c ?s0 ?s1"
    using repStep.Start [of ?s0 None None "Some []" "(newReporter True)\<lparr>started := True\<rparr>" c]
    by (simp add: idleReporter_def startReporter_def newReporter_def)
  from repReachable.Step [OF repReachable.Init this] have 1: "repReachable c ?s1" .
  have "repReachable c exampleStarted"
    using repReachable.Step [OF 1 repStep.StartEnd] by (simp add: exampleStarted_def idleReporter_def)
  moreover have "registerAgentBegin (rep exampleStarted) ''a1'' = (Inr (0, 0), rep exampleRegistering)"
    by (simp add: exampleRegistering_def exampleStarted_def registerAgentBegin_def newReporter_def Let_def)
  ultimately show ?thesis
    using repReachable.Step [OF _ repStep.RegisterCall [of exampleStarted "''a1''" 0 0 "rep exampleRegistering" c]]
    by (simp add: exampleRegistering_def exampleStarted_def idleReporter_def)
qed



text \<open>\<open>Close\<close> does not keep a registration out whose call has already succeeded: it may start its worker
  after \<open>Close\<close> has waited for the workers and closed the connection.  The worker's generation is
  done, so it ends without a report.\<close>

lemma worker_after_close:
  "\<exists>s. repReachable c s \<and> connOnce (rep s) \<and> agentWorkers s = [0] \<and> generationDone (rep s) 0"
proof -
  let ?s0 = exampleRegistering
  let ?s1 = "?s0\<lparr>rep := closeReporter (rep ?s0)\<rparr>"
  let ?s2 = "?s1\<lparr>relayWorkers := relayWorkers ?s1 - 1\<rparr>"
  let ?s3 = "?s2\<lparr>rep := snd (closeWaited None None (rep ?s2))\<rparr>"
  let ?s4 = "becomes (snd (registerAgentEnd (rep ?s3) ''a1'' 0 0 None 5))
    (?s3\<lparr>registering := remove1 (''a1'', 0, 0) (registering ?s3)\<rparr>)"
  have facts: "starting ?s0 = None" "relayWorkers ?s0 = 1" "agentWorkers ?s0 = []"
    by (simp_all add: exampleRegistering_def exampleStarted_def idleReporter_def)
  have "repReachable c ?s1"
    using repReachable.Step [OF exampleRegistering_reachable repStep.Close [OF facts(1)]] .
  then have "repReachable c ?s2"
    by (rule repReachable.Step) (rule repStep.RelayWorkerEnds, simp add: closeReporter_def)
  then have "repReachable c ?s3"
    by (rule repReachable.Step) (rule repStep.CloseWaits, simp_all add: facts closeReporter_def)
  then have "repReachable c ?s4"
    by (rule repReachable.Step) (rule repStep.RegisterReturn, simp add: exampleRegistering_def)
  moreover have "connOnce (rep ?s4) \<and> agentWorkers ?s4 = [0] \<and> generationDone (rep ?s4) 0"
    by (simp add: exampleRegistering_def exampleStarted_def closeReporter_def closeWaited_def
        generationDone_def example_reporter_defs gomap_simps)
  ultimately show ?thesis by blast
qed

text \<open>Over any sequence of completed registrations and stops, an Agent is live exactly when the last
  operation that concerned it was a successful registration; failed registrations and operations on
  other Agents never change it.\<close>

theorem registry_last_effect_wins:
  "agentLive (fold regStep ops r) k =
     (case filter (\<lambda>op. regEffect k op \<noteq> None) ops of [] \<Rightarrow> agentLive r k
      | es \<Rightarrow> regEffect k (last es) = Some True)"
  unfolding regStep_run regEffect_effectOn [of k _ r] by (rule agentRegistry.last_effect_wins)

end
