(* ===== verification/Auth.thy ===== *)
theory Auth
  imports Prelude
begin

text \<open>
  Authentication of Agents by bearer tokens (\<open>internal/relay/agentauth.go\<close>) and authorization of
  control-plane callers by verified client certificates (\<open>internal/relay/controlauth.go\<close>).
  A nil authenticator or authorizer is \<open>None\<close>.
\<close>

section \<open>Agent tokens\<close>

text \<open>Incoming gRPC metadata: lower-case keys with their values.\<close>

type_synonym metadata = "string list gomap"

definition metaGet :: "metadata \<Rightarrow> string \<Rightarrow> string list" where
  "metaGet m k = (case mget m k of None \<Rightarrow> [] | Some vs \<Rightarrow> vs)"

definition bearerPrefix :: string where
  "bearerPrefix = ''Bearer ''"

fun checkTokens :: "string gomap \<Rightarrow> goerror option" where
  "checkTokens [] = None"
| "checkTokens ((aid, token) # m) =
     (if aid = [] \<or> aid \<noteq> trimSpace aid
      then Some (OtherError ''agent authentication contains an empty or untrimmed agent ID'')
      else if token = [] \<or> token \<noteq> trimSpace token
      then Some (OtherError (''agent authentication token for '' @ aid @
             '' is empty or has surrounding whitespace''))
      else checkTokens m)"

text \<open>The credentials the returned authenticator closes over.\<close>

definition newAgentTokenAuthenticator :: "string gomap \<Rightarrow> goerror + string gomap option" where
  "newAgentTokenAuthenticator tokens =
     (if tokens = [] then Inr None
      else case checkTokens tokens of Some e \<Rightarrow> Inl e | None \<Rightarrow> Inr (Some tokens))"

definition credentialsRequired :: goerror where
  "credentialsRequired = Status Unauthenticated ''agent credentials are required''"

definition agentTokenCheck :: "string gomap \<Rightarrow> metadata option \<Rightarrow> string \<Rightarrow> goerror option" where
  "agentTokenCheck credentials meta aid =
     (case meta of
        None \<Rightarrow> Some credentialsRequired
      | Some md \<Rightarrow>
        (case metaGet md ''authorization'' of
           [value] \<Rightarrow>
             (if \<not> hasPrefix value bearerPrefix then Some credentialsRequired
              else (case mget credentials aid of
                      None \<Rightarrow> Some (Status Unauthenticated ''invalid agent credentials'')
                    | Some want \<Rightarrow>
                        if trimPrefix value bearerPrefix \<noteq> want
                        then Some (Status Unauthenticated ''invalid agent credentials'') else None))
         | _ \<Rightarrow> Some credentialsRequired))"

definition authenticateAgent ::
  "string gomap option \<Rightarrow> bool \<Rightarrow> metadata option \<Rightarrow> string \<Rightarrow> goerror option" where
  "authenticateAgent authenticator registryConfigured meta aid =
     (case authenticator of
        None \<Rightarrow> if registryConfigured
                then Some (Status Internal ''agent authentication is not configured'') else None
      | Some credentials \<Rightarrow> agentTokenCheck credentials meta aid)"

section \<open>Control-plane certificates\<close>

record controlAuthConfig =
  ca_Enabled :: bool
  ca_ClientCAFile :: string
  ca_AllowedIdentities :: "string list"

record certificate =
  cert_CommonName :: string
  cert_DNSNames :: "string list"
  cert_URIs :: "string list"

text \<open>What \<open>peer.FromContext\<close> and the TLS state give: whether the transport is TLS, the number of
  verified chains and the peer certificates (an entry may be nil).\<close>

record peerInfo =
  peer_TLS :: bool
  peer_VerifiedChains :: nat
  peer_Certificates :: "certificate option list"

definition newControlPlaneAuthorizer :: "controlAuthConfig \<Rightarrow> goerror + string list option" where
  "newControlPlaneAuthorizer cfg =
     (if \<not> ca_Enabled cfg then Inr None
      else if ca_ClientCAFile cfg = []
      then Inl (OtherError ''control-plane client CA file is required'')
      else if ca_AllowedIdentities cfg = []
      then Inl (OtherError ''at least one control-plane identity is required'')
      else if [] \<in> set (ca_AllowedIdentities cfg)
      then Inl (OtherError ''control-plane identity cannot be empty'')
      else Inr (Some (ca_AllowedIdentities cfg)))"

definition certificateIdentities :: "certificate \<Rightarrow> string list" where
  "certificateIdentities c = cert_CommonName c # cert_DNSNames c @ cert_URIs c"

definition certificateIdentityAllowed :: "certificate option \<Rightarrow> string list \<Rightarrow> bool" where
  "certificateIdentityAllowed cert allowed =
     (case cert of None \<Rightarrow> False
      | Some c \<Rightarrow> list_ex (\<lambda>i. i \<in> set allowed) (certificateIdentities c))"

definition certificateRequired :: goerror where
  "certificateRequired =
     Status Unauthenticated ''verified control-plane client certificate is required''"

definition controlPlaneCheck :: "string list \<Rightarrow> peerInfo option \<Rightarrow> goerror option" where
  "controlPlaneCheck allowed remote =
     (case remote of
        None \<Rightarrow> Some certificateRequired
      | Some p \<Rightarrow>
          if \<not> peer_TLS p \<or> peer_VerifiedChains p = 0 \<or> peer_Certificates p = []
          then Some certificateRequired
          else if certificateIdentityAllowed (hd (peer_Certificates p)) allowed then None
          else Some (Status PermissionDenied ''control-plane client identity is not authorized''))"

definition authorizeControlMutation :: "string list option \<Rightarrow> peerInfo option \<Rightarrow> goerror option" where
  "authorizeControlMutation authorizer remote =
     (case authorizer of
        None \<Rightarrow> Some (Status Unimplemented
          ''operation-context control is disabled until mTLS control authentication is configured'')
      | Some allowed \<Rightarrow> controlPlaneCheck allowed remote)"

section \<open>Facts\<close>

lemma checkTokens_None:
  "checkTokens m = None \<longleftrightarrow> (\<forall>(aid, token) \<in> set m. aid \<noteq> [] \<and> aid = trimSpace aid \<and>
     token \<noteq> [] \<and> token = trimSpace token)"
  by (induction m rule: checkTokens.induct) auto

lemma hasPrefix_append: "hasPrefix s p \<longleftrightarrow> (\<exists>t. s = p @ t)"
  by (auto simp: hasPrefix_def) (metis append_take_drop_id)

lemma trimPrefix_append [simp]: "trimPrefix (p @ t) p = t"
  by (simp add: trimPrefix_def hasPrefix_def)

section \<open>Properties\<close>

text \<open>C38: An Agent whose tokens were accepted at start-up is authenticated exactly when the call
  carries one authorization value that is the bearer prefix followed by the very token configured for
  that Agent; such a token is never empty, so neither an unknown Agent, nor another Agent's token, nor
  an empty credential gets in.\<close>

theorem agent_authenticated_iff:
  assumes "newAgentTokenAuthenticator tokens = Inr (Some credentials)" "mok tokens"
  shows "authenticateAgent (Some credentials) registry (Some md) aid = None \<longleftrightarrow>
    (\<exists>token. token \<noteq> [] \<and> (aid, token) \<in> set tokens \<and>
       metaGet md ''authorization'' = [''Bearer '' @ token])"
proof -
  have creds: "credentials = tokens" "checkTokens tokens = None"
    using assms(1) by (auto simp: newAgentTokenAuthenticator_def split: if_splits option.splits)
  have tok: "(aid, token) \<in> set tokens \<longleftrightarrow> mget credentials aid = Some token" for token
    using assms(2) creds(1) by simp
  have ne: "mget credentials aid = Some token \<Longrightarrow> token \<noteq> []" for token
    using creds tok by (auto simp: checkTokens_None)
  show ?thesis
    unfolding bearerPrefix_def [symmetric]
    using ne by (auto simp: authenticateAgent_def agentTokenCheck_def tok hasPrefix_append
        credentialsRequired_def split: list.splits option.splits if_splits)
qed

definition exampleTokens :: "string gomap" where
  "exampleTokens = [(''a1'', ''secret'')]"

lemma agent_authenticated_iff_witness:
  "authenticateAgent (Some exampleTokens) True
     (Some [(''authorization'', [''Bearer secret''])]) ''a1'' = None \<longleftrightarrow>
   (\<exists>token. token \<noteq> [] \<and> (''a1'', token) \<in> set exampleTokens \<and>
      metaGet [(''authorization'', [''Bearer secret''])] ''authorization'' = [''Bearer '' @ token])"
  by (rule agent_authenticated_iff)
    (simp_all add: exampleTokens_def newAgentTokenAuthenticator_def trimSpace_visible visible_def)

text \<open>C39: With control mutations enabled, a caller passes exactly when its transport verified a
  client certificate chain and the leaf certificate carries an allowed identity; no configuration
  that passes start-up allows the empty identity, and with the authorizer absent every mutation is
  refused.\<close>

theorem control_authorized_iff:
  "(authorizeControlMutation None remote = Some (Status Unimplemented
      ''operation-context control is disabled until mTLS control authentication is configured'')) \<and>
   (newControlPlaneAuthorizer cfg = Inr (Some allowed) \<longrightarrow> [] \<notin> set allowed \<and>
     (authorizeControlMutation (Some allowed) (Some p) = None \<longleftrightarrow>
      peer_TLS p \<and> peer_VerifiedChains p > 0 \<and>
      (\<exists>leaf rest i. peer_Certificates p = Some leaf # rest \<and>
         i \<in> set (cert_CommonName leaf # cert_DNSNames leaf @ cert_URIs leaf) \<and>
         i \<in> set (ca_AllowedIdentities cfg))))"
  by (cases "peer_Certificates p")
    (auto simp: authorizeControlMutation_def newControlPlaneAuthorizer_def controlPlaneCheck_def
      certificateIdentityAllowed_def certificateIdentities_def list_ex_iff
      split: if_splits option.splits)

lemma control_authorized_iff_witness:
  "authorizeControlMutation (Some [''api''])
     (Some \<lparr>peer_TLS = True, peer_VerifiedChains = 1, peer_Certificates =
        [Some \<lparr>cert_CommonName = ''x'', cert_DNSNames = [''api''], cert_URIs = []\<rparr>]\<rparr>) = None"
  using control_authorized_iff [of None
      "\<lparr>ca_Enabled = True, ca_ClientCAFile = ''ca'', ca_AllowedIdentities = [''api'']\<rparr>" "[''api'']"
      "\<lparr>peer_TLS = True, peer_VerifiedChains = 1, peer_Certificates =
        [Some \<lparr>cert_CommonName = ''x'', cert_DNSNames = [''api''], cert_URIs = []\<rparr>]\<rparr>"]
  by (simp add: newControlPlaneAuthorizer_def)

end
