(* ===== verification/Relay.thy ===== *)
theory Relay
  imports SessionLifecycle Router Reporter Auth
begin

text \<open>
  The Relay's shared state (\<open>internal/relay/relay.go\<close>), Agent registration and stream bindings
  (\<open>gatewayserver.go\<close>, \<open>streams.go\<close>).  Sessions live in a heap; \<open>grpcSessions\<close> maps an Agent ID
  to the session that owns it.  Each definition is one critical section of the source; the
  conditions under which the source may enter it (the write lock on \<open>ownershipMu\<close> or
  \<open>controlStreamMu\<close> needs that no reader holds it) are stated with the steps of the system.
\<close>

record agentMapping =
  map_OperatorID :: string
  map_AircraftID :: string

record Relay =
  grpcSessions :: "nat gomap"
  sessHeap :: "nat \<Rightarrow> DroneSession"
  sessNext :: nat
  disconnectedOperationContexts :: "retainedOperationContext gomap"
  registryReporter :: "reporter option"
  agentAuthenticator :: "string gomap option"
  controlAuthorizer :: "string list option"
  AgentMappings :: "agentMapping gomap"
  RelayID :: string
  router :: "route list"

definition updSession :: "nat \<Rightarrow> (DroneSession \<Rightarrow> DroneSession) \<Rightarrow> Relay \<Rightarrow> Relay" where
  "updSession p f r = r\<lparr>sessHeap := (sessHeap r)(p := f (sessHeap r p))\<rparr>"

definition sessionIsCurrent :: "Relay \<Rightarrow> string \<Rightarrow> nat \<Rightarrow> bool" where
  "sessionIsCurrent r aid p \<longleftrightarrow> mget (grpcSessions r) aid = Some p"

section \<open>Registration\<close>

text \<open>The session \<open>Register\<close> builds.\<close>

definition newDroneSession :: "string \<Rightarrow> string \<Rightarrow> gotime \<Rightarrow> bool \<Rightarrow> DroneSession" where
  "newDroneSession aid sessionID now controlled =
     \<lparr>stream = None, pendingStream = None, streamGeneration = 0, agentID = aid,
      SessionID = sessionID, ConnectedAt = now, LastHeartbeat = now, AircraftID = [], FlightID = [],
      IntentID = [], IntentVer = 0, operationContextUnreconciled = controlled,
      emptyContextCommandID = [], pending = {}, operationCommands = [], operationGate = True,
      aircraftCommands = [], missionDeployments = [], retired = False, bindings = (\<lambda>_. zeroBinding),
      bindingNext = 0, opHeap = (\<lambda>_. zeroOp), opNext = 0, acHeap = (\<lambda>_. zeroAc), acNext = 0,
      mdHeap = (\<lambda>_. zeroMd), mdNext = 0\<rparr>"

text \<open>\<open>newSessionID\<close>, from what reading sixteen random bytes gives.\<close>

definition newSessionID :: "string + string \<Rightarrow> string + string" where
  "newSessionID random = (case random of Inl e \<Rightarrow> Inl e | Inr bytes \<Rightarrow> Inr (''sess-'' @ hexEncode bytes))"

text \<open>The checks before the loop.\<close>

definition registerPrelude ::
  "Relay \<Rightarrow> string \<Rightarrow> metadata option \<Rightarrow> string + string \<Rightarrow> goerror + string \<times> string" where
  "registerPrelude r requested meta random =
     (let aid = trimSpace requested in
      if aid = [] then Inl (Status InvalidArgument ''agent ID is required'')
      else case authenticateAgent (agentAuthenticator r) (registryReporter r \<noteq> None) meta aid of
        Some e \<Rightarrow> Inl e
      | None \<Rightarrow> (case newSessionID random of
          Inl e \<Rightarrow> Inl (Status Internal (''generate session ID: '' @ e))
        | Inr sid \<Rightarrow> Inr (aid, sid)))"

datatype registerOutcome = RegisterAgain | RegisterFailed goerror | Registered nat

text \<open>Retiring the session that owns an Agent: mark it, snapshot and abort, stop its liveness.\<close>

definition stopLiveness :: "string \<Rightarrow> Relay \<Rightarrow> Relay" where
  "stopLiveness aid r = r\<lparr>registryReporter := map_option (\<lambda>rep. StopAgent rep aid) (registryReporter r)\<rparr>"

definition retireSession :: "nat \<Rightarrow> gotime \<Rightarrow> Relay \<Rightarrow> operationContextSnapshot \<times> Relay" where
  "retireSession p now r =
     (case snapshotContextAndAbortPending ((sessHeap r p)\<lparr>retired := True\<rparr>) now of
        (snap, s) \<Rightarrow> (snap, updSession p (\<lambda>_. s) r))"

definition publishSession :: "string \<Rightarrow> DroneSession \<Rightarrow> Relay \<Rightarrow> Relay" where
  "publishSession aid s r = r\<lparr>sessHeap := (sessHeap r)(sessNext r := s), sessNext := Suc (sessNext r),
     grpcSessions := mput aid (sessNext r) (grpcSessions r)\<rparr>"

text \<open>One iteration of the loop, under the write locks; \<open>previous\<close> was read before taking them,
  \<open>e1\<close> and \<open>e2\<close> are the observations of the request's context.\<close>

definition registerIteration ::
  "Relay \<Rightarrow> string \<Rightarrow> string \<Rightarrow> nat option \<Rightarrow> ctxErr option \<Rightarrow> ctxErr option \<Rightarrow> gotime \<Rightarrow>
    registerOutcome \<times> Relay" where
  "registerIteration r aid sid previous e1 e2 now =
     (if e1 \<noteq> None then (RegisterFailed (waiterError e1), r)
      else if mget (grpcSessions r) aid \<noteq> previous then (RegisterAgain, r)
      else if e2 \<noteq> None then (RegisterFailed (waiterError e2), r)
      else
        (let fresh = newDroneSession aid sid now (controlAuthorizer r \<noteq> None) in
         case previous of
           Some p \<Rightarrow>
             (case retireSession p now r of
                (snap, r1) \<Rightarrow>
                  (Registered (sessNext r1), publishSession aid
                    (if agentAuthenticator r \<noteq> None then restoreInto snap fresh else fresh)
                    (stopLiveness aid r1)))
         | None \<Rightarrow>
             (case (if agentAuthenticator r \<noteq> None
                    then takeDisconnectedOperationContextLocked aid now (disconnectedOperationContexts r)
                    else (None, disconnectedOperationContexts r)) of
                (snap, cache) \<Rightarrow>
                  (Registered (sessNext r), publishSession aid
                    (case snap of None \<Rightarrow> fresh | Some c \<Rightarrow> restoreInto c fresh)
                    (r\<lparr>disconnectedOperationContexts := cache\<rparr>)))))"

definition maxInflight :: nat where
  "maxInflight = 100"

section \<open>Stream bindings\<close>

definition sessionNotFound :: goerror where
  "sessionNotFound = Sentinel ''session not found'' []"

text \<open>The first lookup of \<open>updateStream\<close>.\<close>

definition lookupStreamSession :: "Relay \<Rightarrow> string \<Rightarrow> string \<Rightarrow> nat option" where
  "lookupStreamSession r aid sid =
     (case mget (grpcSessions r) aid of
        None \<Rightarrow> None
      | Some p \<Rightarrow> if SessionID (sessHeap r p) = sid \<and> \<not> retired (sessHeap r p) then Some p else None)"

definition bindStream :: "bool \<Rightarrow> gotime \<Rightarrow> DroneSession \<Rightarrow> nat \<times> nat option \<times> DroneSession" where
  "bindStream immediate now s =
     (let b = bindingNext s; gen = streamGeneration s + 1;
          s1 = s\<lparr>streamGeneration := gen, bindingNext := Suc b,
            bindings := (bindings s)(b := zeroBinding\<lparr>generation := gen\<rparr>)\<rparr>;
          s2 = (if immediate then s1\<lparr>stream := Some b\<rparr> else s1\<lparr>pendingStream := Some b\<rparr>);
          s3 = (if immediate \<and> stream s \<noteq> None
                then abortPendingCommandsForStreamReplacement s2 now else s2)
      in (b, stream s, s3))"

definition updateStream ::
  "Relay \<Rightarrow> string \<Rightarrow> string \<Rightarrow> nat \<Rightarrow> gotime \<Rightarrow> (goerror + nat \<times> nat option) \<times> Relay" where
  "updateStream r aid sid p now =
     (if mget (grpcSessions r) aid \<noteq> Some p \<or> SessionID (sessHeap r p) \<noteq> sid \<or>
         retired (sessHeap r p)
      then (Inl sessionNotFound, r)
      else (case bindStream (registryReporter r = None) now (sessHeap r p) of
              (b, previous, s) \<Rightarrow> (Inr (b, previous), updSession p (\<lambda>_. s) r)))"

text \<open>\<open>registerActiveAgent\<close> up to the Registry call: the binding must be the pending candidate or
  the active one, and open.  The result is \<open>isActive\<close>.\<close>

definition publicationCheck :: "Relay \<Rightarrow> string \<Rightarrow> nat \<Rightarrow> nat \<Rightarrow> goerror + bool" where
  "publicationCheck r aid p b =
     (let s = sessHeap r p;
          isCandidate = (pendingStream s = Some b); isActive = (stream s = Some b) in
      if mget (grpcSessions r) aid \<noteq> Some p \<or> retired s then Inl sessionNotFound
      else if (\<not> isCandidate \<and> \<not> isActive) \<or> closed (bindings s b) then Inl sessionNotFound
      else Inr isActive)"

text \<open>The Registry call failed.\<close>

definition publicationFailed :: "nat \<Rightarrow> DroneSession \<Rightarrow> DroneSession" where
  "publicationFailed b s = (if pendingStream s = Some b then s\<lparr>pendingStream := None\<rparr> else s)"

text \<open>The Registry call succeeded: swap the binding under the control write lock.\<close>

definition publicationCommit :: "nat \<Rightarrow> bool \<Rightarrow> gotime \<Rightarrow> DroneSession \<Rightarrow> goerror option \<times> DroneSession" where
  "publicationCommit b isActive now s =
     (if isActive then (None, s)
      else if pendingStream s \<noteq> Some b \<or> closed (bindings s b) then (Some sessionNotFound, s)
      else
        (let s1 = s\<lparr>stream := Some b, pendingStream := None\<rparr> in
         (None, if stream s \<noteq> None \<and> stream s \<noteq> Some b
                then abortPendingCommandsForStreamReplacement s1 now else s1)))"

definition closeBinding :: "nat \<Rightarrow> DroneSession \<Rightarrow> DroneSession" where
  "closeBinding b s =
     (let s1 = s\<lparr>bindings := (bindings s)(b := (bindings s b)\<lparr>closed := True\<rparr>)\<rparr>
      in if pendingStream s1 = Some b then s1\<lparr>pendingStream := None\<rparr> else s1)"

definition ownsSession :: "nat \<Rightarrow> DroneSession \<Rightarrow> bool" where
  "ownsSession b s \<longleftrightarrow> stream s = Some b \<or> (stream s = None \<and> pendingStream s = None)"

definition deleteStream :: "Relay \<Rightarrow> string \<Rightarrow> nat \<Rightarrow> nat \<Rightarrow> gotime \<Rightarrow> Relay" where
  "deleteStream r aid p b now =
     (if mget (grpcSessions r) aid \<noteq> Some p then r
      else
        (let r1 = updSession p (closeBinding b) r in
         if \<not> ownsSession b (sessHeap r1 p) then r1
         else
           (case retireSession p now r1 of
              (snap, r2) \<Rightarrow>
                (let r3 = (if controlAuthorizer r2 \<noteq> None \<and> agentAuthenticator r2 \<noteq> None
                   then r2\<lparr>disconnectedOperationContexts := retainDisconnectedOperationContextLocked
                          aid snap now (disconnectedOperationContexts r2)\<rparr>
                   else r2)
                 in stopLiveness aid (r3\<lparr>grpcSessions := mdel aid (grpcSessions r3)\<rparr>)))))"

section \<open>The Relay after \<open>New\<close>\<close>

text \<open>The struct \<open>New\<close> builds, with the parts its configuration determines as arguments; the
  outputs are attached by \<open>initializeOutputs\<close>.\<close>

definition newRelayState ::
  "reporter option \<Rightarrow> string gomap option \<Rightarrow> string list option \<Rightarrow> agentMapping gomap \<Rightarrow> string \<Rightarrow>
    route list \<Rightarrow> Relay" where
  "newRelayState reporter authenticator authorizer mappings relayID routes =
     \<lparr>grpcSessions = [], sessHeap = (\<lambda>_. newDroneSession [] [] 0 False), sessNext = 0,
      disconnectedOperationContexts = [], registryReporter = reporter,
      agentAuthenticator = authenticator, controlAuthorizer = authorizer, AgentMappings = mappings,
      RelayID = relayID, router = routes\<rparr>"

section \<open>The Relay's invariant\<close>

definition allDone :: "DroneSession \<Rightarrow> bool" where
  "allDone s \<longleftrightarrow> (\<forall>i < opNext s. op_completed (opHeap s i)) \<and>
     (\<forall>i < acNext s. ac_completed (acHeap s i)) \<and> (\<forall>i < mdNext s. md_completed (mdHeap s i))"

text \<open>The bindings of a session that is not retired are allocated and open.\<close>

definition bindingsOk :: "DroneSession \<Rightarrow> bool" where
  "bindingsOk s \<longleftrightarrow> (\<forall>b. stream s = Some b \<or> pendingStream s = Some b \<longrightarrow>
     b < bindingNext s \<and> (\<not> retired s \<longrightarrow> \<not> closed (bindings s b)))"

text \<open>One session: in order, its bindings in order, and nothing in flight once retired.\<close>

definition sessionOk :: "DroneSession \<Rightarrow> bool" where
  "sessionOk s \<longleftrightarrow> wf_session s \<and> bindingsOk s \<and> (retired s \<longrightarrow> allDone s)"

text \<open>Exactly the mapped sessions are live: each owns one Agent ID, which is its own; every other
  session is retired.\<close>

definition ownershipOk :: "Relay \<Rightarrow> bool" where
  "ownershipOk r \<longleftrightarrow> mok (grpcSessions r) \<and> [] \<notin> mkeys (grpcSessions r) \<and>
     (\<forall>k p. mget (grpcSessions r) k = Some p \<longrightarrow>
        p < sessNext r \<and> agentID (sessHeap r p) = k \<and> \<not> retired (sessHeap r p)) \<and>
     (\<forall>p < sessNext r. retired (sessHeap r p) \<or>
        mget (grpcSessions r) (agentID (sessHeap r p)) = Some p)"

definition relayOk :: "Relay \<Rightarrow> bool" where
  "relayOk r \<longleftrightarrow> ownershipOk r \<and> (\<forall>p < sessNext r. sessionOk (sessHeap r p)) \<and>
     cacheOk (disconnectedOperationContexts r)"

lemma sessionOk_frame [simp]:
  "sessionOk (s\<lparr>AircraftID := a\<rparr>) = sessionOk s"
  "sessionOk (s\<lparr>FlightID := a\<rparr>) = sessionOk s"
  "sessionOk (s\<lparr>IntentID := a\<rparr>) = sessionOk s"
  "sessionOk (s\<lparr>IntentVer := v\<rparr>) = sessionOk s"
  "sessionOk (s\<lparr>operationContextUnreconciled := u\<rparr>) = sessionOk s"
  "sessionOk (s\<lparr>emptyContextCommandID := a\<rparr>) = sessionOk s"
  "sessionOk (s\<lparr>operationGate := u\<rparr>) = sessionOk s"
  "sessionOk (s\<lparr>LastHeartbeat := t\<rparr>) = sessionOk s"
  by (simp_all add: sessionOk_def bindingsOk_def allDone_def)

lemma wf_newSession [simp]: "wf_session (newDroneSession aid sid now c)"
  by (simp add: wf_session_def newDroneSession_def disjointKinds_def closedOnce_def pendingOk_def
      liveIn_def retainedLive_def missionCommandsOk_def missionStateOk_def zeroOp_def zeroAc_def zeroMd_def)

lemma sessionOk_new [simp]: "sessionOk (newDroneSession aid sid now c)"
  "agentID (newDroneSession aid sid now c) = aid" "retired (newDroneSession aid sid now c) = False"
  by (simp_all add: sessionOk_def bindingsOk_def, simp_all add: newDroneSession_def)

lemma restoreInto_same [simp]:
  "bindingsOk (restoreInto c s) = bindingsOk s" "allDone (restoreInto c s) = allDone s"
  "retired (restoreInto c s) = retired s" "agentID (restoreInto c s) = agentID s"
  "SessionID (restoreInto c s) = SessionID s"
  by (simp_all add: restoreInto_def bindingsOk_def allDone_def)

lemma sessionOk_restore [simp]: "sessionOk (restoreInto c s) = sessionOk s"
  by (simp add: sessionOk_def)

lemma abortCommands_frame [simp]:
  "stream (abortCommands a b c now s) = stream s"
  "pendingStream (abortCommands a b c now s) = pendingStream s"
  "bindings (abortCommands a b c now s) = bindings s"
  "bindingNext (abortCommands a b c now s) = bindingNext s"
  "retired (abortCommands a b c now s) = retired s" "agentID (abortCommands a b c now s) = agentID s"
  "SessionID (abortCommands a b c now s) = SessionID s"
  by (simp_all add: abortCommands_def)

lemma allDone_abort: "wf_session s \<Longrightarrow> allDone (abortCommands a b c now s)"
  using abortCommands_done [of s] by (simp add: allDone_def)

lemma sessionOk_retire:
  assumes "sessionOk s"
  shows "sessionOk (abortPendingCommandsLocked (s\<lparr>retired := True\<rparr>) now)"
    and "retired (abortPendingCommandsLocked (s\<lparr>retired := True\<rparr>) now)"
    and "agentID (abortPendingCommandsLocked (s\<lparr>retired := True\<rparr>) now) = agentID s"
  using assms by (auto simp: sessionOk_def abortPendingCommandsLocked_def bindingsOk_def
      wf_abortCommands allDone_abort)

lemma sessionOk_abort: "sessionOk s \<Longrightarrow> sessionOk (abortCommands a b c now s)"
  by (simp add: sessionOk_def bindingsOk_def wf_abortCommands allDone_abort)

lemma sessionOk_replacement:
  "sessionOk s \<Longrightarrow> sessionOk (abortPendingCommandsForStreamReplacement s now)"
  by (simp add: abortPendingCommandsForStreamReplacement_def Let_def sessionOk_abort)

lemma replacement_same [simp]:
  "agentID (abortPendingCommandsForStreamReplacement s now) = agentID s"
  "retired (abortPendingCommandsForStreamReplacement s now) = retired s"
  "SessionID (abortPendingCommandsForStreamReplacement s now) = SessionID s"
  by (simp_all add: abortPendingCommandsForStreamReplacement_def Let_def)

lemma retireSession_eq:
  "retireSession p now r = (takeSnapshot ((sessHeap r p)\<lparr>retired := True\<rparr>),
     updSession p (\<lambda>s. abortPendingCommandsLocked (s\<lparr>retired := True\<rparr>) now) r)"
  by (simp add: retireSession_def snapshotContextAndAbortPending_def updSession_def)

lemma updSession_frame [simp]:
  "grpcSessions (updSession p f r) = grpcSessions r" "sessNext (updSession p f r) = sessNext r"
  "disconnectedOperationContexts (updSession p f r) = disconnectedOperationContexts r"
  "registryReporter (updSession p f r) = registryReporter r"
  "controlAuthorizer (updSession p f r) = controlAuthorizer r"
  "agentAuthenticator (updSession p f r) = agentAuthenticator r"
  "sessHeap (updSession p f r) q = (if q = p then f (sessHeap r p) else sessHeap r q)"
  by (simp_all add: updSession_def)

lemma stopLiveness_frame [simp]:
  "ownershipOk (stopLiveness aid r) = ownershipOk r" "relayOk (stopLiveness aid r) = relayOk r"
  "grpcSessions (stopLiveness aid r) = grpcSessions r" "sessNext (stopLiveness aid r) = sessNext r"
  "sessHeap (stopLiveness aid r) = sessHeap r"
  "disconnectedOperationContexts (stopLiveness aid r) = disconnectedOperationContexts r"
  by (simp_all add: stopLiveness_def ownershipOk_def relayOk_def)

text \<open>An update of one session that keeps its owner and its life keeps the invariant.\<close>

lemma relayOk_upd:
  assumes "relayOk r" "\<And>s. sessionOk s \<Longrightarrow> sessionOk (f s)"
    "\<And>s. agentID (f s) = agentID s \<and> retired (f s) = retired s"
  shows "relayOk (updSession p f r)"
  using assms by (auto simp: relayOk_def ownershipOk_def)

lemma relayOkD:
  assumes "relayOk r"
  shows "mok (grpcSessions r)" "[] \<notin> mkeys (grpcSessions r)"
    "mget (grpcSessions r) k = Some p \<Longrightarrow>
      p < sessNext r \<and> agentID (sessHeap r p) = k \<and> \<not> retired (sessHeap r p)"
    "p < sessNext r \<Longrightarrow> retired (sessHeap r p) \<or> mget (grpcSessions r) (agentID (sessHeap r p)) = Some p"
    "p < sessNext r \<Longrightarrow> sessionOk (sessHeap r p)"
    "cacheOk (disconnectedOperationContexts r)"
  using assms unfolding relayOk_def ownershipOk_def by blast+

text \<open>No live session serves the Agent: what holds between retiring and publishing.\<close>

definition vacant :: "string \<Rightarrow> Relay \<Rightarrow> bool" where
  "vacant aid r \<longleftrightarrow> mok (grpcSessions r) \<and> [] \<notin> mkeys (grpcSessions r) \<and>
     (\<forall>k p. k \<noteq> aid \<and> mget (grpcSessions r) k = Some p \<longrightarrow>
        p < sessNext r \<and> agentID (sessHeap r p) = k \<and> \<not> retired (sessHeap r p)) \<and>
     (\<forall>p < sessNext r. retired (sessHeap r p) \<or> agentID (sessHeap r p) \<noteq> aid \<and>
        mget (grpcSessions r) (agentID (sessHeap r p)) = Some p) \<and>
     (\<forall>p < sessNext r. sessionOk (sessHeap r p)) \<and> cacheOk (disconnectedOperationContexts r)"

lemma vacant_frame [simp]:
  "vacant aid (stopLiveness k r) = vacant aid r"
  "cacheOk c \<Longrightarrow> vacant aid r \<Longrightarrow> vacant aid (r\<lparr>disconnectedOperationContexts := c\<rparr>)"
  by (auto simp: vacant_def stopLiveness_def)

lemma vacant_unmapped: "relayOk r \<Longrightarrow> mget (grpcSessions r) aid = None \<Longrightarrow> vacant aid r"
  using relayOkD [of r] unfolding vacant_def by (metis option.discI)

lemma vacant_retire:
  assumes ok: "relayOk r" and p: "mget (grpcSessions r) aid = Some p"
    and s: "sessionOk s" "retired s" "agentID s = aid"
  shows "vacant aid (updSession p (\<lambda>_. s) r)"
proof -
  note D = relayOkD [OF ok]
  let ?r = "updSession p (\<lambda>_. s) r"
  have mapped: "q \<noteq> p" if "k \<noteq> aid" "mget (grpcSessions r) k = Some q" for k q
    using D(3) [OF that(2)] D(3) [OF p] that(1) by auto
  have live: "agentID (sessHeap r q) \<noteq> aid" if "q < sessNext r" "q \<noteq> p" "\<not> retired (sessHeap r q)" for q
    using D(4) [OF that(1)] that p by auto
  show ?thesis
    unfolding vacant_def
  proof (intro conjI allI impI)
    show "mok (grpcSessions ?r)" "[] \<notin> mkeys (grpcSessions ?r)"
      "cacheOk (disconnectedOperationContexts ?r)" using D by simp_all
    show "q < sessNext ?r" "agentID (sessHeap ?r q) = k" "\<not> retired (sessHeap ?r q)"
      if "k \<noteq> aid \<and> mget (grpcSessions ?r) k = Some q" for k q
      using that D(3) [of k q] mapped [of k q] by simp_all
    show "retired (sessHeap ?r q) \<or> agentID (sessHeap ?r q) \<noteq> aid \<and>
        mget (grpcSessions ?r) (agentID (sessHeap ?r q)) = Some q" if "q < sessNext ?r" for q
      using that live [of q] D(4) [of q] s(2) by (cases "q = p") auto
    show "sessionOk (sessHeap ?r q)" if "q < sessNext ?r" for q
      using that D(5) [of q] s(1) by simp
  qed
qed

text \<open>The session after retirement, with its bindings possibly closed before.\<close>

lemma retired_session:
  assumes "wf_session s" "\<And>b. stream s = Some b \<or> pendingStream s = Some b \<Longrightarrow> b < bindingNext s"
  shows "sessionOk (abortPendingCommandsLocked (s\<lparr>retired := True\<rparr>) now)"
    "retired (abortPendingCommandsLocked (s\<lparr>retired := True\<rparr>) now)"
    "agentID (abortPendingCommandsLocked (s\<lparr>retired := True\<rparr>) now) = agentID s"
  using assms by (auto simp: sessionOk_def abortPendingCommandsLocked_def bindingsOk_def
      wf_abortCommands allDone_abort)

lemma updSession_const: "updSession p f r = updSession p (\<lambda>_. f (sessHeap r p)) r"
  by (simp add: updSession_def)

lemma vacant_retireSession:
  assumes "relayOk r" "mget (grpcSessions r) aid = Some p"
  shows "vacant aid (snd (retireSession p now r))"
proof -
  have s: "sessionOk (sessHeap r p)" "agentID (sessHeap r p) = aid"
    using relayOkD(3) [OF assms] relayOkD(5) [OF assms(1)] by auto
  show ?thesis
    unfolding retireSession_eq snd_conv
    by (subst updSession_const) (rule vacant_retire [OF assms]; use sessionOk_retire [OF s(1)] s(2) in simp)
qed

lemma relayOk_vacate:
  assumes "vacant aid r" "m = mdel aid (grpcSessions r)"
  shows "relayOk (r\<lparr>grpcSessions := m\<rparr>)"
  using assms by (auto simp: vacant_def relayOk_def ownershipOk_def gomap_simps split: if_splits)

lemma relayOk_publish:
  assumes v: "vacant aid r" and aid: "aid \<noteq> []" and s: "sessionOk s" "agentID s = aid" "\<not> retired s"
  shows "relayOk (publishSession aid s r)"
proof -
  have "ownershipOk (publishSession aid s r)"
    unfolding ownershipOk_def
  proof (intro conjI allI impI)
    show "mok (grpcSessions (publishSession aid s r))" "[] \<notin> mkeys (grpcSessions (publishSession aid s r))"
      using v aid by (simp_all add: publishSession_def mkeys_mput vacant_def)
  next
    fix k p assume m: "mget (grpcSessions (publishSession aid s r)) k = Some p"
    then have "k = aid \<and> p = sessNext r \<or> k \<noteq> aid \<and> mget (grpcSessions r) k = Some p"
      by (auto simp: publishSession_def gomap_simps split: if_splits)
    moreover have "k \<noteq> aid \<Longrightarrow> mget (grpcSessions r) k = Some p \<Longrightarrow>
        p < sessNext r \<and> agentID (sessHeap r p) = k \<and> \<not> retired (sessHeap r p)"
      using v unfolding vacant_def by blast
    ultimately show "p < sessNext (publishSession aid s r)"
      "agentID (sessHeap (publishSession aid s r) p) = k"
      "\<not> retired (sessHeap (publishSession aid s r) p)"
      using s by (auto simp: publishSession_def)
  next
    fix p assume "p < sessNext (publishSession aid s r)"
    then have "p = sessNext r \<or> p < sessNext r" by (auto simp: publishSession_def)
    then show "retired (sessHeap (publishSession aid s r) p) \<or>
        mget (grpcSessions (publishSession aid s r)) (agentID (sessHeap (publishSession aid s r) p)) = Some p"
      using v s by (auto simp: publishSession_def gomap_simps vacant_def)
  qed
  moreover have "\<forall>p < sessNext (publishSession aid s r). sessionOk (sessHeap (publishSession aid s r) p)"
    using v s(1) by (auto simp: publishSession_def vacant_def less_Suc_eq)
  ultimately show ?thesis
    using v by (simp add: relayOk_def publishSession_def vacant_def)
qed

lemma relayOk_register:
  assumes ok: "relayOk r" and aid: "aid \<noteq> []"
  shows "relayOk (snd (registerIteration r aid sid previous e1 e2 now))"
proof -
  let ?taken = "takeDisconnectedOperationContextLocked aid now (disconnectedOperationContexts r)"
  have cache: "cacheOk (snd ?taken)" "cacheOk (disconnectedOperationContexts r)"
    using relayOkD(6) [OF ok] ctxCache.ok_take by auto
  have ret: "retireSession p now r = (c, r1) \<Longrightarrow> mget (grpcSessions r) aid = Some p \<Longrightarrow> vacant aid r1"
    for p c r1 using vacant_retireSession [OF ok, of aid p now] by simp
  show ?thesis
    using ok aid cache vacant_unmapped [OF ok]
    by (cases ?taken) (auto simp: registerIteration_def Let_def
        intro!: relayOk_publish dest: ret split: option.split prod.split)
qed

lemma closeBinding_same [simp]:
  "agentID (closeBinding b s) = agentID s" "retired (closeBinding b s) = retired s"
  "wf_session (closeBinding b s) = wf_session s" "bindingNext (closeBinding b s) = bindingNext s"
  "stream (closeBinding b s) = stream s"
  by (simp_all add: closeBinding_def Let_def)

lemma allDone_closeBinding [simp]: "allDone (closeBinding b s) = allDone s"
  by (simp add: closeBinding_def Let_def allDone_def)

lemma pending_closeBinding: "pendingStream (closeBinding b s) = Some b' \<Longrightarrow> pendingStream s = Some b' \<and> b' \<noteq> b"
  by (auto simp: closeBinding_def Let_def split: if_splits)

lemma sessionOk_closeBinding:
  "sessionOk s \<Longrightarrow> \<not> ownsSession b (closeBinding b s) \<Longrightarrow> sessionOk (closeBinding b s)"
  by (auto simp: sessionOk_def bindingsOk_def ownsSession_def dest: pending_closeBinding)
    (auto simp: closeBinding_def Let_def split: if_splits)

lemma relayOk_deleteStream:
  assumes ok: "relayOk r" and aid: "aid \<noteq> []"
  shows "relayOk (deleteStream r aid p b now)"
proof (cases "mget (grpcSessions r) aid = Some p")
  case True
  let ?s = "sessHeap r p"
  have s: "sessionOk ?s" "agentID ?s = aid" using relayOkD(3) [OF ok True] relayOkD(5) [OF ok] by auto
  show ?thesis
  proof (cases "ownsSession b (closeBinding b ?s)")
    case False
    with s have "sessionOk (closeBinding b ?s)" by (simp add: sessionOk_closeBinding)
    then have "relayOk (updSession p (closeBinding b) r)"
      using ok by (auto simp: relayOk_def ownershipOk_def)
    with False True show ?thesis by (simp add: deleteStream_def Let_def)
  next
    case owns: True
    let ?t = "abortPendingCommandsLocked ((closeBinding b ?s)\<lparr>retired := True\<rparr>) now"
    have bn: "stream (closeBinding b ?s) = Some b' \<or> pendingStream (closeBinding b ?s) = Some b' \<Longrightarrow>
        b' < bindingNext (closeBinding b ?s)" for b'
      using s(1) pending_closeBinding [of b ?s b'] by (auto simp: sessionOk_def bindingsOk_def)
    have wf: "wf_session (closeBinding b ?s)" using s(1) by (simp add: sessionOk_def)
    have v: "vacant aid (updSession p (\<lambda>_. ?t) r)"
      using retired_session [OF wf bn, of now] s(2) by (intro vacant_retire [OF ok True]) simp_all
    have eq: "retireSession p now (updSession p (closeBinding b) r) =
        (takeSnapshot ((closeBinding b ?s)\<lparr>retired := True\<rparr>), updSession p (\<lambda>_. ?t) r)"
      by (simp add: retireSession_eq) (simp add: updSession_def)
    show ?thesis
      using v True owns ctxCache.ok_retain [OF relayOkD(6) [OF ok] aid]
      by (auto simp: deleteStream_def Let_def eq intro!: relayOk_vacate [of aid])
  qed
qed (simp add: deleteStream_def ok)

lemma sessionOk_newBinding:
  assumes "sessionOk s" "\<not> retired s" "b = bindingNext s" "\<not> closed bd"
  shows "sessionOk (s\<lparr>streamGeneration := g, bindingNext := Suc b, bindings := (bindings s)(b := bd),
      stream := Some b\<rparr>)"
    "sessionOk (s\<lparr>streamGeneration := g, bindingNext := Suc b, bindings := (bindings s)(b := bd),
      pendingStream := Some b\<rparr>)"
  using assms unfolding sessionOk_def bindingsOk_def allDone_def by (auto simp: less_Suc_eq)

lemma bindStream_ok:
  assumes "sessionOk s" "\<not> retired s" "bindStream i now s = (b, previous, s')"
  shows "sessionOk s'" "agentID s' = agentID s" "retired s' = retired s" "SessionID s' = SessionID s"
  using assms sessionOk_newBinding [OF assms(1,2) refl, of "zeroBinding\<lparr>generation := streamGeneration s + 1\<rparr>"]
  by (auto simp: bindStream_def Let_def zeroBinding_def sessionOk_replacement split: if_splits)

lemma relayOk_session:
  assumes "relayOk r" "p < sessNext r" "sessionOk s" "agentID s = agentID (sessHeap r p)"
    "retired s = retired (sessHeap r p)"
  shows "relayOk (updSession p (\<lambda>_. s) r)"
  using assms by (auto simp: relayOk_def ownershipOk_def)

lemma relayOk_updateStream:
  assumes ok: "relayOk r" shows "relayOk (snd (updateStream r aid sid p now))"
proof (cases "mget (grpcSessions r) aid = Some p \<and> SessionID (sessHeap r p) = sid \<and>
    \<not> retired (sessHeap r p)")
  case True
  obtain b previous s where b: "bindStream (registryReporter r = None) now (sessHeap r p) = (b, previous, s)"
    by (metis prod_cases3)
  have p: "p < sessNext r" using relayOkD(3) [OF ok] True by blast
  then have s: "sessionOk (sessHeap r p)" by (rule relayOkD(5) [OF ok])
  have "relayOk (updSession p (\<lambda>_. s) r)"
    using bindStream_ok [OF s _ b] True by (intro relayOk_session [OF ok p]) auto
  with True b show ?thesis by (simp add: updateStream_def)
qed (use ok in \<open>auto simp: updateStream_def\<close>)

lemma publicationFailed_ok:
  "sessionOk s \<Longrightarrow> sessionOk (publicationFailed b s)"
  "agentID (publicationFailed b s) = agentID s" "retired (publicationFailed b s) = retired s"
  by (auto simp: publicationFailed_def sessionOk_def bindingsOk_def allDone_def)

lemma publicationCommit_ok:
  "sessionOk s \<Longrightarrow> sessionOk (snd (publicationCommit b isActive now s))"
  "agentID (snd (publicationCommit b isActive now s)) = agentID s"
  "retired (snd (publicationCommit b isActive now s)) = retired s"
proof -
  have "sessionOk s \<Longrightarrow> pendingStream s = Some b \<Longrightarrow> \<not> closed (bindings s b) \<Longrightarrow>
      sessionOk (s\<lparr>stream := Some b, pendingStream := None\<rparr>)"
    by (auto simp: sessionOk_def bindingsOk_def allDone_def)
  then show "sessionOk s \<Longrightarrow> sessionOk (snd (publicationCommit b isActive now s))"
    by (auto simp: publicationCommit_def Let_def sessionOk_replacement)
qed (auto simp: publicationCommit_def Let_def)

lemma relayOk_new: "relayOk (newRelayState reporter authn authz mappings rid routes)"
  by (simp add: newRelayState_def relayOk_def ownershipOk_def cacheOk_def)

end
