(* ===== verification/Gateway.thy ===== *)
theory Gateway
  imports Relay
begin

text \<open>
  The telemetry side of a stream (\<open>internal/relay/gatewayserver.go\<close>): the identity checks of
  \<open>TelemetryStream\<close>, the admission of a frame and its acknowledgement, the envelope built from it,
  and the write of a message on a session's binding.  UUID parsing is a package outside the
  repository: \<open>uuidParse\<close> gives the canonical text of a UUID, or \<open>None\<close> on an error.
\<close>

section \<open>Opening a stream\<close>

definition streamIdentity ::
  "Relay \<Rightarrow> metadata option \<Rightarrow> goerror + string \<times> string" where
  "streamIdentity r meta =
     (case meta of
        None \<Rightarrow> Inl (Status InvalidArgument ''missing metadata'')
      | Some md \<Rightarrow>
        (case metaGet md ''aero-arc-agent-id'' of
           [] \<Rightarrow> Inl (Status InvalidArgument ''missing aero-arc-agent-id'')
         | v # _ \<Rightarrow>
           (let aid = trimSpace v in
            if aid = [] then Inl (Status InvalidArgument ''empty aero-arc-agent-id'')
            else case authenticateAgent (agentAuthenticator r) (registryReporter r \<noteq> None) meta aid of
              Some e \<Rightarrow> Inl e
            | None \<Rightarrow>
              (case metaGet md ''aero-arc-session-id'' of
                 [sid] \<Rightarrow> if trimSpace sid = []
                   then Inl (Status Unauthenticated ''exactly one aero-arc-session-id is required'')
                   else Inr (aid, trimSpace sid)
               | _ \<Rightarrow> Inl (Status Unauthenticated ''exactly one aero-arc-session-id is required'')))))"

text \<open>What \<open>TelemetryStream\<close> returns when the binding or its publication fails.\<close>

definition bindError :: goerror where
  "bindError = Status Unauthenticated ''telemetry stream is not bound to an active session''"

definition publicationError :: "goerror \<Rightarrow> goerror" where
  "publicationError err =
     (if errorIs err ''session not found''
      then Status Aborted ''telemetry session was replaced before publication''
      else Status Unavailable (''register active agent with control plane: '' @ errText err))"

section \<open>Frames\<close>

record TelemetryFrame =
  fr_AgentId :: string
  fr_SessionId :: string
  fr_WalId :: string
  fr_Seq :: "64 word"
  fr_MsgName :: string
  fr_MsgId :: "32 word"
  fr_Dialect :: string
  fr_SentAtUnixNs :: int
  fr_DeviceTimestampSec :: "64 word"
  fr_Fields :: "string gomap"

definition nilUUID :: string where
  "nilUUID = ''00000000-0000-0000-0000-000000000000''"

datatype frameVerdict = RejectFrame telemetryAckStatus string | AdmitFrame string

text \<open>The chain of checks, under the ownership read lease; an admitted frame carries the canonical
  WAL generation ID.\<close>

definition admitTelemetryFrame ::
  "(string \<Rightarrow> string option) \<Rightarrow> Relay \<Rightarrow> string \<Rightarrow> nat \<Rightarrow> TelemetryFrame \<Rightarrow> frameVerdict" where
  "admitTelemetryFrame uuidParse r aid p frame =
     (let s = sessHeap r p;
          owns = (mget (grpcSessions r) aid = Some p \<and> \<not> retired s);
          wal = trimSpace (fr_WalId frame);
          reject = RejectFrame AckPermanentError in
      if trimSpace (fr_AgentId frame) \<noteq> aid
      then reject ''telemetry frame agent ID does not match authenticated stream''
      else if \<not> owns then reject ''telemetry stream session is no longer active''
      else if fr_SessionId frame \<noteq> SessionID s
      then reject ''telemetry frame session ID does not match active session''
      else if trimSpace (fr_MsgName frame) = []
      then reject ''telemetry frame message name is required''
      else if fr_SentAtUnixNs frame \<le> 0
      then reject ''telemetry frame capture timestamp is required''
      else if wal = [] then reject ''telemetry frame WAL generation ID is required''
      else (case uuidParse wal of
          None \<Rightarrow> reject ''telemetry frame WAL generation ID is invalid''
        | Some u \<Rightarrow>
            if u = nilUUID then reject ''telemetry frame WAL generation ID is invalid''
            else if requiresOperationContextReconciliation s
            then RejectFrame AckRetryWithBackoff
                   ''operation context has not been reconciled for this Relay session''
            else AdmitFrame u))"

text \<open>The acknowledgement: of a rejected frame, or of an admitted one with the routing error.\<close>

definition frameAck :: "TelemetryFrame \<Rightarrow> frameVerdict \<Rightarrow> goerror option \<Rightarrow> telemetryAck" where
  "frameAck frame verdict routeErr =
     (case verdict of
        RejectFrame st m \<Rightarrow> \<lparr>ta_Seq = fr_Seq frame, ta_Status = st, ta_Error = m\<rparr>
      | AdmitFrame u \<Rightarrow>
        (case routeErr of
           None \<Rightarrow> \<lparr>ta_Seq = fr_Seq frame, ta_Status = AckOK, ta_Error = []\<rparr>
         | Some e \<Rightarrow>
             if errorIs e ''normalize telemetry envelope''
             then \<lparr>ta_Seq = fr_Seq frame, ta_Status = AckPermanentError,
                    ta_Error = ''telemetry normalization failed: '' @ errText e\<rparr>
             else \<lparr>ta_Seq = fr_Seq frame, ta_Status = AckRetryWithBackoff,
                    ta_Error = ''telemetry admission failed: '' @ errText e\<rparr>))"

text \<open>The envelope of an admitted frame; \<open>raw\<close> is the re-encoded frame, empty when encoding
  fails.\<close>

definition buildTelemetryFrameEnvelope ::
  "Relay \<Rightarrow> DroneSession \<Rightarrow> TelemetryFrame \<Rightarrow> string option \<Rightarrow> gotime \<Rightarrow> TelemetryEnvelope" where
  "buildTelemetryFrameEnvelope r s frame raw now =
     (let mapping = mget (AgentMappings r) (agentID s) in
      \<lparr>env_AgentID = agentID s,
       env_OperatorID = (case mapping of None \<Rightarrow> [] | Some m \<Rightarrow> map_OperatorID m),
       env_AircraftID = (case mapping of None \<Rightarrow> [] | Some m \<Rightarrow> map_AircraftID m),
       env_RelayID = RelayID r, env_SessionID = SessionID s, env_FlightID = FlightID s,
       env_IntentID = IntentID s, env_IntentVersion = IntentVer s, env_Source = agentID s,
       env_TimestampRelay = Some now,
       env_TimestampAgent = (if fr_SentAtUnixNs frame > 0 then Some (fr_SentAtUnixNs frame) else None),
       env_TimestampDevice = fr_DeviceTimestampSec frame, env_Dialect = fr_Dialect frame,
       env_MsgID = fr_MsgId frame, env_MsgName = fr_MsgName frame, env_WALID = fr_WalId frame,
       env_WALSequence = fr_Seq frame,
       env_SystemID = 0, env_ComponentID = 0, env_Sequence = 0, env_Fields = fr_Fields frame,
       env_Raw = (case raw of None \<Rightarrow> [] | Some bs \<Rightarrow> bs)\<rparr>)"

text \<open>The processing of an admitted frame; \<open>errs\<close> are the routing errors in completion order.\<close>

definition touchHeartbeat :: "gotime \<Rightarrow> DroneSession \<Rightarrow> DroneSession" where
  "touchHeartbeat now s = s\<lparr>LastHeartbeat := now\<rparr>"

definition processFrame ::
  "(string \<Rightarrow> string option) \<Rightarrow> Relay \<Rightarrow> string \<Rightarrow> nat \<Rightarrow> TelemetryFrame \<Rightarrow> string option \<Rightarrow>
    RouteError list \<Rightarrow> gotime \<Rightarrow> telemetryAck \<times> TelemetryEnvelope option \<times> Relay" where
  "processFrame uuidParse r aid p frame raw errs now =
     (let verdict = admitTelemetryFrame uuidParse r aid p frame in
      case verdict of
        RejectFrame st m \<Rightarrow> (frameAck frame verdict None, None, r)
      | AdmitFrame u \<Rightarrow>
          (let r1 = updSession p (touchHeartbeat now) r;
               env = buildTelemetryFrameEnvelope r1 (sessHeap r1 p) (frame\<lparr>fr_WalId := u\<rparr>) raw now
           in (frameAck frame verdict (handleTelemetryMessage errs), Some env, r1)))"

section \<open>Writing to the Agent\<close>

text \<open>One pass of the loop of \<open>sendToSessionWithWritePolicyAndCommit\<close>.  \<open>e1\<close> is the context at the
  loop head, \<open>lockErr\<close> the outcome of waiting for the binding's send lock, \<open>e2\<close> the context after
  it.\<close>

definition selectBinding :: "DroneSession \<Rightarrow> ctxErr option \<Rightarrow> goerror + nat" where
  "selectBinding s e1 =
     (case e1 of
        Some e \<Rightarrow> Inl (fromContextError e)
      | None \<Rightarrow> (case stream s of
          None \<Rightarrow> Inl (Status Unavailable ''agent stream is not connected'')
        | Some b \<Rightarrow> Inr b))"

definition recordSend :: "nat \<Rightarrow> relayMsg \<Rightarrow> DroneSession \<Rightarrow> DroneSession" where
  "recordSend b msg s = s\<lparr>bindings := (bindings s)(b := (bindings s b)\<lparr>bd_sent :=
     bd_sent (bindings s b) @ [msg]\<rparr>)\<rparr>"

datatype sendOutcome = SendAgain | SendReturned bool "goerror option"

text \<open>\<open>commit\<close> runs immediately before \<open>Send\<close>; \<open>sendErr\<close> is what \<open>Send\<close> returns.  This is the
  wait-through-write policy, the one every caller outside the tests uses.\<close>

definition sendOnSelected ::
  "nat \<Rightarrow> ctxErr option \<Rightarrow> ctxErr option \<Rightarrow> (DroneSession \<Rightarrow> bool \<times> DroneSession) option \<Rightarrow>
    goerror option \<Rightarrow> relayMsg \<Rightarrow> DroneSession \<Rightarrow> sendOutcome \<times> DroneSession" where
  "sendOnSelected b lockErr e2 commit sendErr msg s =
     (case lockErr of
        Some e \<Rightarrow> (SendReturned False (Some (fromContextError e)), s)
      | None \<Rightarrow>
          if stream s \<noteq> Some b then (SendAgain, s)
          else case e2 of
            Some e \<Rightarrow> (SendReturned False (Some (fromContextError e)), s)
          | None \<Rightarrow>
            (case (case commit of None \<Rightarrow> (True, s) | Some f \<Rightarrow> f s) of
               (False, s1) \<Rightarrow> (SendReturned False (Some (Status Canceled
                  ''stream delivery state ended before effect-start commit'')), s1)
             | (True, s1) \<Rightarrow> (SendReturned True sendErr, recordSend b msg s1)))"

text \<open>\<open>sendOnStream\<close>: the acknowledgement of a frame on its own binding.\<close>

definition sendOnStream :: "nat \<Rightarrow> relayMsg \<Rightarrow> DroneSession \<Rightarrow> DroneSession" where
  "sendOnStream b msg s = recordSend b msg s"

lemma closed_sent [simp]:
  "closed (((bindings s)(b := (bindings s b)\<lparr>bd_sent := x\<rparr>)) i) = closed (bindings s i)"
  by simp

lemma recordSend_frame [simp]:
  "sessionOk (recordSend b m s) = sessionOk s" "agentID (recordSend b m s) = agentID s"
  "retired (recordSend b m s) = retired s" "stream (recordSend b m s) = stream s"
  by (simp_all add: recordSend_def sessionOk_def bindingsOk_def allDone_def del: fun_upd_apply)

lemma sendOnSelected_ok:
  assumes "\<And>f. commit = Some f \<Longrightarrow> sessionOk (snd (f s))" "sessionOk s"
  shows "sessionOk (snd (sendOnSelected b lockErr e commit se m s))"
proof (cases "lockErr = None \<and> stream s = Some b \<and> e = None")
  case True
  then show ?thesis
    using assms by (cases commit; cases "(case commit of None \<Rightarrow> (True, s) | Some f \<Rightarrow> f s)"; cases "fst (case commit of None \<Rightarrow> (True, s) | Some f \<Rightarrow> f s)")
      (auto simp: sendOnSelected_def)
qed (use assms in \<open>auto simp: sendOnSelected_def split: option.split\<close>)

end
