(* ===== verification/ControlAPI.thy ===== *)
theory ControlAPI
  imports Gateway
begin

text \<open>
  The control-plane RPCs (\<open>internal/relay/apiserver.go\<close>, \<open>mission_deployment.go\<close>) by critical
  section: the checks before a session is chosen, the choice and its revalidation under the
  ownership lease, the delivery, the wait and the reply.
\<close>

section \<open>Status reads\<close>

record DroneStatus =
  DroneId :: string
  st_SessionId :: string
  st_AgentId :: string
  ConnectedAtUnixNs :: int
  LastHeartbeatUnixNs :: int
  st_FlightId :: string
  st_IntentId :: string
  st_IntentVersion :: "32 word"

definition droneStatus :: "DroneSession \<Rightarrow> DroneStatus" where
  "droneStatus s = \<lparr>DroneId = agentID s, st_SessionId = SessionID s, st_AgentId = agentID s,
     ConnectedAtUnixNs = ConnectedAt s, LastHeartbeatUnixNs = LastHeartbeat s,
     st_FlightId = FlightID s, st_IntentId = IntentID s, st_IntentVersion = IntentVer s\<rparr>"

definition ListActiveDrones :: "Relay \<Rightarrow> DroneStatus list" where
  "ListActiveDrones r = map (\<lambda>(k, p). droneStatus (sessHeap r p)) (grpcSessions r)"

definition GetDroneStatus :: "Relay \<Rightarrow> string \<Rightarrow> goerror + DroneStatus" where
  "GetDroneStatus r droneID =
     (let aid = trimSpace droneID in
      if aid = [] then Inl (Status InvalidArgument ''drone ID is required'')
      else case mget (grpcSessions r) aid of
        None \<Rightarrow> Inl (Status NotFound ''drone is not connected'')
      | Some p \<Rightarrow> Inr (droneStatus (sessHeap r p)))"

section \<open>Operation context\<close>

definition currentControlSession :: "Relay \<Rightarrow> string \<Rightarrow> goerror + nat" where
  "currentControlSession r aid =
     (case mget (grpcSessions r) aid of
        None \<Rightarrow> Inl (Status NotFound ''agent is not registered'')
      | Some p \<Rightarrow>
          if \<not> sessionIsCurrent r aid p \<or> retired (sessHeap r p)
          then Inl (Status Aborted ''agent session changed before operation-context delivery'')
          else Inr p)"

definition operationCommandID :: "string option \<Rightarrow> goerror option" where
  "operationCommandID cid =
     (case cid of
        None \<Rightarrow> Some (Status InvalidArgument ''operation-context command ID is required'')
      | Some c \<Rightarrow> if trimSpace c = []
          then Some (Status InvalidArgument ''operation-context command ID is required'') else None)"

definition validOperationContext :: "operationContext option \<Rightarrow> bool" where
  "validOperationContext c \<longleftrightarrow>
     (case c of None \<Rightarrow> False
      | Some x \<Rightarrow> trimSpace (FlightId x) \<noteq> [] \<and> trimSpace (IntentId x) \<noteq> [] \<and> IntentVersion x \<noteq> 0)"

definition setContextPrelude ::
  "Relay \<Rightarrow> peerInfo option \<Rightarrow> string \<Rightarrow> setContextCommand option \<Rightarrow>
    goerror + string \<times> setContextCommand" where
  "setContextPrelude r remote agent command =
     (case authorizeControlMutation (controlAuthorizer r) remote of
        Some e \<Rightarrow> Inl e
      | None \<Rightarrow>
        (let aid = trimSpace agent in
         if aid = [] then Inl (Status InvalidArgument ''agent ID is required'')
         else case operationCommandID (map_option sc_CommandId command) of
           Some e \<Rightarrow> Inl e
         | None \<Rightarrow>
           (let c = the command in
            if \<not> validOperationContext (sc_Context c)
            then Inl (Status InvalidArgument
              ''flight ID, intent ID, and positive intent version are required'')
            else Inr (aid, c))))"

definition clearContextPrelude ::
  "Relay \<Rightarrow> peerInfo option \<Rightarrow> string \<Rightarrow> clearContextCommand option \<Rightarrow>
    goerror + string \<times> clearContextCommand" where
  "clearContextPrelude r remote agent command =
     (case authorizeControlMutation (controlAuthorizer r) remote of
        Some e \<Rightarrow> Inl e
      | None \<Rightarrow>
        (let aid = trimSpace agent in
         if aid = [] then Inl (Status InvalidArgument ''agent ID is required'')
         else case operationCommandID (map_option cc_CommandId command) of
           Some e \<Rightarrow> Inl e
         | None \<Rightarrow> Inr (aid, the command)))"

text \<open>The checks of a clear once the gate is held; an authoritative clear reserves the one empty
  context command of the session.\<close>

definition clearContextReserve ::
  "clearContextCommand \<Rightarrow> DroneSession \<Rightarrow> goerror option \<times> DroneSession" where
  "clearContextReserve c s =
     (if cc_Authoritative c
      then
        (if cc_FlightId c \<noteq> []
         then (Some (Status InvalidArgument ''authoritative clear requires an empty flight ID''), s)
         else (case reserveEmptyContextReconciliation s (cc_CommandId c) of
                 (True, s1) \<Rightarrow> (None, s1)
               | (False, s1) \<Rightarrow> (Some (Status InvalidArgument
                   ''flight ID may be empty only while reconciling a fresh Relay session''), s1)))
      else if trimSpace (cc_FlightId c) = []
      then (Some (Status InvalidArgument ''conditional clear requires a flight ID''), s)
      else (None, s))"

text \<open>The deferred release of that reservation when the RPC ends.\<close>

definition clearContextRelease :: "clearContextCommand \<Rightarrow> DroneSession \<Rightarrow> DroneSession" where
  "clearContextRelease c s =
     (if cc_Authoritative c then releaseEmptyContextReconciliation s (cc_CommandId c) else s)"

text \<open>The delivery of an operation-context command: what follows the send.\<close>

definition afterOperationSend ::
  "DroneSession \<Rightarrow> string \<Rightarrow> nat \<Rightarrow> bool \<Rightarrow> goerror option \<Rightarrow> gotime \<Rightarrow> DroneSession" where
  "afterOperationSend s commandID r attempted sendErr now =
     (let s1 = (if attempted then markOperationCommandDelivered s commandID r else s) in
      case sendErr of None \<Rightarrow> s1
      | Some e \<Rightarrow> finishOperationCommand s1 commandID r None (Some e) attempted now)"

text \<open>A delivery that nothing interrupts: admission, one pass of the send loop and the
  bookkeeping.  \<open>fp\<close> is the digest of the encoded message.\<close>

definition beginOperationCommandDelivery ::
  "DroneSession \<Rightarrow> string \<Rightarrow> string option \<Rightarrow> relayMsg \<Rightarrow> operationContext option \<Rightarrow>
    ctxErr option \<times> ctxErr option \<times> ctxErr option \<Rightarrow> goerror option \<Rightarrow> gotime \<Rightarrow>
    (goerror + nat \<times> bool) \<times> DroneSession" where
  "beginOperationCommandDelivery s commandID fp msg expected obs sendErr now =
     (case fp of
        None \<Rightarrow> (Inl (Status Internal ''fingerprint operation-context command''), s)
      | Some f \<Rightarrow>
        (case beginOperationCommand s commandID f expected now of
           (Inl e, s1) \<Rightarrow> (Inl e, s1)
         | (Inr (r, False), s1) \<Rightarrow> (Inr (r, False), s1)
         | (Inr (r, True), s1) \<Rightarrow>
             (case obs of (e1, lockErr, e2) \<Rightarrow>
               (case selectBinding s1 e1 of
                  Inl e \<Rightarrow> (Inr (r, True), afterOperationSend s1 commandID r False (Some e) now)
                | Inr b \<Rightarrow>
                    (case sendOnSelected b lockErr e2 None sendErr msg s1 of
                       (SendAgain, s2) \<Rightarrow> (Inr (r, True), s2)
                     | (SendReturned attempted err, s2) \<Rightarrow>
                         (Inr (r, True), afterOperationSend s2 commandID r attempted err now))))))"

text \<open>The two ends of \<open>awaitOperationCommand\<close>: the state is done, or the caller's context is.\<close>

definition awaitOperationDone :: "DroneSession \<Rightarrow> nat \<Rightarrow> (contextAck option \<times> goerror option) option" where
  "awaitOperationDone s r =
     (if op_completed (opHeap s r) then Some (operationCommandResult s r) else None)"

definition awaitOperationEnded ::
  "DroneSession \<Rightarrow> string \<Rightarrow> nat \<Rightarrow> bool \<Rightarrow> ctxErr \<Rightarrow> gotime \<Rightarrow> goerror \<times> DroneSession" where
  "awaitOperationEnded s commandID r owner e now =
     (fromContextError e,
      if owner then finishOperationCommand s commandID r None (Some (fromContextError e)) True now
      else s)"

text \<open>The reply: the session must still own the Agent.\<close>

definition contextReply ::
  "Relay \<Rightarrow> string \<Rightarrow> nat \<Rightarrow> string \<Rightarrow> contextAck option \<times> goerror option \<Rightarrow>
    goerror + contextAck option" where
  "contextReply r aid p doing res =
     (case res of
        (_, Some e) \<Rightarrow> Inl e
      | (ack, None) \<Rightarrow>
          if \<not> sessionIsCurrent r aid p
          then Inl (Status Aborted (''agent session changed while '' @ doing @ '' operation context''))
          else Inr ack)"

section \<open>Aircraft commands\<close>

definition aircraftPrelude ::
  "Relay \<Rightarrow> peerInfo option \<Rightarrow> string \<Rightarrow> aircraftCommand option \<Rightarrow>
    goerror + string \<times> aircraftCommand \<times> nat" where
  "aircraftPrelude r remote agent command =
     (case authorizeControlMutation (controlAuthorizer r) remote of
        Some e \<Rightarrow> Inl e
      | None \<Rightarrow>
        (let aid = trimSpace agent in
         case command of
           None \<Rightarrow> Inl (Status InvalidArgument ''agent_id, command_id, and aircraft_id are required'')
         | Some c \<Rightarrow>
             if aid = [] \<or> trimSpace (acmd_CommandId c) = [] \<or> trimSpace (acmd_AircraftId c) = []
             then Inl (Status InvalidArgument ''agent_id, command_id, and aircraft_id are required'')
             else if acmd_Type c \<noteq> ARM \<and> acmd_Type c \<noteq> DISARM
             then Inl (Status InvalidArgument ''aircraft command type must be ARM or DISARM'')
             else case mget (grpcSessions r) aid of
               None \<Rightarrow> Inl (Status NotFound ''agent is not connected'')
             | Some p \<Rightarrow> Inr (aid, c, p)))"

text \<open>The pin of the exact session at admission, shared by aircraft commands and
  \<open>lockCurrentMissionSession\<close>.\<close>

definition lockCurrentMissionSession :: "Relay \<Rightarrow> string \<Rightarrow> nat \<Rightarrow> goerror + string" where
  "lockCurrentMissionSession r aid p =
     (if mget (grpcSessions r) aid \<noteq> Some p \<or> retired (sessHeap r p)
      then Inl (Status NotFound ''agent session is no longer active'')
      else if stream (sessHeap r p) = None
      then Inl (Status NotFound ''agent stream is not connected'')
      else Inr (SessionID (sessHeap r p)))"

definition aircraftReply ::
  "aircraftCommand \<Rightarrow> aircraftResult option \<times> goerror option \<Rightarrow> goerror + aircraftResult" where
  "aircraftReply c res =
     (case res of
        (_, Some e) \<Rightarrow> Inl e
      | (None, None) \<Rightarrow> Inl (Status Internal ''agent returned an empty aircraft command result'')
      | (Some x, None) \<Rightarrow>
          if ares_CommandId x \<noteq> acmd_CommandId c \<or> ares_AircraftId x \<noteq> acmd_AircraftId c
          then Inl (Status Internal ''agent returned a mismatched aircraft command result'')
          else Inr x)"

section \<open>Missions\<close>

definition mappingMissing :: goerror where
  "mappingMissing = Status FailedPrecondition ''relay Agent mapping is not configured''"

definition bindingMapped :: "agentMapping \<Rightarrow> deployMissionCommand \<Rightarrow> bool" where
  "bindingMapped m c = (case dm_Binding c of
     None \<Rightarrow> map_OperatorID m = [] \<and> map_AircraftID m = []
   | Some b \<Rightarrow> map_OperatorID m = mb_OperatorId b \<and> map_AircraftID m = mb_AircraftId b)"

definition missionPrelude ::
  "(missionPlan \<Rightarrow> string + string) \<Rightarrow> Relay \<Rightarrow> peerInfo option \<Rightarrow> string \<Rightarrow>
    deployMissionCommand option \<Rightarrow> goerror + string \<times> deployMissionCommand \<times> nat" where
  "missionPrelude digest r remote agent command =
     (case authorizeControlMutation (controlAuthorizer r) remote of
        Some e \<Rightarrow> Inl e
      | None \<Rightarrow>
        (let aid = trimSpace agent in
         if aid = [] \<or> command = None
         then Inl (Status InvalidArgument ''agent_id and command are required'')
         else case validateDeployMissionCommand digest command of
           Some e \<Rightarrow> Inl e
         | None \<Rightarrow>
           (case mget (AgentMappings r) aid of
              None \<Rightarrow> Inl mappingMissing
            | Some m \<Rightarrow>
                if trimSpace (map_OperatorID m) = [] \<or> trimSpace (map_AircraftID m) = []
                then Inl mappingMissing
                else if \<not> bindingMapped m (the command)
                then Inl (Status FailedPrecondition
                  ''mission binding does not match configured Agent mapping'')
                else case mget (grpcSessions r) aid of
                  None \<Rightarrow> Inl (Status NotFound ''agent is not connected'')
                | Some p \<Rightarrow> Inr (aid, the command, p))))"

definition missionContextMatches :: "DroneSession \<Rightarrow> missionBinding \<Rightarrow> bool" where
  "missionContextMatches s b \<longleftrightarrow>
     AircraftID s \<noteq> [] \<and> AircraftID s = mb_AircraftId b \<and> FlightID s = mb_FlightId b \<and>
     IntentID s = mb_IntentId b \<and> IntentVer s = mb_IntentVersion b"

text \<open>The fence before a direct delivery and before a reservation is activated.\<close>

definition missionFence :: "DroneSession \<Rightarrow> deployMissionCommand \<Rightarrow> goerror option" where
  "missionFence s c =
     (if operationContextUnreconciled s
      then Some (Status FailedPrecondition
        ''operation context must be reconciled before mission deployment'')
      else if \<not> (case dm_Binding c of None \<Rightarrow> False | Some b \<Rightarrow> missionContextMatches s b)
      then Some (Status FailedPrecondition
        ''mission binding does not match the reconciled Agent operation context'')
      else None)"

definition reservationFence :: "DroneSession \<Rightarrow> deployMissionCommand \<Rightarrow> goerror option" where
  "reservationFence s c =
     (if missionFence s c \<noteq> None
      then Some (Status FailedPrecondition
        ''mission binding does not match the reconciled Agent operation context'')
      else None)"

definition missionReply ::
  "missionResult option \<times> goerror option \<Rightarrow> goerror + missionResult" where
  "missionReply res =
     (case res of
        (_, Some e) \<Rightarrow> Inl e
      | (None, None) \<Rightarrow> Inl (Status Internal ''agent returned an empty mission deployment result'')
      | (Some x, None) \<Rightarrow> Inr x)"

end
