(* ===== verification/Examples.thy ===== *)
theory Examples
  imports ControlAPI
begin

text \<open>
  A concrete Relay that the witnesses share: Agent \<open>a1\<close> has registered, its stream is bound, and
  control mutations are enabled for the identity \<open>api\<close>.  It is built by the operations themselves,
  so it satisfies the invariant.
\<close>

definition exampleMapping :: agentMapping where
  "exampleMapping = \<lparr>map_OperatorID = ''op'', map_AircraftID = ''ac''\<rparr>"

definition emptyRelay :: Relay where
  "emptyRelay = newRelayState None None (Some [''api'']) [(''a1'', exampleMapping)] ''r1'' []"

definition registeredRelay :: Relay where
  "registeredRelay = snd (registerIteration emptyRelay ''a1'' ''s1'' None None None 1000)"

definition boundRelay :: Relay where
  "boundRelay = snd (updateStream registeredRelay ''a1'' ''s1'' 0 2000)"

text \<open>The same with its operation context reconciled.\<close>

definition exampleRelay :: Relay where
  "exampleRelay = updSession 0 (\<lambda>s. s\<lparr>operationContextUnreconciled := False, AircraftID := ''ac'',
     FlightID := ''f1'', IntentID := ''i1'', IntentVer := 3\<rparr>) boundRelay"

definition exampleSession :: DroneSession where
  "exampleSession = (newDroneSession ''a1'' ''s1'' 1000 True)\<lparr>stream := Some 0, streamGeneration := 1,
     bindingNext := 1, bindings := (\<lambda>_. zeroBinding)(0 := zeroBinding\<lparr>generation := 1\<rparr>)\<rparr>"

definition reconciledSession :: DroneSession where
  "reconciledSession = exampleSession\<lparr>operationContextUnreconciled := False, AircraftID := ''ac'',
     FlightID := ''f1'', IntentID := ''i1'', IntentVer := 3\<rparr>"

lemmas example_defs = exampleMapping_def emptyRelay_def registeredRelay_def newRelayState_def
  registerIteration_def publishSession_def Let_def

lemma registeredRelay_ok: "relayOk registeredRelay"
  unfolding registeredRelay_def emptyRelay_def by (rule relayOk_register [OF relayOk_new]) simp

lemma boundRelay_ok: "relayOk boundRelay"
  unfolding boundRelay_def by (rule relayOk_updateStream [OF registeredRelay_ok])

lemma registeredRelay_simps [simp]:
  "grpcSessions registeredRelay = [(''a1'', 0)]"
  "sessHeap registeredRelay 0 = newDroneSession ''a1'' ''s1'' 1000 True"
  "sessNext registeredRelay = 1" "registryReporter registeredRelay = None"
  "agentAuthenticator registeredRelay = None" "RelayID registeredRelay = ''r1''"
  "controlAuthorizer registeredRelay = Some [''api'']"
  "AgentMappings registeredRelay = [(''a1'', exampleMapping)]"
  by (simp_all add: example_defs)

lemma boundRelay_simps [simp]:
  "grpcSessions boundRelay = [(''a1'', 0)]" "sessHeap boundRelay 0 = exampleSession"
  "sessNext boundRelay = 1" "registryReporter boundRelay = None"
  "agentAuthenticator boundRelay = None" "RelayID boundRelay = ''r1''"
  "controlAuthorizer boundRelay = Some [''api'']"
  "AgentMappings boundRelay = [(''a1'', exampleMapping)]"
  by (simp_all add: boundRelay_def updateStream_def bindStream_def newDroneSession_def
      exampleSession_def updSession_def Let_def)

lemma exampleRelay_simps [simp]:
  "grpcSessions exampleRelay = [(''a1'', 0)]" "sessHeap exampleRelay 0 = reconciledSession"
  "sessNext exampleRelay = 1" "registryReporter exampleRelay = None"
  "agentAuthenticator exampleRelay = None" "RelayID exampleRelay = ''r1''"
  "controlAuthorizer exampleRelay = Some [''api'']"
  "AgentMappings exampleRelay = [(''a1'', exampleMapping)]"
  by (simp_all add: exampleRelay_def reconciledSession_def updSession_def)

lemma exampleSession_ok: "sessionOk exampleSession"
  using relayOkD(5) [OF boundRelay_ok, of 0] by simp

lemma exampleRelay_ok: "relayOk exampleRelay"
proof -
  have "sessionOk reconciledSession"
    using exampleSession_ok by (simp add: reconciledSession_def sessionOk_def bindingsOk_def allDone_def)
  then show ?thesis
    unfolding exampleRelay_def
    by (intro relayOk_upd [OF boundRelay_ok]) (simp_all add: reconciledSession_def)
qed

lemma session_simps_example [simp]:
  "agentID reconciledSession = ''a1''" "SessionID reconciledSession = ''s1''"
  "retired reconciledSession = False" "stream reconciledSession = Some 0"
  "operationContextUnreconciled reconciledSession = False" "agentID exampleSession = ''a1''"
  "SessionID exampleSession = ''s1''" "retired exampleSession = False" "stream exampleSession = Some 0"
  by (simp_all add: reconciledSession_def exampleSession_def newDroneSession_def)

end
