(* ===== verification/Runs.thy ===== *)
theory Runs
  imports Examples
begin

text \<open>
  Interleavings: the critical sections of one session and of the Relay as step relations, the
  reachable Relays and the runs between them.  The facts are that every step keeps the invariant of
  the Relay and that a completed command's outcome is final.
\<close>

section \<open>Finality of outcomes\<close>

definition opFinal :: "operationCommandState \<Rightarrow> operationCommandState \<Rightarrow> bool" where
  "opFinal st st' \<longleftrightarrow> (op_completed st \<longrightarrow> op_completed st' \<and> op_ack st' = op_ack st \<and>
     op_err st' = op_err st \<and> op_completedAt st' = op_completedAt st)"

definition acFinal :: "aircraftCommandState \<Rightarrow> aircraftCommandState \<Rightarrow> bool" where
  "acFinal st st' \<longleftrightarrow> (ac_completed st \<longrightarrow> ac_completed st' \<and> ac_result st' = ac_result st \<and>
     ac_err st' = ac_err st \<and> ac_completedAt st' = ac_completedAt st)"

definition mdFinal :: "missionDeploymentState \<Rightarrow> missionDeploymentState \<Rightarrow> bool" where
  "mdFinal st st' \<longleftrightarrow> (md_completed st \<longrightarrow> md_completed st' \<and> md_result st' = md_result st \<and>
     md_err st' = md_err st \<and> md_completedAt st' = md_completedAt st)"

definition settles :: "DroneSession \<Rightarrow> DroneSession \<Rightarrow> bool" where
  "settles s s' \<longleftrightarrow> opNext s \<le> opNext s' \<and> acNext s \<le> acNext s' \<and> mdNext s \<le> mdNext s' \<and>
     (\<forall>r < opNext s. opFinal (opHeap s r) (opHeap s' r)) \<and>
     (\<forall>r < acNext s. acFinal (acHeap s r) (acHeap s' r)) \<and>
     (\<forall>r < mdNext s. mdFinal (mdHeap s r) (mdHeap s' r))"

text \<open>What a step of a session leaves alone: identity and bindings, apart from what was sent.\<close>

definition sameShell :: "DroneSession \<Rightarrow> DroneSession \<Rightarrow> bool" where
  "sameShell s s' \<longleftrightarrow> agentID s' = agentID s \<and> SessionID s' = SessionID s \<and> retired s' = retired s \<and>
     stream s' = stream s \<and> pendingStream s' = pendingStream s \<and> bindingNext s' = bindingNext s \<and>
     (\<forall>b. closed (bindings s' b) = closed (bindings s b))"

definition keeps :: "DroneSession \<Rightarrow> DroneSession \<Rightarrow> bool" where
  "keeps s s' \<longleftrightarrow> settles s s' \<and> sameShell s s'"

lemma final_refl [simp]: "opFinal a a" "acFinal b b" "mdFinal c c"
  by (simp_all add: opFinal_def acFinal_def mdFinal_def)

lemma keeps_refl [simp]: "keeps s s"
  by (simp add: keeps_def settles_def sameShell_def)

lemma keeps_trans: "keeps a b \<Longrightarrow> keeps b c \<Longrightarrow> keeps a c"
  unfolding keeps_def settles_def sameShell_def opFinal_def acFinal_def mdFinal_def by fastforce

lemmas keeps_defs = keeps_def settles_def sameShell_def

lemma keeps_op: "opFinal (opHeap s r) st \<Longrightarrow> keeps s (s\<lparr>opHeap := (opHeap s)(r := st)\<rparr>)"
  by (simp add: keeps_defs)

lemma keeps_ac: "acFinal (acHeap s r) st \<Longrightarrow> keeps s (s\<lparr>acHeap := (acHeap s)(r := st)\<rparr>)"
  by (simp add: keeps_defs)

lemma keeps_md: "mdFinal (mdHeap s r) st \<Longrightarrow> keeps s (s\<lparr>mdHeap := (mdHeap s)(r := st)\<rparr>)"
  by (simp add: keeps_defs)

lemma final_live [simp]:
  "\<not> op_completed a \<Longrightarrow> opFinal a a'" "\<not> ac_completed b \<Longrightarrow> acFinal b b'" "\<not> md_completed c \<Longrightarrow> mdFinal c c'"
  by (simp_all add: opFinal_def acFinal_def mdFinal_def)

lemma keeps_prepare:
  "prepareCommandIDAdmissionLocked s k kind now = (e, s1) \<Longrightarrow> keeps s s1"
  by (auto simp: prepare_defs Let_def keeps_defs)

lemma keeps_room:
  "keeps s (makeOperationCommandRoomLocked s)" "keeps s (makeAircraftCommandRoomLocked s)"
  "keeps s (makeMissionDeploymentRoomLocked s)"
  by (simp_all add: makeOperationCommandRoomLocked_def makeAircraftCommandRoomLocked_def
      makeMissionDeploymentRoomLocked_def keeps_defs)

lemma keeps_install:
  "keeps s (installOperation s k st)" "keeps s (installAircraft s k st')" "keeps s (installMission s k st'')"
  by (simp_all add: installOperation_def installAircraft_def installMission_def keeps_defs)

lemma mdFinal_waiters [simp]: "mdFinal st (st\<lparr>md_waiters := w\<rparr>)" "mdFinal st (st\<lparr>md_admission := a, md_waiters := w\<rparr>)"
  by (simp_all add: mdFinal_def)

text \<open>Chains that start with the admission check.\<close>

lemma keeps_after:
  assumes "keeps s s1"
  shows "keeps s (s1\<lparr>acHeap := (acHeap s1)(r := (acHeap s1 r)\<lparr>ac_waiters := w\<rparr>)\<rparr>)"
    and "keeps s (s1\<lparr>mdHeap := (mdHeap s1)(r := (mdHeap s1 r)\<lparr>md_waiters := v\<rparr>)\<rparr>)"
    and "keeps s (s1\<lparr>mdHeap := (mdHeap s1)(r :=
      (mdHeap s1 r)\<lparr>md_admission := a, md_waiters := v\<rparr>)\<rparr>)"
    and "keeps s (installMission s1 k st)"
    and "\<not> md_completed (mdHeap s1 r) \<Longrightarrow> keeps s (s1\<lparr>mdHeap := (mdHeap s1)(r := st')\<rparr>)"
  by (rule keeps_trans [OF assms], simp add: keeps_ac keeps_md keeps_install acFinal_def)+

lemma keeps_beginOperation: "keeps s (snd (beginOperationCommand s k fp expected now))"
proof (cases "prepareCommandIDAdmissionLocked s k retainedOperationCommand now")
  case (Pair e s1)
  then have "keeps s s1" by (rule keeps_prepare)
  then show ?thesis
    by (auto simp: beginOperationCommand_def Pair Let_def split: option.split
        intro: keeps_trans [of s s1] keeps_trans [OF keeps_room(1)] keeps_room(1) keeps_install(1))
qed

lemma keeps_completeOperation:
  "\<not> op_completed (opHeap s r) \<Longrightarrow> keeps s (completeOperation s k r p now)"
  by (simp add: completeOperation_def keeps_defs)

lemma keeps_finishOperation: "keeps s (finishOperationCommand s k r ack err fence now)"
  by (auto simp: finishOperationCommand_def completeOperation_def Let_def keeps_defs)

lemma keeps_markDelivered: "keeps s (markOperationCommandDelivered s k r)"
  by (auto simp: markOperationCommandDelivered_def keeps_defs)

lemma keeps_afterSend: "keeps s (afterOperationSend s k r attempted err now)"
  unfolding afterOperationSend_def Let_def
  by (auto split: option.split intro: keeps_trans [OF keeps_markDelivered] keeps_markDelivered keeps_finishOperation)

lemma keeps_handleAck: "keeps s (handleOperationContextCommandAck s ack now)"
  by (auto simp: handleOperationContextCommandAck_def completeOperation_def applyContext_def Let_def
      keeps_defs split: option.split)

lemma keeps_handleAckFrom: "keeps s (handleOperationContextCommandAckFrom s b ack now)"
  by (simp add: handleOperationContextCommandAckFrom_def keeps_handleAck)

lemma keeps_beginAircraft: "keeps s (snd (beginAircraftCommandDelivery s c fp now))"
proof (cases "prepareCommandIDAdmissionLocked s (acmd_CommandId c) retainedAircraftCommand now")
  case (Pair e s1)
  then have "keeps s s1" by (rule keeps_prepare)
  then show ?thesis
    by (auto simp: beginAircraftCommandDelivery_def Pair Let_def split: option.split
        intro: keeps_trans [of s s1] keeps_trans [OF keeps_room(2)] keeps_room(2) keeps_install(2)
          keeps_after)
qed

lemma keeps_aircraft:
  "keeps s (finishAircraftCommand s k r result err now)"
  "keeps s (snd (takeAircraftCommandResult s r))"
  "keeps s (cancelAircraftCommandWaiter s k r e now)"
  "keeps s (handleAircraftCommandResultFrom s b res now)"
  by (auto simp: finishAircraftCommand_def completeAircraft_def takeAircraftCommandResult_def
      cancelAircraftCommandWaiter_def handleAircraftCommandResultFrom_def
      handleAircraftCommandResult_def Let_def acFinal_def keeps_defs split: option.split)

lemma keeps_attachMission:
  assumes "wf_session s"
  shows "keeps s (snd (attachMissionDeployment s c fp w1 w2 now))"
proof (cases "prepareCommandIDAdmissionLocked s (dm_CommandId c) retainedMissionDeployment now")
  case (Pair e s1)
  note wf1 = wf_prepareD [OF assms Pair]
  have k1: "keeps s s1" using Pair by (rule keeps_prepare)
  have live: "md_reserved (mdHeap s1 r) \<Longrightarrow>
      \<not> (md_completed (mdHeap s1 r) \<and> retryableMissionDeployment (mdHeap s1 r) \<and>
         (md_admissionFailed (mdHeap s1 r) \<or> md_deliveryStream (mdHeap s1 r) = currentBinding s1)) \<Longrightarrow>
      \<not> md_completed (mdHeap s1 r)" for r
    using wf_reserved_live [OF wf1] by blast
  show ?thesis
    using k1 live by (auto simp: attachMissionDeployment_def Pair Let_def split: option.split
        intro!: keeps_after)
qed

lemma keeps_activate: "keeps s (snd (activateMission s c fp q))"
  using keeps_install(3) by (auto simp: activateMission_def mdFinal_def keeps_defs installMission_def split: option.split)

lemma keeps_admitMission: "keeps s (snd (admitMissionDelivery s c fp q e1 e2 now))"
  unfolding admitMissionDelivery_def Let_def
  using keeps_activate [of _ c fp q] keeps_trans [OF keeps_room(3) keeps_activate [of _ c fp q]]
  by (auto simp: keeps_room(3) split: prod.split) (metis snd_conv)+

lemma keeps_beginMission: "keeps s (snd (beginMissionDeployment s c fp q e1 e2 now))"
proof (cases "prepareCommandIDAdmissionLocked s (dm_CommandId c) retainedMissionDeployment now")
  case (Pair e s1)
  then have k1: "keeps s s1" by (rule keeps_prepare)
  show ?thesis
    using k1 by (auto simp: beginMissionDeployment_def Pair Let_def split: option.split
        intro: keeps_trans [OF k1 keeps_admitMission] keeps_after)
qed

lemma keeps_mission:
  "keeps s (finishMissionDeployment s k r result err now)"
  "keeps s (snd (failMissionDeploymentReservation s k r e now))"
  "keeps s (snd (takeMissionDeploymentResult s r))"
  "keeps s (cancelMissionDeploymentWaiter s k r now)"
  "keeps s (snd (commitMissionDelivery s k r))"
  "keeps s (recordMissionDelivery s k r a)"
  "keeps s (handleMissionDeploymentResultFrom s b res now)"
  "keeps s (missionWaiterGone r s)" "keeps s (cancelMissionAdmission r s)"
  by (auto simp: missionWaiterGone_def cancelMissionAdmission_def updAdmission_def
      finishMissionDeployment_def failMissionDeploymentReservation_def
      takeMissionDeploymentResult_def cancelMissionDeploymentWaiter_def commitMissionDelivery_def
      recordMissionDelivery_def handleMissionDeploymentResultFrom_def handleMissionDeploymentResult_def
      dropWaiter_def Let_def mdFinal_def keeps_defs split: option.split)

lemma keeps_missionSendFailed: "keeps s (missionSendFailed s c r a e now)"
  by (simp add: missionSendFailed_def keeps_mission split: option.split)

lemma keeps_recordSend: "keeps s (recordSend b m s)"
  by (simp add: recordSend_def keeps_defs)

section \<open>The steps of one session\<close>

text \<open>The critical sections the handlers and tasks of a session interleave.  The guards are what
  their callers establish: a command is admitted under the ownership lease of a session that is not
  retired; the gate is released by the task that took it; a send commits a deployment after its
  activation, and delivery is recorded after that commit; the worker of a reservation runs on its
  own state.\<close>

inductive sessionStep :: "DroneSession \<Rightarrow> DroneSession \<Rightarrow> bool" where
  opBegin: "\<not> retired s \<Longrightarrow> k \<noteq> [] \<Longrightarrow>
    sessionStep s (snd (beginOperationCommand s k fp expected now))"
| opSent: "sessionStep s (afterOperationSend s k r attempted err now)"
| opWaitEnded: "sessionStep s (snd (awaitOperationEnded s k r owner e now))"
| opAck: "sessionStep s (handleOperationContextCommandAckFrom s b ack now)"
| gateTaken: "takeGate s = Some s' \<Longrightarrow> sessionStep s s'"
| gateReleased: "\<not> operationGate s \<Longrightarrow> sessionStep s (releaseGate s)"
| clearReserved: "sessionStep s (snd (clearContextReserve c s))"
| clearReleased: "sessionStep s (clearContextRelease c s)"
| acBegin: "\<not> retired s \<Longrightarrow> acmd_CommandId ac \<noteq> [] \<Longrightarrow>
    sessionStep s (snd (beginAircraftCommandDelivery s ac fpo now))"
| acSendFailed: "sessionStep s (finishAircraftCommand s k r None (Some err) now)"
| acTaken: "sessionStep s (snd (takeAircraftCommandResult s r))"
| acWaitEnded: "sessionStep s (cancelAircraftCommandWaiter s k r err now)"
| acResult: "sessionStep s (handleAircraftCommandResultFrom s b ares now)"
| mdAttach: "\<not> retired s \<Longrightarrow> dm_CommandId dm \<noteq> [] \<Longrightarrow>
    sessionStep s (snd (attachMissionDeployment s dm fpo w1 w2 now))"
| mdBegin: "\<not> retired s \<Longrightarrow> dm_CommandId dm \<noteq> [] \<Longrightarrow> reservationOf s q (dm_CommandId dm) e1 \<Longrightarrow>
    sessionStep s (snd (beginMissionDeployment s dm fpo q e1 e2 now))"
| mdReservationFailed: "sessionStep s (snd (failMissionDeploymentReservation s k r err now))"
| mdSent: "\<not> md_reserved (mdHeap s r) \<Longrightarrow> (attempted \<Longrightarrow> md_resultAdmissionOpen (mdHeap s r)) \<Longrightarrow>
    sessionStep s (recordMissionDelivery s k r attempted)"
| mdSendFailed: "\<not> md_reserved (mdHeap s r) \<Longrightarrow>
    sessionStep s (missionSendFailed s dm r attempted serr now)"
| mdTaken: "sessionStep s (snd (takeMissionDeploymentResult s r))"
| mdWaitEnded: "sessionStep s (cancelMissionDeploymentWaiter s k r now)"
| mdWaiterGone: "sessionStep s (missionWaiterGone r s)"
| mdAdmissionEnded: "sessionStep s (cancelMissionAdmission r s)"
| mdResult: "sessionStep s (handleMissionDeploymentResultFrom s b mres now)"
| written: "sendOnSelected b lockErr e2 None serr msg s = (out, s') \<Longrightarrow> sessionStep s s'"
| mdWritten: "\<not> md_reserved (mdHeap s r) \<Longrightarrow>
    sendOnSelected b lockErr e2 (Some (\<lambda>s. commitMissionDelivery s k r)) serr msg s = (out, s') \<Longrightarrow>
    sessionStep s s'"
| ackWritten: "sessionStep s (sendOnStream b (TelemetryAckMsg ta) s)"
| touched: "sessionStep s (touchHeartbeat now s)"

inductive_cases sessionStepE: "sessionStep s s'"

lemma keeps_waitEnded: "keeps s (snd (awaitOperationEnded s k r owner e now))"
  by (simp add: awaitOperationEnded_def keeps_finishOperation)

lemma keeps_small:
  "keeps s (snd (clearContextReserve c s))" "keeps s (clearContextRelease c s)"
  "keeps s (releaseGate s)" "keeps s (touchHeartbeat now s)" "takeGate s = Some s' \<Longrightarrow> keeps s s'"
  by (auto simp: clearContextReserve_def reserveEmptyContextReconciliation_def clearContextRelease_def
      releaseEmptyContextReconciliation_def releaseGate_def touchHeartbeat_def takeGate_def keeps_defs
      split: if_splits bool.splits)

lemma keeps_send:
  assumes "sendOnSelected b lockErr e2 commit serr msg s = (out, s')"
    "\<And>f. commit = Some f \<Longrightarrow> keeps s (snd (f s))"
  shows "keeps s s'"
proof -
  have "keeps s (case commit of None \<Rightarrow> s | Some f \<Rightarrow> snd (f s))"
    using assms(2) by (simp split: option.split)
  moreover have "s' = s \<or> s' = (case commit of None \<Rightarrow> s | Some f \<Rightarrow> snd (f s)) \<or>
      s' = recordSend b msg (case commit of None \<Rightarrow> s | Some f \<Rightarrow> snd (f s))"
    using assms(1) by (auto simp: sendOnSelected_def split: option.splits if_splits prod.splits bool.splits)
  ultimately show ?thesis using keeps_trans [OF _ keeps_recordSend] by auto
qed

lemma keeps_written:
  "sendOnSelected b lockErr e2 None serr msg s = (out, s') \<Longrightarrow> keeps s s'"
  "sendOnSelected b lockErr e2 (Some (\<lambda>s. commitMissionDelivery s k r)) serr msg s = (out, s') \<Longrightarrow> keeps s s'"
  by (erule keeps_send, auto simp: keeps_mission)+

lemma step_keeps: "sessionStep s s' \<Longrightarrow> wf_session s \<Longrightarrow> keeps s s'"
  by (induction rule: sessionStep.induct)
    (simp_all add: keeps_beginOperation keeps_afterSend keeps_waitEnded keeps_handleAckFrom keeps_small
      keeps_beginAircraft keeps_aircraft keeps_attachMission keeps_beginMission keeps_mission
      keeps_missionSendFailed sendOnStream_def keeps_recordSend keeps_written)

lemma wf_small:
  "wf_session (snd (clearContextReserve c s)) = wf_session s"
  "wf_session (clearContextRelease c s) = wf_session s"
  "wf_session (releaseGate s) = wf_session s" "wf_session (touchHeartbeat now s) = wf_session s"
  "takeGate s = Some s' \<Longrightarrow> wf_session s' = wf_session s" "wf_session (recordSend b m s) = wf_session s"
  by (auto simp: clearContextReserve_def reserveEmptyContextReconciliation_def clearContextRelease_def
      releaseEmptyContextReconciliation_def releaseGate_def touchHeartbeat_def takeGate_def
      recordSend_def split: if_splits bool.splits)

lemma wf_afterSend: "wf_session s \<Longrightarrow> wf_session (afterOperationSend s k r attempted err now)"
  by (auto simp: afterOperationSend_def Let_def wf_markDelivered split: option.split
      intro: wf_finishOperationCommand)

lemma wf_send:
  assumes "sendOnSelected b lockErr e2 commit serr msg s = (out, s')" "wf_session s"
    "\<And>f. commit = Some f \<Longrightarrow> wf_session (snd (f s))"
  shows "wf_session s'"
proof -
  have "wf_session (case commit of None \<Rightarrow> s | Some f \<Rightarrow> snd (f s))"
    using assms(2,3) by (simp split: option.split)
  moreover have "s' = s \<or> s' = (case commit of None \<Rightarrow> s | Some f \<Rightarrow> snd (f s)) \<or>
      s' = recordSend b msg (case commit of None \<Rightarrow> s | Some f \<Rightarrow> snd (f s))"
    using assms(1) by (auto simp: sendOnSelected_def split: option.splits if_splits prod.splits bool.splits)
  ultimately show ?thesis using assms(2) by (auto simp: wf_small)
qed

lemma wf_written:
  "sendOnSelected b lockErr e2 None serr msg s = (out, s') \<Longrightarrow> wf_session s \<Longrightarrow> wf_session s'"
  "sendOnSelected b lockErr e2 (Some (\<lambda>s. commitMissionDelivery s k r)) serr msg s = (out, s') \<Longrightarrow>
     wf_session s \<Longrightarrow> \<not> md_reserved (mdHeap s r) \<Longrightarrow> wf_session s'"
  by (erule wf_send, simp_all) (erule wf_send, auto simp: wf_commitMission)

lemma step_wf: "sessionStep s s' \<Longrightarrow> wf_session s \<Longrightarrow> wf_session s'"
  by (induction rule: sessionStep.induct)
    (simp_all add: wf_beginOperationCommand wf_afterSend awaitOperationEnded_def
      wf_finishOperationCommand wf_handleAckFrom wf_small wf_beginAircraft wf_finishAircraftCommand
      wf_takeAircraft wf_cancelAircraftWaiter wf_handleAircraftFrom wf_attachMission wf_beginMission
      wf_missionAdmission wf_failReservation wf_recordMission wf_missionSendFailed wf_takeMission wf_cancelMissionWaiter
      wf_handleMissionFrom wf_written sendOnStream_def)

text \<open>A retired session admits nothing more.\<close>

definition sameSize :: "DroneSession \<Rightarrow> DroneSession \<Rightarrow> bool" where
  "sameSize s s' \<longleftrightarrow> opNext s' = opNext s \<and> acNext s' = acNext s \<and> mdNext s' = mdNext s"

lemma sameSize_refl [simp]: "sameSize s s" by (simp add: sameSize_def)

lemma sameSize_finishes:
  "sameSize s (afterOperationSend s k r attempted err now)"
  "sameSize s (snd (awaitOperationEnded s k r owner e now))"
  "sameSize s (handleOperationContextCommandAckFrom s b ack now)"
  "sameSize s (finishAircraftCommand s k r result err' now)"
  "sameSize s (snd (takeAircraftCommandResult s r))"
  "sameSize s (cancelAircraftCommandWaiter s k r err'' now)"
  "sameSize s (handleAircraftCommandResultFrom s b ares now)"
  by (simp_all add: sameSize_def afterOperationSend_def awaitOperationEnded_def
      finishOperationCommand_def markOperationCommandDelivered_def completeOperation_def
      handleOperationContextCommandAckFrom_def handleOperationContextCommandAck_def applyContext_def
      finishAircraftCommand_def completeAircraft_def takeAircraftCommandResult_def
      cancelAircraftCommandWaiter_def handleAircraftCommandResultFrom_def
      handleAircraftCommandResult_def Let_def split: option.split)

lemma sameSize_mission:
  "sameSize s (snd (failMissionDeploymentReservation s k r err now))"
  "sameSize s (recordMissionDelivery s k r attempted)"
  "sameSize s (missionSendFailed s dm r attempted serr now)"
  "sameSize s (snd (takeMissionDeploymentResult s r))"
  "sameSize s (cancelMissionDeploymentWaiter s k r now)"
  "sameSize s (snd (commitMissionDelivery s k r))"
  "sameSize s (handleMissionDeploymentResultFrom s b mres now)"
  "sameSize s (recordSend b m s)"
  "sameSize s (missionWaiterGone r s)" "sameSize s (cancelMissionAdmission r s)"
  by (simp_all add: sameSize_def missionWaiterGone_def cancelMissionAdmission_def updAdmission_def failMissionDeploymentReservation_def recordMissionDelivery_def
      missionSendFailed_def finishMissionDeployment_def takeMissionDeploymentResult_def
      cancelMissionDeploymentWaiter_def commitMissionDelivery_def recordSend_def
      handleMissionDeploymentResultFrom_def handleMissionDeploymentResult_def Let_def split: option.split)

lemma sameSize_small:
  "sameSize s (snd (clearContextReserve c s))" "sameSize s (clearContextRelease c s)"
  "sameSize s (releaseGate s)" "sameSize s (touchHeartbeat now s)" "takeGate s = Some s' \<Longrightarrow> sameSize s s'"
  by (auto simp: sameSize_def clearContextReserve_def reserveEmptyContextReconciliation_def
      clearContextRelease_def releaseEmptyContextReconciliation_def releaseGate_def
      touchHeartbeat_def takeGate_def split: if_splits bool.splits)

lemma sameSize_written:
  "sendOnSelected b lockErr e2 None serr msg s = (out, s') \<Longrightarrow> sameSize s s'"
  "sendOnSelected b lockErr e2 (Some (\<lambda>s. commitMissionDelivery s k r)) serr msg s = (out, s') \<Longrightarrow>
     sameSize s s'"
  using sameSize_mission(6) [of s k r]
  by (auto simp: sendOnSelected_def sameSize_def recordSend_def split: option.splits if_splits prod.splits bool.splits)

lemma step_size: "sessionStep s s' \<Longrightarrow> retired s \<Longrightarrow> sameSize s s'"
  by (induction rule: sessionStep.induct)
    (simp_all add: sameSize_finishes sameSize_mission sameSize_small sameSize_written sendOnStream_def)

lemma step_ok:
  assumes "sessionStep s s'" "sessionOk s"
  shows "sessionOk s'"
proof -
  have wf: "wf_session s" using assms(2) by (simp add: sessionOk_def)
  have k: "keeps s s'" using step_keeps [OF assms(1) wf] .
  have "retired s' \<longrightarrow> allDone s'"
    using k assms(2) step_size [OF assms(1)]
    by (auto simp: keeps_def settles_def sameShell_def allDone_def sessionOk_def sameSize_def
        opFinal_def acFinal_def mdFinal_def)
  moreover have "bindingsOk s'"
    using k assms(2) by (simp add: keeps_def sameShell_def bindingsOk_def sessionOk_def)
  ultimately show ?thesis using step_wf [OF assms(1) wf] by (simp add: sessionOk_def)
qed

section \<open>The steps of the Relay\<close>

inductive relayStep :: "Relay \<Rightarrow> Relay \<Rightarrow> bool" where
  Register: "aid \<noteq> [] \<Longrightarrow> relayStep r (snd (registerIteration r aid sid previous e1 e2 now))"
| Bind: "relayStep r (snd (updateStream r aid sid p now))"
| PublishFailed: "p < sessNext r \<Longrightarrow> relayStep r (updSession p (publicationFailed b) r)"
| Publish: "p < sessNext r \<Longrightarrow>
    relayStep r (updSession p (\<lambda>s. snd (publicationCommit b isActive now s)) r)"
| Close: "aid \<noteq> [] \<Longrightarrow> relayStep r (deleteStream r aid p b now)"
| Reported: "registryReporter r = Some rpt \<Longrightarrow> relayStep r (r\<lparr>registryReporter := Some rpt'\<rparr>)"
| InSession: "p < sessNext r \<Longrightarrow> sessionStep (sessHeap r p) s' \<Longrightarrow>
    relayStep r (updSession p (\<lambda>_. s') r)"

inductive relayReach :: "Relay \<Rightarrow> bool" where
  start: "relayReach (newRelayState reporter authn authz mappings rid routes)"
| step: "relayReach r \<Longrightarrow> relayStep r r' \<Longrightarrow> relayReach r'"

lemma relayOk_reporter [simp]: "relayOk (r\<lparr>registryReporter := x\<rparr>) = relayOk r"
  by (simp add: relayOk_def ownershipOk_def)

lemma relayStep_ok: "relayStep r r' \<Longrightarrow> relayOk r \<Longrightarrow> relayOk r'"
proof (induction rule: relayStep.induct)
  case (InSession p r s')
  have ok: "sessionOk (sessHeap r p)" using relayOkD(5) [OF InSession.prems InSession.hyps(1)] .
  have "keeps (sessHeap r p) s'"
    using step_keeps [OF InSession.hyps(2)] ok by (simp add: sessionOk_def)
  then show ?case
    using step_ok [OF InSession.hyps(2) ok] InSession
    by (intro relayOk_session) (simp_all add: keeps_def sameShell_def)
qed (simp_all add: relayOk_register relayOk_updateStream relayOk_deleteStream relayOk_upd
    publicationFailed_ok publicationCommit_ok)

lemma relayReach_ok: "relayReach r \<Longrightarrow> relayOk r"
  by (induction rule: relayReach.induct) (auto intro: relayOk_new relayStep_ok)

lemma settles_refl [simp]: "settles s s" by (simp add: settles_def)

lemma settles_trans: "settles a b \<Longrightarrow> settles b c \<Longrightarrow> settles a c"
  unfolding settles_def opFinal_def acFinal_def mdFinal_def by fastforce

lemma settles_abort: "settles s (abortCommands a b c now s)"
  by (auto simp: settles_def abortCommands_def abortLoop_apply opFinish_def acFinish_def)

lemma settles_frame [simp]:
  "settles s (s'\<lparr>retired := x\<rparr>) = settles s s'" "settles s (s'\<lparr>stream := y\<rparr>) = settles s s'"
  "settles s (s'\<lparr>pendingStream := y\<rparr>) = settles s s'"
  "settles s (s'\<lparr>operationContextUnreconciled := x\<rparr>) = settles s s'"
  "settles s (s'\<lparr>bindings := h\<rparr>) = settles s s'" "settles s (s'\<lparr>bindingNext := n\<rparr>) = settles s s'"
  "settles s (s'\<lparr>streamGeneration := g\<rparr>) = settles s s'"
  "settles (s\<lparr>retired := x\<rparr>) s' = settles s s'" "settles (s\<lparr>stream := y\<rparr>) s' = settles s s'"
  "settles (s\<lparr>pendingStream := y\<rparr>) s' = settles s s'" "settles (s\<lparr>bindings := h\<rparr>) s' = settles s s'"
  "settles (s\<lparr>bindingNext := n\<rparr>) s' = settles s s'" "settles (s\<lparr>streamGeneration := g\<rparr>) s' = settles s s'"
  by (simp_all add: settles_def)

lemma settles_abortPending: "settles s (abortPendingCommandsLocked s now)"
  by (simp add: abortPendingCommandsLocked_def settles_abort)

lemma settles_replacement: "settles s (abortPendingCommandsForStreamReplacement s now)"
  by (simp add: abortPendingCommandsForStreamReplacement_def Let_def settles_abort)

definition relaySettles :: "Relay \<Rightarrow> Relay \<Rightarrow> bool" where
  "relaySettles r r' \<longleftrightarrow> sessNext r \<le> sessNext r' \<and>
     (\<forall>p < sessNext r. settles (sessHeap r p) (sessHeap r' p) \<and>
        SessionID (sessHeap r' p) = SessionID (sessHeap r p) \<and>
        agentID (sessHeap r' p) = agentID (sessHeap r p) \<and>
        (retired (sessHeap r p) \<longrightarrow> retired (sessHeap r' p)))"

lemma relaySettles_refl [simp]: "relaySettles r r"
  by (simp add: relaySettles_def)

lemma relaySettles_trans: "relaySettles a b \<Longrightarrow> relaySettles b c \<Longrightarrow> relaySettles a c"
proof -
  assume ab: "relaySettles a b" and bc: "relaySettles b c"
  have "settles (sessHeap a p) (sessHeap c p) \<and> SessionID (sessHeap c p) = SessionID (sessHeap a p) \<and>
      agentID (sessHeap c p) = agentID (sessHeap a p) \<and>
      (retired (sessHeap a p) \<longrightarrow> retired (sessHeap c p))" if "p < sessNext a" for p
    using ab bc that settles_trans [of "sessHeap a p" "sessHeap b p" "sessHeap c p"]
    by (simp add: relaySettles_def)
  with ab bc show ?thesis by (simp add: relaySettles_def)
qed

lemma relaySettles_upd:
  assumes "settles (sessHeap r p) (f (sessHeap r p))" "SessionID (f (sessHeap r p)) = SessionID (sessHeap r p)"
    "agentID (f (sessHeap r p)) = agentID (sessHeap r p)"
    "retired (sessHeap r p) \<longrightarrow> retired (f (sessHeap r p))"
  shows "relaySettles r (updSession p f r)"
  using assms by (simp add: relaySettles_def updSession_def)

lemma abortPending_same [simp]:
  "SessionID (abortPendingCommandsLocked s now) = SessionID s"
  "agentID (abortPendingCommandsLocked s now) = agentID s"
  "retired (abortPendingCommandsLocked s now) = retired s"
  by (simp_all add: abortPendingCommandsLocked_def abortCommands_def)

lemma replacement_same' [simp]:
  "SessionID (abortPendingCommandsForStreamReplacement s now) = SessionID s"
  by (simp add: abortPendingCommandsForStreamReplacement_def Let_def abortCommands_def)

lemma relaySettles_retire: "relaySettles r (snd (retireSession p now r))"
  unfolding retireSession_eq snd_conv
  using settles_abortPending [of "(sessHeap r p)\<lparr>retired := True\<rparr>" now]
  by (intro relaySettles_upd) simp_all

lemma relaySettles_frame [simp]:
  "relaySettles r (stopLiveness aid r') = relaySettles r r'"
  "relaySettles r (r'\<lparr>disconnectedOperationContexts := c\<rparr>) = relaySettles r r'"
  "relaySettles r (r'\<lparr>grpcSessions := g\<rparr>) = relaySettles r r'"
  "relaySettles r (r'\<lparr>registryReporter := x\<rparr>) = relaySettles r r'"
  by (simp_all add: relaySettles_def stopLiveness_def)

lemma relaySettles_publish: "relaySettles r r' \<Longrightarrow> relaySettles r (publishSession aid s r')"
  by (auto simp: relaySettles_def publishSession_def)

lemma relaySettles_register: "relaySettles r (snd (registerIteration r aid sid previous e1 e2 now))"
proof -
  have "retireSession p now r = (snap, r1) \<Longrightarrow> relaySettles r r1" for p snap r1
    using relaySettles_retire [of r p now] by simp
  then show ?thesis
    by (auto simp: registerIteration_def Let_def relaySettles_publish split: option.split prod.split)
qed

lemma relaySettles_updateStream: "relaySettles r (snd (updateStream r aid sid p now))"
  by (auto simp: updateStream_def bindStream_def Let_def split: prod.split
      intro!: relaySettles_upd settles_trans [OF _ settles_replacement])

lemma settles_closeBinding: "settles s (closeBinding b s)"
  by (simp add: closeBinding_def Let_def)

lemma relaySettles_deleteStream: "relaySettles r (deleteStream r aid p b now)"
proof -
  let ?r1 = "updSession p (closeBinding b) r"
  have r1: "relaySettles r ?r1"
    by (intro relaySettles_upd settles_closeBinding) (simp_all add: closeBinding_def Let_def)
  have "retireSession p now ?r1 = (snap, r2) \<Longrightarrow> relaySettles r r2" for snap r2
    using relaySettles_trans [OF r1 relaySettles_retire [of ?r1 p now]] by simp
  with r1 show ?thesis by (auto simp: deleteStream_def Let_def split: prod.split)
qed

lemma relayStep_settles: "relayStep r r' \<Longrightarrow> relayOk r \<Longrightarrow> relaySettles r r'"
proof (induction rule: relayStep.induct)
  case (PublishFailed p r b)
  then show ?case by (intro relaySettles_upd) (simp_all add: publicationFailed_def)
next
  case (Publish p r b isActive now)
  then show ?case
    using settles_replacement by (intro relaySettles_upd)
      (auto simp: publicationCommit_def Let_def settles_trans [OF _ settles_replacement])
next
  case (InSession p r s')
  have "keeps (sessHeap r p) s'"
    using step_keeps [OF InSession.hyps(2)] relayOkD(5) [OF InSession.prems InSession.hyps(1)]
    by (simp add: sessionOk_def)
  then show ?case by (intro relaySettles_upd) (simp_all add: keeps_def sameShell_def)
qed (simp_all add: relaySettles_register relaySettles_updateStream relaySettles_deleteStream)

inductive relayRun :: "Relay \<Rightarrow> Relay \<Rightarrow> bool" where
  here: "relayRun r r"
| later: "relayRun r r' \<Longrightarrow> relayStep r' r'' \<Longrightarrow> relayRun r r''"

lemma relayRun_reach: "relayRun r r' \<Longrightarrow> relayReach r \<Longrightarrow> relayReach r'"
  by (induction rule: relayRun.induct) (auto intro: relayReach.step)

lemma relayRun_settles: "relayRun r r' \<Longrightarrow> relayReach r \<Longrightarrow> relaySettles r r'"
proof (induction rule: relayRun.induct)
  case (later r r' r'')
  then have "relayOk r'" using relayRun_reach relayReach_ok by blast
  with later show ?case using relaySettles_trans relayStep_settles by blast
qed simp

lemma boundRelay_reach: "relayReach boundRelay"
  unfolding boundRelay_def registeredRelay_def emptyRelay_def
  by (intro relayReach.step [OF relayReach.step [OF relayReach.start relayStep.Register] relayStep.Bind]) simp

section \<open>Properties\<close>

text \<open>C1: Whatever the interleaving of registrations, stream bindings, publications, closes and the
  handlers and tasks of the sessions: an Agent ID is owned by at most one session, which carries
  that ID and is not retired, every other session is retired, and in a retired session no command of
  any kind is still in flight.\<close>

theorem one_live_session_per_agent:
  assumes "relayReach r" "p < sessNext r"
  shows "mget (grpcSessions r) (agentID (sessHeap r p)) = Some p \<and> \<not> retired (sessHeap r p) \<and>
      (\<forall>aid q. mget (grpcSessions r) aid = Some q \<longrightarrow> q < sessNext r \<and> agentID (sessHeap r q) = aid)
    \<or> retired (sessHeap r p) \<and> (\<forall>aid. mget (grpcSessions r) aid \<noteq> Some p) \<and>
      (\<forall>i < opNext (sessHeap r p). op_completed (opHeap (sessHeap r p) i)) \<and>
      (\<forall>i < acNext (sessHeap r p). ac_completed (acHeap (sessHeap r p) i)) \<and>
      (\<forall>i < mdNext (sessHeap r p). md_completed (mdHeap (sessHeap r p) i))"
proof -
  have ok: "relayOk r" using relayReach_ok assms(1) .
  show ?thesis
  proof (cases "retired (sessHeap r p)")
    case True
    then show ?thesis
      using ok relayOkD(5) [OF ok assms(2)] by (auto simp: relayOk_def ownershipOk_def sessionOk_def allDone_def)
  next
    case False
    then show ?thesis using ok assms(2) by (auto simp: relayOk_def ownershipOk_def)
  qed
qed

lemma one_live_session_per_agent_witness:
  "mget (grpcSessions boundRelay) (agentID (sessHeap boundRelay 0)) = Some 0"
proof -
  have "0 < sessNext boundRelay" by simp
  from one_live_session_per_agent [OF boundRelay_reach this] show ?thesis by simp
qed

text \<open>C2: Once a command of any kind has completed, nothing that happens later changes its
  outcome: not a late or duplicate acknowledgement, not a waiter giving up, not the replacement of
  the stream, not the retirement of the session.  Sessions keep their identity, and a retired
  session stays retired.\<close>

theorem outcomes_are_final:
  assumes "relayReach r" "relayRun r r'" "p < sessNext r"
  shows "(\<forall>i < opNext (sessHeap r p). op_completed (opHeap (sessHeap r p) i) \<longrightarrow>
      op_completed (opHeap (sessHeap r' p) i) \<and>
      operationCommandResult (sessHeap r' p) i = operationCommandResult (sessHeap r p) i) \<and>
    (\<forall>i < acNext (sessHeap r p). ac_completed (acHeap (sessHeap r p) i) \<longrightarrow>
      ac_completed (acHeap (sessHeap r' p) i) \<and>
      fst (takeAircraftCommandResult (sessHeap r' p) i) = fst (takeAircraftCommandResult (sessHeap r p) i)) \<and>
    (\<forall>i < mdNext (sessHeap r p). md_completed (mdHeap (sessHeap r p) i) \<longrightarrow>
      md_completed (mdHeap (sessHeap r' p) i) \<and>
      fst (takeMissionDeploymentResult (sessHeap r' p) i) = fst (takeMissionDeploymentResult (sessHeap r p) i)) \<and>
    SessionID (sessHeap r' p) = SessionID (sessHeap r p) \<and>
    (retired (sessHeap r p) \<longrightarrow> retired (sessHeap r' p))"
  using relayRun_settles [OF assms(2,1)] assms(3)
  by (auto simp: relaySettles_def settles_def opFinal_def acFinal_def mdFinal_def
      operationCommandResult_def takeAircraftCommandResult_def takeMissionDeploymentResult_def Let_def)

text \<open>The stream of the example Agent is closed after its bound.\<close>

lemma outcomes_are_final_witness:
  "SessionID (sessHeap (deleteStream boundRelay ''a1'' 0 0 3000) 0) = ''s1''"
proof -
  have "relayRun boundRelay (deleteStream boundRelay ''a1'' 0 0 3000)"
    by (rule relayRun.later [OF relayRun.here relayStep.Close]) simp
  from outcomes_are_final [OF boundRelay_reach this, of 0] show ?thesis by simp
qed

text \<open>C4: No reachable state has closed a command's \<open>done\<close> channel twice, so the Relay cannot panic
  on a second \<open>close\<close>: the channel of every command of every session is closed exactly when the
  command has completed.  The tables never exceed 4096 entries, an ID is retained under one kind
  only, and the pending acknowledgement channels are exactly those of the operation commands in
  flight.\<close>

theorem done_closed_once:
  assumes "relayReach r" "p < sessNext r"
  shows "(\<forall>i. op_closes (opHeap (sessHeap r p) i) = (if op_completed (opHeap (sessHeap r p) i) then 1 else 0)) \<and>
    (\<forall>i. ac_closes (acHeap (sessHeap r p) i) = (if ac_completed (acHeap (sessHeap r p) i) then 1 else 0)) \<and>
    (\<forall>i. md_closes (mdHeap (sessHeap r p) i) = (if md_completed (mdHeap (sessHeap r p) i) then 1 else 0)) \<and>
    length (operationCommands (sessHeap r p)) \<le> maxOperationCommands \<and>
    length (aircraftCommands (sessHeap r p)) \<le> maxOperationCommands \<and>
    length (missionDeployments (sessHeap r p)) \<le> maxOperationCommands \<and>
    disjointKinds (sessHeap r p) \<and> pending (sessHeap r p) = liveOperationIDs (sessHeap r p)"
proof -
  have "wf_session (sessHeap r p)"
    using relayOkD(5) [OF relayReach_ok [OF assms(1)] assms(2)] by (simp add: sessionOk_def)
  then show ?thesis
    using liveOperationIDs_pending [of "sessHeap r p"]
    by (simp add: wf_session_def closedOnce_def tableOk_def)
qed

lemma done_closed_once_witness:
  "pending (sessHeap boundRelay 0) = liveOperationIDs (sessHeap boundRelay 0)"
proof -
  have "0 < sessNext boundRelay" by simp
  from done_closed_once [OF boundRelay_reach this] show ?thesis by simp
qed

end
