(* ===== verification/Handlers.thy ===== *)
theory Handlers
  imports Runs Reporter
begin

text \<open>
  The RPC handlers and the goroutines they start, whole (\<open>internal/relay/apiserver.go\<close>,
  \<open>mission_deployment.go\<close>, \<open>gatewayserver.go\<close>, \<open>streams.go\<close>).  A task is a handler or goroutine at
  one of its critical sections; its step function runs that section and says where the task goes
  next, or \<open>None\<close> while the task is blocked.  The read leases of \<open>ownershipMu\<close> and
  \<open>controlStreamMu\<close>, \<open>publicationMu\<close> and the token of the operation gate belong to the tasks that
  hold them.
\<close>

section \<open>What a section observes\<close>

text \<open>The digests of the messages, and UUID parsing, are outside the repository.\<close>

record codec =
  dg_op :: "relayMsg \<Rightarrow> string option"
  dg_ac :: "aircraftCommand \<Rightarrow> string option"
  dg_md :: "deployMissionCommand \<Rightarrow> string option"
  dg_plan :: "missionPlan \<Rightarrow> string + string"
  cd_uuid :: "string \<Rightarrow> string option"

datatype agentMessage = AckMessage contextAck | AircraftMessage aircraftResult
  | MissionMessage missionResult | FrameMessage TelemetryFrame | OtherMessage

datatype received = RecvEOF | RecvFailed goerror | RecvMessage agentMessage

text \<open>The clock, the task's context at the two reads a section may make, the outcome of waiting for
  a binding's send lock, what \<open>Send\<close>, the Registry, \<open>Recv\<close>, the routes and the random source
  return.\<close>

record observation =
  ob_now :: gotime
  ob_ctx :: "ctxErr option"
  ob_ctx2 :: "ctxErr option"
  ob_lock :: "ctxErr option"
  ob_send :: "goerror option"
  ob_registry :: "goerror option"
  ob_recv :: received
  ob_raw :: "string option"
  ob_routes :: "RouteError list"
  ob_random :: "string + string"

definition putSession :: "nat \<Rightarrow> DroneSession \<Rightarrow> Relay \<Rightarrow> Relay" where
  "putSession p s r = updSession p (\<lambda>_. s) r"

text \<open>\<open>acquireOperationCommandSlot\<close>: \<open>None\<close> while neither the token nor the end of the context is
  there; when both are, \<open>select\<close> takes either.\<close>

definition acquireOperationCommandSlot ::
  "ctxErr option \<Rightarrow> nat \<Rightarrow> Relay \<Rightarrow> (goerror + Relay) option" where
  "acquireOperationCommandSlot ctx p r =
     (case ctx of
        Some e \<Rightarrow> Some (Inl (fromContextError e))
      | None \<Rightarrow> map_option (\<lambda>s. Inr (putSession p s r)) (takeGate (sessHeap r p)))"

definition changedBeforeDelivery :: goerror where
  "changedBeforeDelivery = Status Aborted ''agent session changed before operation-context delivery''"

section \<open>The send loop\<close>

text \<open>\<open>sendToSessionWithWritePolicyAndCommit\<close>, resumable: at the loop head, with a binding chosen,
  or with \<open>Send\<close> returned or given up.\<close>

datatype sendState = Sending "nat option" | Sent bool "goerror option"

definition sendStep ::
  "ctxErr option \<Rightarrow> ctxErr option \<Rightarrow> (DroneSession \<Rightarrow> bool \<times> DroneSession) option \<Rightarrow>
    goerror option \<Rightarrow> relayMsg \<Rightarrow> nat option \<Rightarrow> DroneSession \<Rightarrow> sendState \<times> DroneSession" where
  "sendStep ctx lockErr commit sendErr msg binding s =
     (case binding of
        None \<Rightarrow> (case selectBinding s ctx of
            Inl e \<Rightarrow> (Sent False (Some e), s)
          | Inr b \<Rightarrow> (Sending (Some b), s))
      | Some b \<Rightarrow> (case sendOnSelected b lockErr ctx commit sendErr msg s of
            (SendAgain, s1) \<Rightarrow> (Sending None, s1)
          | (SendReturned attempted err, s1) \<Rightarrow> (Sent attempted err, s1)))"

text \<open>The context of a delivery, which its state cancels; waiting for the send lock fails only when
  it is cancelled.\<close>

definition deliveryCtx :: "bool \<Rightarrow> ctxErr option" where
  "deliveryCtx cancelled = (if cancelled then Some CtxCanceled else None)"

definition deliveryLock :: "bool \<Rightarrow> ctxErr option \<Rightarrow> ctxErr option" where
  "deliveryLock cancelled lockErr = (if lockErr = None then None else deliveryCtx cancelled)"

text \<open>The fingerprint and \<open>beginOperationCommand\<close>.\<close>

definition admitOperation ::
  "codec \<Rightarrow> gotime \<Rightarrow> string \<Rightarrow> relayMsg \<Rightarrow> operationContext option \<Rightarrow> DroneSession \<Rightarrow>
    (goerror + nat \<times> bool) \<times> DroneSession" where
  "admitOperation cd now commandID msg expected s =
     (case dg_op cd msg of
        None \<Rightarrow> (Inl (Status Internal ''fingerprint operation-context command''), s)
      | Some f \<Rightarrow> beginOperationCommand s commandID f expected now)"

section \<open>The tasks\<close>

text \<open>Each handler by where it is.  The Agent ID, the command, the session and the command state it
  works on are carried along; \<open>Queued\<close> waits for the gate, \<open>Leased\<close> holds the ownership lease.\<close>

datatype setContextTask =
    SetCalled "peerInfo option" string "setContextCommand option"
  | SetQueued string setContextCommand nat
  | SetSlot string setContextCommand nat
  | SetDelivering string setContextCommand nat nat sendState
  | SetAwaiting string setContextCommand nat nat bool
  | SetReplying string setContextCommand nat "contextAck option \<times> goerror option"
  | SetLeaving setContextCommand nat "goerror + contextAck option"
  | SetReturned "goerror + contextAck option"

datatype clearContextTask =
    ClearCalled "peerInfo option" string "clearContextCommand option"
  | ClearQueued string clearContextCommand nat
  | ClearSlot string clearContextCommand nat
  | ClearReserved string clearContextCommand nat
  | ClearLeased string clearContextCommand nat "operationContext option"
  | ClearDelivering string clearContextCommand nat nat sendState
  | ClearAwaiting string clearContextCommand nat nat bool
  | ClearReplying string clearContextCommand nat "contextAck option \<times> goerror option"
  | ClearUnwinding clearContextCommand nat "goerror + contextAck option"
  | ClearLeaving clearContextCommand nat "goerror + contextAck option"
  | ClearReturned "goerror + contextAck option"

datatype aircraftTask =
    AircraftCalled "peerInfo option" string "aircraftCommand option"
  | AircraftChosen string aircraftCommand nat
  | AircraftLeased string aircraftCommand nat
  | AircraftAwaiting aircraftCommand nat nat
  | AircraftReturned "goerror + aircraftResult"

datatype aircraftSendTask =
    AircraftSending aircraftCommand nat nat sendState
  | AircraftSendEnded

datatype deployTask =
    DeployCalled "peerInfo option" string "deployMissionCommand option"
  | DeployChosen string deployMissionCommand nat
  | DeployLeased string deployMissionCommand nat
  | DeployQueued string deployMissionCommand nat
  | DeploySlot string deployMissionCommand nat
  | DeploySlotLeased string deployMissionCommand nat
  | DeployFencing string deployMissionCommand nat
  | DeployAdmitting string deployMissionCommand nat
  | DeployYielding string deployMissionCommand nat nat bool
  | DeployAwaiting deployMissionCommand nat nat bool
  | DeployLeaving nat "goerror + missionResult"
  | DeployReturned "goerror + missionResult"

datatype missionSendTask =
    MissionSending deployMissionCommand nat nat sendState
  | MissionFailing deployMissionCommand nat nat bool "goerror option"
  | MissionSendEnded

datatype missionWaiterTask = WaiterWatching nat nat | WaiterGone

datatype reservationTask =
    ReservationQueued string nat nat
  | ReservationSlot string nat nat
  | ReservationLeased string nat nat
  | ReservationFencing string nat nat
  | ReservationAdmitting string nat nat
  | ReservationFailing nat nat goerror bool
  | ReservationWaiting nat nat
  | ReservationLeaving nat nat
  | ReservationEnding nat nat
  | ReservationEnded

datatype registerTask =
    RegisterCalled string "metadata option"
  | RegisterReading string string
  | RegisterReplacing string string "nat option"
  | RegisterReturned "goerror + string \<times> string"

datatype streamTask =
    StreamCalled "metadata option"
  | StreamIdentified string string
  | StreamFound string string nat
  | StreamChecking string nat nat
  | StreamAnnouncing string nat nat bool
  | StreamAnnounced string nat nat bool nat nat
  | StreamCommitting string nat nat bool
  | StreamUnpublished string nat nat goerror
  | StreamLoop string nat nat
  | StreamAcking string nat nat telemetryAck
  | StreamClosing string nat nat "goerror option"
  | StreamReturned "goerror option"

datatype task =
    SetContextTask setContextTask
  | ClearContextTask clearContextTask
  | AircraftTask aircraftTask
  | AircraftSendTask aircraftSendTask
  | DeployTask deployTask
  | MissionSendTask missionSendTask
  | MissionWaiterTask missionWaiterTask
  | ReservationTask reservationTask
  | RegisterTask registerTask
  | StreamTask streamTask

section \<open>The operation-context handlers\<close>

fun setContextStep ::
  "codec \<Rightarrow> observation \<Rightarrow> Relay \<Rightarrow> setContextTask \<Rightarrow> (setContextTask \<times> Relay) option" where
  "setContextStep cd ob r (SetCalled remote agent command) = Some
     (case setContextPrelude r remote agent command of
        Inl e \<Rightarrow> (SetReturned (Inl e), r)
      | Inr (aid, c) \<Rightarrow> (case currentControlSession r aid of
            Inl e \<Rightarrow> (SetReturned (Inl e), r)
          | Inr p \<Rightarrow> (SetQueued aid c p, r)))"
| "setContextStep cd ob r (SetQueued aid c p) =
     (case acquireOperationCommandSlot (ob_ctx ob) p r of
        None \<Rightarrow> None
      | Some (Inl e) \<Rightarrow> Some (SetReturned (Inl e), r)
      | Some (Inr r1) \<Rightarrow> Some (SetSlot aid c p, r1))"
| "setContextStep cd ob r (SetSlot aid c p) = Some
     (if \<not> sessionIsCurrent r aid p then (SetLeaving c p (Inl changedBeforeDelivery), r)
      else case admitOperation cd (ob_now ob) (sc_CommandId c) (SetOperationContextMsg c) (sc_Context c)
                  (sessHeap r p) of
        (Inl e, s) \<Rightarrow> (SetLeaving c p (Inl e), putSession p s r)
      | (Inr (i, True), s) \<Rightarrow> (SetDelivering aid c p i (Sending None), putSession p s r)
      | (Inr (i, False), s) \<Rightarrow> (SetAwaiting aid c p i False, putSession p s r))"
| "setContextStep cd ob r (SetDelivering aid c p i (Sending binding)) = Some
     (case sendStep (ob_ctx ob) (ob_lock ob) None (ob_send ob) (SetOperationContextMsg c) binding
             (sessHeap r p) of
        (st, s) \<Rightarrow> (SetDelivering aid c p i st, putSession p s r))"
| "setContextStep cd ob r (SetDelivering aid c p i (Sent attempted err)) = Some
     (SetAwaiting aid c p i True,
      putSession p (afterOperationSend (sessHeap r p) (sc_CommandId c) i attempted err (ob_now ob)) r)"
| "setContextStep cd ob r (SetAwaiting aid c p i owner) =
     (case ob_ctx ob of
        Some e \<Rightarrow> (case awaitOperationEnded (sessHeap r p) (sc_CommandId c) i owner e (ob_now ob) of
            (err, s) \<Rightarrow> Some (SetLeaving c p (Inl err), putSession p s r))
      | None \<Rightarrow> (case awaitOperationDone (sessHeap r p) i of
            None \<Rightarrow> None
          | Some res \<Rightarrow> Some (SetReplying aid c p res, r)))"
| "setContextStep cd ob r (SetReplying aid c p res) = Some
     (SetLeaving c p (contextReply r aid p ''applying'' res), r)"
| "setContextStep cd ob r (SetLeaving c p res) = Some
     (SetReturned res, putSession p (releaseGate (sessHeap r p)) r)"
| "setContextStep cd ob r (SetReturned res) = None"

fun clearContextStep ::
  "codec \<Rightarrow> observation \<Rightarrow> Relay \<Rightarrow> clearContextTask \<Rightarrow> (clearContextTask \<times> Relay) option" where
  "clearContextStep cd ob r (ClearCalled remote agent command) = Some
     (case clearContextPrelude r remote agent command of
        Inl e \<Rightarrow> (ClearReturned (Inl e), r)
      | Inr (aid, c) \<Rightarrow> (case currentControlSession r aid of
            Inl e \<Rightarrow> (ClearReturned (Inl e), r)
          | Inr p \<Rightarrow> (ClearQueued aid c p, r)))"
| "clearContextStep cd ob r (ClearQueued aid c p) =
     (case acquireOperationCommandSlot (ob_ctx ob) p r of
        None \<Rightarrow> None
      | Some (Inl e) \<Rightarrow> Some (ClearReturned (Inl e), r)
      | Some (Inr r1) \<Rightarrow> Some (ClearSlot aid c p, r1))"
| "clearContextStep cd ob r (ClearSlot aid c p) = Some
     (case clearContextReserve c (sessHeap r p) of
        (Some e, s) \<Rightarrow> (ClearLeaving c p (Inl e), putSession p s r)
      | (None, s) \<Rightarrow> (ClearReserved aid c p, putSession p s r))"
| "clearContextStep cd ob r (ClearReserved aid c p) = Some
     (if \<not> sessionIsCurrent r aid p then (ClearUnwinding c p (Inl changedBeforeDelivery), r)
      else (ClearLeased aid c p
        (expectedContextAfterClear (sessHeap r p) (cc_FlightId c) (cc_Authoritative c)), r))"
| "clearContextStep cd ob r (ClearLeased aid c p expected) = Some
     (case admitOperation cd (ob_now ob) (cc_CommandId c) (ClearOperationContextMsg c) expected
             (sessHeap r p) of
        (Inl e, s) \<Rightarrow> (ClearUnwinding c p (Inl e), putSession p s r)
      | (Inr (i, True), s) \<Rightarrow> (ClearDelivering aid c p i (Sending None), putSession p s r)
      | (Inr (i, False), s) \<Rightarrow> (ClearAwaiting aid c p i False, putSession p s r))"
| "clearContextStep cd ob r (ClearDelivering aid c p i (Sending binding)) = Some
     (case sendStep (ob_ctx ob) (ob_lock ob) None (ob_send ob) (ClearOperationContextMsg c) binding
             (sessHeap r p) of
        (st, s) \<Rightarrow> (ClearDelivering aid c p i st, putSession p s r))"
| "clearContextStep cd ob r (ClearDelivering aid c p i (Sent attempted err)) = Some
     (ClearAwaiting aid c p i True,
      putSession p (afterOperationSend (sessHeap r p) (cc_CommandId c) i attempted err (ob_now ob)) r)"
| "clearContextStep cd ob r (ClearAwaiting aid c p i owner) =
     (case ob_ctx ob of
        Some e \<Rightarrow> (case awaitOperationEnded (sessHeap r p) (cc_CommandId c) i owner e (ob_now ob) of
            (err, s) \<Rightarrow> Some (ClearUnwinding c p (Inl err), putSession p s r))
      | None \<Rightarrow> (case awaitOperationDone (sessHeap r p) i of
            None \<Rightarrow> None
          | Some res \<Rightarrow> Some (ClearReplying aid c p res, r)))"
| "clearContextStep cd ob r (ClearReplying aid c p res) = Some
     (ClearUnwinding c p (contextReply r aid p ''clearing'' res), r)"
| "clearContextStep cd ob r (ClearUnwinding c p res) = Some
     (ClearLeaving c p res, putSession p (clearContextRelease c (sessHeap r p)) r)"
| "clearContextStep cd ob r (ClearLeaving c p res) = Some
     (ClearReturned res, putSession p (releaseGate (sessHeap r p)) r)"
| "clearContextStep cd ob r (ClearReturned res) = None"

section \<open>Aircraft commands\<close>

text \<open>An admitted command starts its send task, which takes the ownership lease over.\<close>

fun aircraftStep ::
  "codec \<Rightarrow> observation \<Rightarrow> Relay \<Rightarrow> aircraftTask \<Rightarrow> (aircraftTask \<times> Relay \<times> task list) option" where
  "aircraftStep cd ob r (AircraftCalled remote agent command) = Some
     (case aircraftPrelude r remote agent command of
        Inl e \<Rightarrow> (AircraftReturned (Inl e), r, [])
      | Inr (aid, c, p) \<Rightarrow> (AircraftChosen aid c p, r, []))"
| "aircraftStep cd ob r (AircraftChosen aid c p) = Some
     (case lockCurrentMissionSession r aid p of
        Inl e \<Rightarrow> (AircraftReturned (Inl e), r, [])
      | Inr sid \<Rightarrow> (AircraftLeased aid c p, r, []))"
| "aircraftStep cd ob r (AircraftLeased aid c p) = Some
     (case beginAircraftCommandDelivery (sessHeap r p) c (dg_ac cd c) (ob_now ob) of
        (Inl e, s) \<Rightarrow> (AircraftReturned (Inl e), putSession p s r, [])
      | (Inr (i, owner), s) \<Rightarrow> (AircraftAwaiting c p i, putSession p s r,
          if owner then [AircraftSendTask (AircraftSending c p i (Sending None))] else []))"
| "aircraftStep cd ob r (AircraftAwaiting c p i) =
     (case ob_ctx ob of
        Some e \<Rightarrow> Some (AircraftReturned (Inl (fromContextError e)), putSession p
          (cancelAircraftCommandWaiter (sessHeap r p) (acmd_CommandId c) i (fromContextError e) (ob_now ob)) r,
          [])
      | None \<Rightarrow>
          if \<not> ac_completed (acHeap (sessHeap r p) i) then None
          else (case takeAircraftCommandResult (sessHeap r p) i of
            (res, s) \<Rightarrow> Some (AircraftReturned (aircraftReply c res), putSession p s r, [])))"
| "aircraftStep cd ob r (AircraftReturned res) = None"

fun aircraftSendStep ::
  "observation \<Rightarrow> Relay \<Rightarrow> aircraftSendTask \<Rightarrow> (aircraftSendTask \<times> Relay) option" where
  "aircraftSendStep ob r (AircraftSending c p i (Sending binding)) = Some
     (let cancelled = ac_cancelled (acHeap (sessHeap r p) i) in
      case sendStep (deliveryCtx cancelled) (deliveryLock cancelled (ob_lock ob)) None (ob_send ob)
             (AircraftCommandMsg c) binding (sessHeap r p) of
        (st, s) \<Rightarrow> (AircraftSending c p i st, putSession p s r))"
| "aircraftSendStep ob r (AircraftSending c p i (Sent attempted err)) = Some
     (AircraftSendEnded,
      case err of None \<Rightarrow> r
      | Some e \<Rightarrow> putSession p
          (finishAircraftCommand (sessHeap r p) (acmd_CommandId c) i None (Some e) (ob_now ob)) r)"
| "aircraftSendStep ob r AircraftSendEnded = None"

section \<open>Mission deployments\<close>

text \<open>The watcher that \<open>add\<close> starts for a waiter of a reservation.\<close>

definition attachWatchers :: "DroneSession \<Rightarrow> nat \<Rightarrow> missionAttach \<Rightarrow> task list" where
  "attachWatchers s p res =
     (case res of
        Reserved i \<Rightarrow> [MissionWaiterTask (WaiterWatching p i)]
      | Attached i \<Rightarrow> if md_reserved (mdHeap s i) \<and> md_admission (mdHeap s i) \<noteq> None
          then [MissionWaiterTask (WaiterWatching p i)] else []
      | _ \<Rightarrow> [])"

definition attachStep ::
  "codec \<Rightarrow> observation \<Rightarrow> deployMissionCommand \<Rightarrow> DroneSession \<Rightarrow> missionAttach \<times> DroneSession" where
  "attachStep cd ob c s = attachMissionDeployment s c (dg_md cd c) (ob_ctx ob) (ob_ctx2 ob) (ob_now ob)"

fun deployStep ::
  "codec \<Rightarrow> observation \<Rightarrow> Relay \<Rightarrow> deployTask \<Rightarrow> (deployTask \<times> Relay \<times> task list) option" where
  "deployStep cd ob r (DeployCalled remote agent command) = Some
     (case missionPrelude (dg_plan cd) r remote agent command of
        Inl e \<Rightarrow> (DeployReturned (Inl e), r, [])
      | Inr (aid, c, p) \<Rightarrow> (DeployChosen aid c p, r, []))"
| "deployStep cd ob r (DeployChosen aid c p) = Some
     (case lockCurrentMissionSession r aid p of
        Inl e \<Rightarrow> (DeployReturned (Inl e), r, [])
      | Inr sid \<Rightarrow> (DeployLeased aid c p, r, []))"
| "deployStep cd ob r (DeployLeased aid c p) = Some
     (case attachStep cd ob c (sessHeap r p) of (res, s) \<Rightarrow>
        (case res of
           AttachFailed e \<Rightarrow> (DeployReturned (Inl e), putSession p s r, [])
         | Attached i \<Rightarrow> (DeployAwaiting c p i False, putSession p s r, attachWatchers (sessHeap r p) p res)
         | Reserved i \<Rightarrow> (DeployAwaiting c p i False, putSession p s r,
             attachWatchers (sessHeap r p) p res @ [ReservationTask (ReservationQueued aid p i)])
         | NotRetained \<Rightarrow> (DeployQueued aid c p, putSession p s r, [])))"
| "deployStep cd ob r (DeployQueued aid c p) =
     (case acquireOperationCommandSlot (ob_ctx ob) p r of
        None \<Rightarrow> None
      | Some (Inl e) \<Rightarrow> Some (DeployReturned (Inl e), r, [])
      | Some (Inr r1) \<Rightarrow> Some (DeploySlot aid c p, r1, []))"
| "deployStep cd ob r (DeploySlot aid c p) = Some
     (case lockCurrentMissionSession r aid p of
        Inl e \<Rightarrow> (DeployLeaving p (Inl e), r, [])
      | Inr sid \<Rightarrow> (DeploySlotLeased aid c p, r, []))"
| "deployStep cd ob r (DeploySlotLeased aid c p) = Some
     (case attachStep cd ob c (sessHeap r p) of (res, s) \<Rightarrow>
        (case res of
           AttachFailed e \<Rightarrow> (DeployLeaving p (Inl e), putSession p s r, [])
         | Attached i \<Rightarrow>
             (DeployYielding aid c p i False, putSession p s r, attachWatchers (sessHeap r p) p res)
         | Reserved i \<Rightarrow>
             (DeployYielding aid c p i True, putSession p s r, attachWatchers (sessHeap r p) p res)
         | NotRetained \<Rightarrow> (DeployFencing aid c p, putSession p s r, [])))"
| "deployStep cd ob r (DeployYielding aid c p i reserved) = Some
     (DeployAwaiting c p i False, putSession p (releaseGate (sessHeap r p)) r,
      if reserved then [ReservationTask (ReservationQueued aid p i)] else [])"
| "deployStep cd ob r (DeployFencing aid c p) = Some
     (case missionFence (sessHeap r p) c of
        Some e \<Rightarrow> (DeployLeaving p (Inl e), r, [])
      | None \<Rightarrow> (DeployAdmitting aid c p, r, []))"
| "deployStep cd ob r (DeployAdmitting aid c p) = Some
     (case beginMissionDeployment (sessHeap r p) c (dg_md cd c) None (ob_ctx ob) (ob_ctx2 ob) (ob_now ob) of
        (Inl e, s) \<Rightarrow> (DeployLeaving p (Inl e), putSession p s r, [])
      | (Inr (i, owner), s) \<Rightarrow> (DeployAwaiting c p i True, putSession p s r,
          if owner then [MissionSendTask (MissionSending c p i (Sending None))] else []))"
| "deployStep cd ob r (DeployAwaiting c p i gated) =
     (case ob_ctx ob of
        Some e \<Rightarrow> Some
          ((if gated then DeployLeaving p (Inl (fromContextError e))
            else DeployReturned (Inl (fromContextError e))),
           putSession p (cancelMissionDeploymentWaiter (sessHeap r p) (dm_CommandId c) i (ob_now ob)) r, [])
      | None \<Rightarrow>
          if \<not> missionDeploymentCompleted (sessHeap r p) i then None
          else (case takeMissionDeploymentResult (sessHeap r p) i of
            (res, s) \<Rightarrow> Some
              ((if gated then DeployLeaving p (missionReply res) else DeployReturned (missionReply res)),
               putSession p s r, [])))"
| "deployStep cd ob r (DeployLeaving p res) = Some
     (DeployReturned res, putSession p (releaseGate (sessHeap r p)) r, [])"
| "deployStep cd ob r (DeployReturned res) = None"

text \<open>The send task of an activated deployment: the loop with its commit callback, the record of the
  attempt, and the report of a failure.\<close>

fun missionSendStep ::
  "observation \<Rightarrow> Relay \<Rightarrow> missionSendTask \<Rightarrow> (missionSendTask \<times> Relay) option" where
  "missionSendStep ob r (MissionSending c p i (Sending binding)) = Some
     (let cancelled = (md_cancelled (mdHeap (sessHeap r p) i) = Some True) in
      case sendStep (deliveryCtx cancelled) (deliveryLock cancelled (ob_lock ob))
             (Some (\<lambda>s. commitMissionDelivery s (dm_CommandId c) i)) (ob_send ob)
             (DeployMissionMsg c) binding (sessHeap r p) of
        (st, s) \<Rightarrow> (MissionSending c p i st, putSession p s r))"
| "missionSendStep ob r (MissionSending c p i (Sent attempted err)) = Some
     (MissionFailing c p i attempted err,
      putSession p (recordMissionDelivery (sessHeap r p) (dm_CommandId c) i attempted) r)"
| "missionSendStep ob r (MissionFailing c p i attempted err) = Some
     (MissionSendEnded, putSession p (missionSendFailed (sessHeap r p) c i attempted err (ob_now ob)) r)"
| "missionSendStep ob r MissionSendEnded = None"

text \<open>The context of a reservation's admission.\<close>

definition admissionCtx :: "DroneSession \<Rightarrow> nat \<Rightarrow> ctxErr option" where
  "admissionCtx s i = deliveryCtx
     (case md_admission (mdHeap s i) of None \<Rightarrow> False | Some a \<Rightarrow> adm_cancelled a)"

fun missionWaiterStep ::
  "observation \<Rightarrow> Relay \<Rightarrow> missionWaiterTask \<Rightarrow> (missionWaiterTask \<times> Relay) option" where
  "missionWaiterStep ob r (WaiterWatching p i) =
     (if ob_ctx ob \<noteq> None then Some (WaiterGone, putSession p (missionWaiterGone i (sessHeap r p)) r)
      else if admissionCtx (sessHeap r p) i \<noteq> None then Some (WaiterGone, r)
      else None)"
| "missionWaiterStep ob r WaiterGone = None"

text \<open>The worker of a reservation.  When the token is there and its context has ended, \<open>select\<close> takes
  either: \<open>ob_ctx\<close> says which.\<close>

definition reservedCommand :: "DroneSession \<Rightarrow> nat \<Rightarrow> deployMissionCommand" where
  "reservedCommand s i = the (md_command (mdHeap s i))"

fun reservationStep ::
  "codec \<Rightarrow> observation \<Rightarrow> Relay \<Rightarrow> reservationTask \<Rightarrow>
    (reservationTask \<times> Relay \<times> task list) option" where
  "reservationStep cd ob r (ReservationQueued aid p i) =
     (case acquireOperationCommandSlot
             (if ob_ctx ob = None then None else admissionCtx (sessHeap r p) i) p r of
        None \<Rightarrow> None
      | Some (Inl e) \<Rightarrow> Some (ReservationFailing p i e False, r, [])
      | Some (Inr r1) \<Rightarrow> Some (ReservationSlot aid p i, r1, []))"
| "reservationStep cd ob r (ReservationSlot aid p i) = Some
     (case lockCurrentMissionSession r aid p of
        Inl e \<Rightarrow> (ReservationFailing p i e True, r, [])
      | Inr sid \<Rightarrow> (ReservationLeased aid p i, r, []))"
| "reservationStep cd ob r (ReservationLeased aid p i) = Some
     (if missionDeploymentCompleted (sessHeap r p) i then (ReservationLeaving p i, r, [])
      else (ReservationFencing aid p i, r, []))"
| "reservationStep cd ob r (ReservationFencing aid p i) = Some
     (case reservationFence (sessHeap r p) (reservedCommand (sessHeap r p) i) of
        Some e \<Rightarrow> (ReservationFailing p i e True, r, [])
      | None \<Rightarrow> (ReservationAdmitting aid p i, r, []))"
| "reservationStep cd ob r (ReservationAdmitting aid p i) = Some
     (let c = reservedCommand (sessHeap r p) i; e1 = admissionCtx (sessHeap r p) i;
          e2 = (if e1 \<noteq> None then e1 else deliveryCtx (ob_ctx2 ob \<noteq> None)) in
      case beginMissionDeployment (sessHeap r p) c (dg_md cd c) (Some i) e1 e2 (ob_now ob) of
        (Inl e, s) \<Rightarrow> (ReservationFailing p i e True, putSession p s r, [])
      | (Inr (j, True), s) \<Rightarrow> (ReservationWaiting p i, putSession p s r,
          [MissionSendTask (MissionSending c p j (Sending None))])
      | (Inr (j, False), s) \<Rightarrow> (ReservationLeaving p i, putSession p s r, []))"
| "reservationStep cd ob r (ReservationFailing p i e gated) = Some
     ((if gated then ReservationLeaving p i else ReservationEnding p i),
      putSession p (snd (failMissionDeploymentReservation (sessHeap r p)
        (dm_CommandId (reservedCommand (sessHeap r p) i)) i e (ob_now ob))) r, [])"
| "reservationStep cd ob r (ReservationWaiting p i) =
     (if missionDeploymentCompleted (sessHeap r p) i \<or> admissionCtx (sessHeap r p) i \<noteq> None
      then Some (ReservationLeaving p i, r, []) else None)"
| "reservationStep cd ob r (ReservationLeaving p i) = Some
     (ReservationEnding p i, putSession p (releaseGate (sessHeap r p)) r, [])"
| "reservationStep cd ob r (ReservationEnding p i) = Some
     (ReservationEnded, putSession p (cancelMissionAdmission i (sessHeap r p)) r, [])"
| "reservationStep cd ob r ReservationEnded = None"

section \<open>The Agent's RPCs\<close>

fun registerStep ::
  "observation \<Rightarrow> Relay \<Rightarrow> registerTask \<Rightarrow> (registerTask \<times> Relay) option" where
  "registerStep ob r (RegisterCalled requested meta) = Some
     (case registerPrelude r requested meta (ob_random ob) of
        Inl e \<Rightarrow> (RegisterReturned (Inl e), r)
      | Inr (aid, sid) \<Rightarrow> (RegisterReading aid sid, r))"
| "registerStep ob r (RegisterReading aid sid) = Some
     (RegisterReplacing aid sid (mget (grpcSessions r) aid), r)"
| "registerStep ob r (RegisterReplacing aid sid previous) = Some
     (case registerIteration r aid sid previous (ob_ctx ob) (ob_ctx2 ob) (ob_now ob) of
        (RegisterAgain, r1) \<Rightarrow> (RegisterReading aid sid, r1)
      | (RegisterFailed e, r1) \<Rightarrow> (RegisterReturned (Inl e), r1)
      | (Registered p, r1) \<Rightarrow> (RegisterReturned (Inr (aid, sid)), r1))"
| "registerStep ob r (RegisterReturned res) = None"

text \<open>One message of the receive loop.\<close>

definition receiveStep ::
  "codec \<Rightarrow> observation \<Rightarrow> Relay \<Rightarrow> string \<Rightarrow> nat \<Rightarrow> nat \<Rightarrow> agentMessage \<Rightarrow> streamTask \<times> Relay" where
  "receiveStep cd ob r aid p b msg =
     (case msg of
        AckMessage ack \<Rightarrow> (StreamLoop aid p b,
          putSession p (handleOperationContextCommandAckFrom (sessHeap r p) b ack (ob_now ob)) r)
      | AircraftMessage res \<Rightarrow> (StreamLoop aid p b,
          putSession p (handleAircraftCommandResultFrom (sessHeap r p) b res (ob_now ob)) r)
      | MissionMessage res \<Rightarrow> (StreamLoop aid p b,
          putSession p (handleMissionDeploymentResultFrom (sessHeap r p) b res (ob_now ob)) r)
      | OtherMessage \<Rightarrow> (StreamLoop aid p b, r)
      | FrameMessage frame \<Rightarrow>
          (case processFrame (cd_uuid cd) r aid p frame (ob_raw ob) (ob_routes ob) (ob_now ob) of
             (ack, env, r1) \<Rightarrow> (StreamAcking aid p b ack, r1)))"

definition ackSendError :: "goerror \<Rightarrow> goerror" where
  "ackSendError e = Status Unknown (''failed to send ack: '' @ errText e)"

fun streamStep ::
  "codec \<Rightarrow> observation \<Rightarrow> Relay \<Rightarrow> streamTask \<Rightarrow> (streamTask \<times> Relay) option" where
  "streamStep cd ob r (StreamCalled meta) = Some
     (case streamIdentity r meta of
        Inl e \<Rightarrow> (StreamReturned (Some e), r)
      | Inr (aid, sid) \<Rightarrow> (StreamIdentified aid sid, r))"
| "streamStep cd ob r (StreamIdentified aid sid) = Some
     (case lookupStreamSession r aid sid of
        None \<Rightarrow> (StreamReturned (Some bindError), r)
      | Some p \<Rightarrow> (StreamFound aid sid p, r))"
| "streamStep cd ob r (StreamFound aid sid p) = Some
     (case updateStream r aid sid p (ob_now ob) of
        (Inl e, r1) \<Rightarrow> (StreamReturned (Some bindError), r1)
      | (Inr (b, previous), r1) \<Rightarrow>
          ((if registryReporter r = None then StreamLoop aid p b else StreamChecking aid p b), r1))"
| "streamStep cd ob r (StreamChecking aid p b) = Some
     (case publicationCheck r aid p b of
        Inl e \<Rightarrow> (StreamUnpublished aid p b e, r)
      | Inr isActive \<Rightarrow> (StreamAnnouncing aid p b isActive, r))"
| "streamStep cd ob r (StreamAnnouncing aid p b isActive) =
     (case registryReporter r of
        None \<Rightarrow> None
      | Some rpt \<Rightarrow> Some
          (case registerAgentBegin rpt aid of
             (Inl e, rpt1) \<Rightarrow> (StreamUnpublished aid p b e,
               putSession p (publicationFailed b (sessHeap r p)) r)
           | (Inr (g, a), rpt1) \<Rightarrow>
               (StreamAnnounced aid p b isActive g a, r\<lparr>registryReporter := Some rpt1\<rparr>)))"
| "streamStep cd ob r (StreamAnnounced aid p b isActive g a) =
     (case registryReporter r of
        None \<Rightarrow> None
      | Some rpt \<Rightarrow> Some
          (case registerAgentEnd rpt aid g a (ob_registry ob) (ob_now ob) of
             (Some e, rpt1) \<Rightarrow> (StreamUnpublished aid p b e,
               putSession p (publicationFailed b (sessHeap r p)) (r\<lparr>registryReporter := Some rpt1\<rparr>))
           | (None, rpt1) \<Rightarrow>
               (StreamCommitting aid p b isActive, r\<lparr>registryReporter := Some rpt1\<rparr>)))"
| "streamStep cd ob r (StreamCommitting aid p b isActive) = Some
     (case publicationCommit b isActive (ob_now ob) (sessHeap r p) of
        (Some e, s) \<Rightarrow> (StreamUnpublished aid p b e, putSession p s r)
      | (None, s) \<Rightarrow> (StreamLoop aid p b, putSession p s r))"
| "streamStep cd ob r (StreamUnpublished aid p b e) = Some
     (StreamReturned (Some (publicationError e)), deleteStream r aid p b (ob_now ob))"
| "streamStep cd ob r (StreamLoop aid p b) = Some
     (case ob_ctx ob of
        Some e \<Rightarrow> (StreamClosing aid p b (Some (CtxError e)), r)
      | None \<Rightarrow>
        (case ob_recv ob of
           RecvEOF \<Rightarrow> (StreamClosing aid p b None, r)
         | RecvFailed e \<Rightarrow> (StreamClosing aid p b (Some e), r)
         | RecvMessage msg \<Rightarrow> receiveStep cd ob r aid p b msg))"
| "streamStep cd ob r (StreamAcking aid p b ack) = Some
     ((case ob_send ob of
         None \<Rightarrow> StreamLoop aid p b
       | Some e \<Rightarrow> StreamClosing aid p b (Some (ackSendError e))),
      putSession p (sendOnStream b (TelemetryAckMsg ack) (sessHeap r p)) r)"
| "streamStep cd ob r (StreamClosing aid p b err) = Some
     (StreamReturned err, deleteStream r aid p b (ob_now ob))"
| "streamStep cd ob r (StreamReturned err) = None"

section \<open>The system\<close>

definition quiet :: "('a \<Rightarrow> task) \<Rightarrow> ('a \<times> Relay) option \<Rightarrow> (task \<times> Relay \<times> task list) option" where
  "quiet f x = map_option (\<lambda>(t, r). (f t, r, [])) x"

definition spawning ::
  "('a \<Rightarrow> task) \<Rightarrow> ('a \<times> Relay \<times> task list) option \<Rightarrow> (task \<times> Relay \<times> task list) option" where
  "spawning f x = map_option (\<lambda>(t, r, new). (f t, r, new)) x"

text \<open>The next section of a task: its next place, the Relay, and the goroutines it started.\<close>

fun taskStep ::
  "codec \<Rightarrow> observation \<Rightarrow> Relay \<Rightarrow> task \<Rightarrow> (task \<times> Relay \<times> task list) option" where
  "taskStep cd ob r (SetContextTask t) = quiet SetContextTask (setContextStep cd ob r t)"
| "taskStep cd ob r (ClearContextTask t) = quiet ClearContextTask (clearContextStep cd ob r t)"
| "taskStep cd ob r (AircraftTask t) = spawning AircraftTask (aircraftStep cd ob r t)"
| "taskStep cd ob r (AircraftSendTask t) = quiet AircraftSendTask (aircraftSendStep ob r t)"
| "taskStep cd ob r (DeployTask t) = spawning DeployTask (deployStep cd ob r t)"
| "taskStep cd ob r (MissionSendTask t) = quiet MissionSendTask (missionSendStep ob r t)"
| "taskStep cd ob r (MissionWaiterTask t) = quiet MissionWaiterTask (missionWaiterStep ob r t)"
| "taskStep cd ob r (ReservationTask t) = spawning ReservationTask (reservationStep cd ob r t)"
| "taskStep cd ob r (RegisterTask t) = quiet RegisterTask (registerStep ob r t)"
| "taskStep cd ob r (StreamTask t) = quiet StreamTask (streamStep cd ob r t)"

text \<open>The session whose gate a task holds.\<close>

fun gateOf :: "task \<Rightarrow> nat option" where
  "gateOf (SetContextTask (SetSlot aid c p)) = Some p"
| "gateOf (SetContextTask (SetDelivering aid c p i st)) = Some p"
| "gateOf (SetContextTask (SetAwaiting aid c p i owner)) = Some p"
| "gateOf (SetContextTask (SetReplying aid c p res)) = Some p"
| "gateOf (SetContextTask (SetLeaving c p res)) = Some p"
| "gateOf (ClearContextTask (ClearSlot aid c p)) = Some p"
| "gateOf (ClearContextTask (ClearReserved aid c p)) = Some p"
| "gateOf (ClearContextTask (ClearLeased aid c p expected)) = Some p"
| "gateOf (ClearContextTask (ClearDelivering aid c p i st)) = Some p"
| "gateOf (ClearContextTask (ClearAwaiting aid c p i owner)) = Some p"
| "gateOf (ClearContextTask (ClearReplying aid c p res)) = Some p"
| "gateOf (ClearContextTask (ClearUnwinding c p res)) = Some p"
| "gateOf (ClearContextTask (ClearLeaving c p res)) = Some p"
| "gateOf (DeployTask (DeploySlot aid c p)) = Some p"
| "gateOf (DeployTask (DeploySlotLeased aid c p)) = Some p"
| "gateOf (DeployTask (DeployFencing aid c p)) = Some p"
| "gateOf (DeployTask (DeployAdmitting aid c p)) = Some p"
| "gateOf (DeployTask (DeployYielding aid c p i reserved)) = Some p"
| "gateOf (DeployTask (DeployAwaiting c p i True)) = Some p"
| "gateOf (DeployTask (DeployLeaving p res)) = Some p"
| "gateOf (ReservationTask (ReservationSlot aid p i)) = Some p"
| "gateOf (ReservationTask (ReservationLeased aid p i)) = Some p"
| "gateOf (ReservationTask (ReservationFencing aid p i)) = Some p"
| "gateOf (ReservationTask (ReservationAdmitting aid p i)) = Some p"
| "gateOf (ReservationTask (ReservationFailing p i e True)) = Some p"
| "gateOf (ReservationTask (ReservationWaiting p i)) = Some p"
| "gateOf (ReservationTask (ReservationLeaving p i)) = Some p"
| "gateOf t = None"

text \<open>The session whose ownership lease a task holds, with the Agent ID it was taken for.\<close>

fun leaseOf :: "task \<Rightarrow> nat option" where
  "leaseOf (SetContextTask (SetDelivering aid c p i st)) = Some p"
| "leaseOf (ClearContextTask (ClearLeased aid c p expected)) = Some p"
| "leaseOf (ClearContextTask (ClearDelivering aid c p i st)) = Some p"
| "leaseOf (AircraftTask (AircraftLeased aid c p)) = Some p"
| "leaseOf (AircraftSendTask (AircraftSending c p i st)) = Some p"
| "leaseOf (DeployTask (DeployLeased aid c p)) = Some p"
| "leaseOf (DeployTask (DeploySlotLeased aid c p)) = Some p"
| "leaseOf (DeployTask (DeployFencing aid c p)) = Some p"
| "leaseOf (DeployTask (DeployAdmitting aid c p)) = Some p"
| "leaseOf (MissionSendTask (MissionSending c p i st)) = Some p"
| "leaseOf (MissionSendTask (MissionFailing c p i attempted err)) = Some p"
| "leaseOf (ReservationTask (ReservationLeased aid p i)) = Some p"
| "leaseOf (ReservationTask (ReservationFencing aid p i)) = Some p"
| "leaseOf (ReservationTask (ReservationAdmitting aid p i)) = Some p"
| "leaseOf (StreamTask (StreamAnnouncing aid p b isActive)) = Some p"
| "leaseOf (StreamTask (StreamAnnounced aid p b isActive g a)) = Some p"
| "leaseOf (StreamTask (StreamCommitting aid p b isActive)) = Some p"
| "leaseOf t = None"

text \<open>The session whose control fence (the read lease of \<open>controlStreamMu\<close>) a task holds: from the
  admission of a command until its write has returned.\<close>

fun fenceOf :: "task \<Rightarrow> nat option" where
  "fenceOf (SetContextTask (SetDelivering aid c p i st)) = Some p"
| "fenceOf (ClearContextTask (ClearDelivering aid c p i st)) = Some p"
| "fenceOf (AircraftSendTask (AircraftSending c p i st)) = Some p"
| "fenceOf (MissionSendTask (MissionSending c p i st)) = Some p"
| "fenceOf (MissionSendTask (MissionFailing c p i attempted err)) = Some p"
| "fenceOf t = None"

text \<open>The sessions whose \<open>ownershipMu\<close> and \<open>controlStreamMu\<close> the next section of a task locks for
  writing, and whose \<open>publicationMu\<close> a publication holds.\<close>

fun retiring :: "task \<Rightarrow> nat option" where
  "retiring (RegisterTask (RegisterReplacing aid sid previous)) = previous"
| "retiring (StreamTask (StreamUnpublished aid p b e)) = Some p"
| "retiring (StreamTask (StreamClosing aid p b err)) = Some p"
| "retiring t = None"

fun rebinding :: "Relay \<Rightarrow> task \<Rightarrow> nat option" where
  "rebinding r (StreamTask (StreamFound aid sid p)) = (if registryReporter r = None then Some p else None)"
| "rebinding r (StreamTask (StreamCommitting aid p b isActive)) = Some p"
| "rebinding r t = None"

fun publishingOf :: "task \<Rightarrow> nat option" where
  "publishingOf (StreamTask (StreamAnnouncing aid p b isActive)) = Some p"
| "publishingOf (StreamTask (StreamAnnounced aid p b isActive g a)) = Some p"
| "publishingOf (StreamTask (StreamCommitting aid p b isActive)) = Some p"
| "publishingOf t = None"

fun publishes :: "task \<Rightarrow> nat option" where
  "publishes (StreamTask (StreamChecking aid p b)) = Some p"
| "publishes t = None"

text \<open>The section a task wants to run is locked out by what another task holds.\<close>

definition meets :: "nat option \<Rightarrow> nat option \<Rightarrow> bool" where
  "meets a b \<longleftrightarrow> a \<noteq> None \<and> a = b"

definition lockedOut :: "Relay \<Rightarrow> task \<Rightarrow> task \<Rightarrow> bool" where
  "lockedOut r t other \<longleftrightarrow> meets (retiring t) (leaseOf other) \<or> meets (rebinding r t) (fenceOf other) \<or>
     meets (publishes t) (publishingOf other)"

definition others :: "nat \<Rightarrow> task list \<Rightarrow> task list" where
  "others i ts = take i ts @ drop (Suc i) ts"

text \<open>A request that arrives.\<close>

fun arriving :: "task \<Rightarrow> bool" where
  "arriving (SetContextTask (SetCalled remote agent command)) = True"
| "arriving (ClearContextTask (ClearCalled remote agent command)) = True"
| "arriving (AircraftTask (AircraftCalled remote agent command')) = True"
| "arriving (DeployTask (DeployCalled remote agent command'')) = True"
| "arriving (RegisterTask (RegisterCalled requested meta)) = True"
| "arriving (StreamTask (StreamCalled meta)) = True"
| "arriving t = False"

text \<open>The Relay with its tasks: a request arrives, or one task that is not locked out runs its next
  section.\<close>

inductive sysStep :: "codec \<Rightarrow> Relay \<times> task list \<Rightarrow> Relay \<times> task list \<Rightarrow> bool" for cd where
  Arrive: "arriving t \<Longrightarrow> sysStep cd (r, ts) (r, ts @ [t])"
| Run: "i < length ts \<Longrightarrow> \<not> list_ex (lockedOut r (ts ! i)) (others i ts) \<Longrightarrow>
    taskStep cd ob r (ts ! i) = Some (t, r', new) \<Longrightarrow> sysStep cd (r, ts) (r', ts[i := t] @ new)"

inductive sysReach :: "codec \<Rightarrow> Relay \<times> task list \<Rightarrow> bool" for cd where
  Boot: "sysReach cd (newRelayState reporter authn authz mappings rid routes, [])"
| Next: "sysReach cd c \<Longrightarrow> sysStep cd c c' \<Longrightarrow> sysReach cd c'"

end
