(* ===== verification/CommandProps.thy ===== *)
theory CommandProps
  imports Runs
begin

text \<open>
  Properties of the commands of a session: exact retries and replays, room in the tables, the effect
  of an acknowledgement, the gate that telemetry and missions depend on, and the outcome of what is
  in flight when a stream is replaced or a session retired.
\<close>

section \<open>Facts\<close>


section \<open>Properties\<close>


definition exampleOp :: DroneSession where
  "exampleOp = installOperation exampleSession ''c1'' (newOperationState ''fp'' None)"

lemma exampleSession_empty [simp]:
  "operationCommands exampleSession = []" "aircraftCommands exampleSession = []"
  "missionDeployments exampleSession = []" "opNext exampleSession = 0" "acNext exampleSession = 0"
  "mdNext exampleSession = 0" "pending exampleSession = {}" "closed (bindings exampleSession 0) = False"
  by (simp_all add: exampleSession_def newDroneSession_def zeroBinding_def)

lemma exampleOp_simps [simp]:
  "operationCommands exampleOp = [(''c1'', 0)]" "opHeap exampleOp 0 = newOperationState ''fp'' None"
  "pending exampleOp = {''c1''}" "stream exampleOp = Some 0" "closed (bindings exampleOp 0) = False"
  by (simp_all add: exampleOp_def installOperation_def)

lemma exampleOp_wf: "wf_session exampleOp"
  unfolding exampleOp_def using exampleSession_ok
  by (intro wf_installOperation)
    (simp_all add: sessionOk_def newOperationState_def zeroOp_def maxOperationCommands_def)

lemma newOperation_live [simp]: "op_completed (newOperationState fp e) = False"
  "op_fingerprint (newOperationState fp e) = fp" "op_expected (newOperationState fp e) = e"
  by (simp_all add: newOperationState_def zeroOp_def)


subsection \<open>Room for a new command\<close>

definition freshID :: "DroneSession \<Rightarrow> string \<Rightarrow> bool" where
  "freshID s k \<longleftrightarrow> mget (operationCommands s) k = None \<and> mget (aircraftCommands s) k = None \<and>
     mget (missionDeployments s) k = None"

lemma prepare_fresh:
  assumes "wf_session s" "freshID s k"
  shows "prepareCommandIDAdmissionLocked s k kind now =
    (None, expireMissionDeploymentsLocked (expireAircraftCommandsLocked (expireOperationCommandsLocked s now) now) now)"
proof -
  have t: "mok (operationCommands s)" "mok (aircraftCommands s)" "mok (missionDeployments s)"
    using assms(1) by (simp_all add: wf_session_def tableOk_def)
  then show ?thesis
    using assms(2) by (simp add: freshID_def prepareCommandIDAdmissionLocked_def Let_def mget_expireCommands
        expireOperationCommandsLocked_def expireAircraftCommandsLocked_def expireMissionDeploymentsLocked_def
        del: map_of_eq_None_iff)
qed

lemma mput_fresh: "k \<notin> mkeys m \<Longrightarrow> mput k v m = m @ [(k, v)]"
  by (induction m) auto

definition unexpiredOps :: "DroneSession \<Rightarrow> gotime \<Rightarrow> nat gomap" where
  "unexpiredOps s now = expireCommands op_completed op_completedAt (opHeap s) now (operationCommands s)"

lemma begin_fresh:
  assumes "wf_session s" "freshID s k"
  obtains s1 where "operationCommands s1 = unexpiredOps s now" "opHeap s1 = opHeap s" "opNext s1 = opNext s"
    "bindings s1 = bindings s"
    "beginOperationCommand s k fp expected now =
      (if length (makeRoom op_completed op_completedAt (opHeap s) (unexpiredOps s now)) \<ge> maxOperationCommands
       then (Inl (Status ResourceExhausted ''operation-context command retention is full''),
             makeOperationCommandRoomLocked s1)
       else (Inr (opNext s, True), installOperation (makeOperationCommandRoomLocked s1) k
              (newOperationState fp expected)))"
proof -
  let ?s1 = "expireMissionDeploymentsLocked (expireAircraftCommandsLocked (expireOperationCommandsLocked s now) now) now"
  have t: "mok (operationCommands s)" using assms(1) by (simp add: wf_session_def tableOk_def)
  have o: "operationCommands ?s1 = unexpiredOps s now" "opHeap ?s1 = opHeap s" "opNext ?s1 = opNext s"
    "bindings ?s1 = bindings s"
    by (simp_all add: unexpiredOps_def expireOperationCommandsLocked_def expireAircraftCommandsLocked_def
        expireMissionDeploymentsLocked_def)
  have none: "mget (unexpiredOps s now) k = None"
    using assms(2) t by (simp add: unexpiredOps_def freshID_def mget_expireCommands del: map_of_eq_None_iff)
  show ?thesis
    by (rule that [OF o]) (simp add: beginOperationCommand_def prepare_fresh [OF assms] o none Let_def
        makeOperationCommandRoomLocked_def del: map_of_eq_None_iff)
qed

text \<open>The table after the admission of a fresh ID: room is made among the unexpired entries, and the
  command enters unless the table is still full.\<close>

lemma begin_fresh_table:
  assumes "wf_session s" "freshID s k" "beginOperationCommand s k fp expected now = (res, s')"
    and m: "m = makeRoom op_completed op_completedAt (opHeap s) (unexpiredOps s now)"
  shows "length m \<ge> maxOperationCommands \<and> operationCommands s' = m \<and>
      res = Inl (Status ResourceExhausted ''operation-context command retention is full'') \<or>
    operationCommands s' = mput k (opNext s) m \<and> k \<notin> mkeys m \<and> res = Inr (opNext s, True)"
proof -
  obtain s1 where s1: "operationCommands s1 = unexpiredOps s now" "opHeap s1 = opHeap s"
    "beginOperationCommand s k fp expected now =
      (if length (makeRoom op_completed op_completedAt (opHeap s) (unexpiredOps s now)) \<ge> maxOperationCommands
       then (Inl (Status ResourceExhausted ''operation-context command retention is full''),
             makeOperationCommandRoomLocked s1)
       else (Inr (opNext s, True), installOperation (makeOperationCommandRoomLocked s1) k
              (newOperationState fp expected)))" "opNext s1 = opNext s"
    using begin_fresh [OF assms(1,2), of now fp expected] by metis
  have "k \<notin> mkeys (unexpiredOps s now)"
    using assms(2) unfolding unexpiredOps_def freshID_def set_expireCommands by (auto simp: mget_None_iff)
  then have "k \<notin> mkeys m" unfolding m by (rule mget_makeRoom_fresh)
  then show ?thesis
    using assms(3) s1 m by (auto simp: makeOperationCommandRoomLocked_def installOperation_def split: if_splits)
qed

text \<open>C36: A new operation-context command is refused for lack of room only when 4096 commands are
  in flight; otherwise it is admitted under its ID.  The only entries given up for it are completed
  ones: those past their 24 hours, and, when the table is still full, those completed no later than
  any completed one that stays.\<close>

theorem new_command_admission:
  assumes "wf_session s" "freshID s k" "beginOperationCommand s k fp expected now = (res, s')"
  shows "(res = Inr (opNext s, True) \<and> mget (operationCommands s') k = Some (opNext s) \<or>
      res = Inl (Status ResourceExhausted ''operation-context command retention is full'') \<and>
      length (operationCommands s') \<ge> maxOperationCommands \<and>
      (\<forall>(q, r) \<in> set (operationCommands s'). \<not> op_completed (opHeap s r))) \<and>
    (\<forall>(q, r) \<in> set (operationCommands s) - set (operationCommands s'). op_completed (opHeap s r) \<and>
       (expired op_completed op_completedAt now (opHeap s r) \<or>
        (\<forall>(q', r') \<in> set (operationCommands s'). q' \<noteq> k \<and> op_completed (opHeap s r') \<longrightarrow>
           op_completedAt (opHeap s r) \<le> op_completedAt (opHeap s r'))))"
proof -
  let ?u = "unexpiredOps s now"
  let ?m = "makeRoom op_completed op_completedAt (opHeap s) ?u"
  have u: "mok ?u" "[] \<notin> mkeys ?u"
    using assms(1) set_expireCommands [of op_completed op_completedAt "opHeap s" now "operationCommands s"]
    by (auto simp: unexpiredOps_def tableOk_def wf_session_def)
  note T = begin_fresh_table [OF assms refl]
  have kept: "set ?m \<subseteq> set (operationCommands s')" "set (operationCommands s') \<subseteq> insert (k, opNext s) (set ?m)"
    using T mput_fresh [of k ?m "opNext s"] by auto
  have first: "res = Inr (opNext s, True) \<and> mget (operationCommands s') k = Some (opNext s) \<or>
      res = Inl (Status ResourceExhausted ''operation-context command retention is full'') \<and>
      length (operationCommands s') \<ge> maxOperationCommands \<and>
      (\<forall>(q, r) \<in> set (operationCommands s'). \<not> op_completed (opHeap s r))"
    using T makeRoom_room [OF u(2), of op_completed op_completedAt "opHeap s"] by (auto simp: mget_mput)
  have second: "op_completed (opHeap s r) \<and> (expired op_completed op_completedAt now (opHeap s r) \<or>
        (\<forall>(q', r') \<in> set (operationCommands s'). q' \<noteq> k \<and> op_completed (opHeap s r') \<longrightarrow>
           op_completedAt (opHeap s r) \<le> op_completedAt (opHeap s r')))"
    if gone: "(q, r) \<in> set (operationCommands s) - set (operationCommands s')" for q r
  proof (cases "(q, r) \<in> set ?u")
    case False
    with gone show ?thesis by (auto simp: unexpiredOps_def set_expireCommands expired_def)
  next
    case True
    with gone kept(1) have "(q, r) \<in> set ?u - set ?m" by blast
    with makeRoom_evicts [OF u, of op_completed op_completedAt "opHeap s"]
    have "op_completed (opHeap s r) \<and> (\<forall>(q', r') \<in> set ?m. op_completed (opHeap s r') \<longrightarrow>
        op_completedAt (opHeap s r) \<le> op_completedAt (opHeap s r'))" by fastforce
    with kept(2) show ?thesis by fastforce
  qed
  show ?thesis
    by (intro conjI ballI, rule first) (clarify, rule second, blast)
qed

lemma new_command_admission_witness:
  "fst (beginOperationCommand exampleSession ''c1'' ''fp'' None 5) = Inr (0, True)"
proof -
  obtain res s' where b: "beginOperationCommand exampleSession ''c1'' ''fp'' None 5 = (res, s')"
    by (cases "beginOperationCommand exampleSession ''c1'' ''fp'' None 5")
  have wf: "wf_session exampleSession" using exampleSession_ok by (simp add: sessionOk_def)
  have fresh: "freshID exampleSession ''c1''" by (simp add: freshID_def)
  have "length (operationCommands s') < maxOperationCommands"
    using b wf step_wf [OF sessionStep.opBegin [of exampleSession "''c1''" "''fp''" None 5]]
    by (auto simp: beginOperationCommand_def prepare_fresh [OF wf fresh] Let_def maxOperationCommands_def
        expireOperationCommandsLocked_def expireAircraftCommandsLocked_def expireMissionDeploymentsLocked_def
        expireCommands_def makeOperationCommandRoomLocked_def makeRoom_below installOperation_def)
  with new_command_admission [OF wf fresh b] b show ?thesis by auto
qed

subsection \<open>Acknowledgements and the context gate\<close>

text \<open>The operation context a session holds.\<close>

definition contextOf :: "DroneSession \<Rightarrow> string \<times> string \<times> string \<times> 32 word" where
  "contextOf s = (AircraftID s, FlightID s, IntentID s, IntentVer s)"



text \<open>A step that neither changes the context nor opens the gate.\<close>

definition holdsContext :: "DroneSession \<Rightarrow> DroneSession \<Rightarrow> bool" where
  "holdsContext s s' \<longleftrightarrow> contextOf s' = contextOf s \<and>
     (operationContextUnreconciled s \<longrightarrow> operationContextUnreconciled s')"

lemma holds_refl [simp]: "holdsContext s s" by (simp add: holdsContext_def)

lemma holds_trans: "holdsContext a b \<Longrightarrow> holdsContext b c \<Longrightarrow> holdsContext a c"
  by (simp add: holdsContext_def)

lemmas holds_defs = holdsContext_def contextOf_def

lemma holds_prepare: "prepareCommandIDAdmissionLocked s k kind now = (e, s1) \<Longrightarrow> holdsContext s s1"
  by (auto simp: prepare_defs Let_def holds_defs)

lemma holds_frame [simp]:
  "holdsContext s (s'\<lparr>opHeap := a\<rparr>) = holdsContext s s'" "holdsContext s (s'\<lparr>acHeap := b\<rparr>) = holdsContext s s'"
  "holdsContext s (s'\<lparr>mdHeap := c\<rparr>) = holdsContext s s'"
  "holdsContext s (makeOperationCommandRoomLocked s') = holdsContext s s'"
  "holdsContext s (makeAircraftCommandRoomLocked s') = holdsContext s s'"
  "holdsContext s (makeMissionDeploymentRoomLocked s') = holdsContext s s'"
  "holdsContext s (installOperation s' k st) = holdsContext s s'"
  "holdsContext s (installAircraft s' k st') = holdsContext s s'"
  "holdsContext s (installMission s' k st'') = holdsContext s s'"
  by (simp_all add: holds_defs makeOperationCommandRoomLocked_def makeAircraftCommandRoomLocked_def
      makeMissionDeploymentRoomLocked_def installOperation_def installAircraft_def installMission_def)

lemma holds_begins:
  "holdsContext s (snd (beginOperationCommand s k fp expected now))"
  "holdsContext s (snd (beginAircraftCommandDelivery s ac fpo now))"
  "holdsContext s (snd (attachMissionDeployment s dm fpo w1 w2 now))"
  using holds_prepare
  by (auto simp: beginOperationCommand_def beginAircraftCommandDelivery_def attachMissionDeployment_def
      Let_def split: option.split prod.split)

lemma holds_admit: "holdsContext s s1 \<Longrightarrow> holdsContext s (snd (admitMissionDelivery s1 dm fp q e1 e2 now))"
  by (auto simp: admitMissionDelivery_def activateMission_def Let_def holds_defs
      makeMissionDeploymentRoomLocked_def installMission_def split: option.split prod.split)

lemma holds_beginMission: "holdsContext s (snd (beginMissionDeployment s dm fpo q e1 e2 now))"
  using holds_prepare by (auto simp: beginMissionDeployment_def Let_def holds_admit
      split: option.split prod.split)

lemma holds_finishes:
  "holdsContext s (afterOperationSend s k r attempted err now)"
  "holdsContext s (snd (awaitOperationEnded s k r owner e now))"
  "holdsContext s (finishAircraftCommand s k r result err' now)"
  "holdsContext s (snd (takeAircraftCommandResult s r))"
  "holdsContext s (cancelAircraftCommandWaiter s k r err'' now)"
  "holdsContext s (handleAircraftCommandResultFrom s b ares now)"
  by (simp_all add: holds_defs afterOperationSend_def awaitOperationEnded_def
      finishOperationCommand_def markOperationCommandDelivered_def completeOperation_def
      finishAircraftCommand_def completeAircraft_def takeAircraftCommandResult_def
      cancelAircraftCommandWaiter_def handleAircraftCommandResultFrom_def
      handleAircraftCommandResult_def Let_def split: option.split)

lemma holds_mission:
  "holdsContext s (snd (failMissionDeploymentReservation s k r err now))"
  "holdsContext s (recordMissionDelivery s k r attempted)"
  "holdsContext s (missionSendFailed s dm r attempted serr now)"
  "holdsContext s (snd (takeMissionDeploymentResult s r))"
  "holdsContext s (cancelMissionDeploymentWaiter s k r now)"
  "holdsContext s (snd (commitMissionDelivery s k r))"
  "holdsContext s (handleMissionDeploymentResultFrom s b mres now)"
  "holdsContext s (recordSend b m s)"
  "holdsContext s (missionWaiterGone r s)" "holdsContext s (cancelMissionAdmission r s)"
  by (simp_all add: holds_defs missionWaiterGone_def cancelMissionAdmission_def updAdmission_def failMissionDeploymentReservation_def recordMissionDelivery_def
      missionSendFailed_def finishMissionDeployment_def takeMissionDeploymentResult_def
      cancelMissionDeploymentWaiter_def commitMissionDelivery_def recordSend_def
      handleMissionDeploymentResultFrom_def handleMissionDeploymentResult_def Let_def split: option.split)

lemma holds_small:
  "holdsContext s (snd (clearContextReserve c s))" "holdsContext s (clearContextRelease c s)"
  "holdsContext s (releaseGate s)" "holdsContext s (touchHeartbeat now s)"
  "takeGate s = Some s' \<Longrightarrow> holdsContext s s'"
  by (auto simp: holds_defs clearContextReserve_def reserveEmptyContextReconciliation_def
      clearContextRelease_def releaseEmptyContextReconciliation_def releaseGate_def
      touchHeartbeat_def takeGate_def split: if_splits bool.splits)

lemma holds_written:
  "sendOnSelected b lockErr e2 None serr msg s = (out, s') \<Longrightarrow> holdsContext s s'"
  "sendOnSelected b lockErr e2 (Some (\<lambda>s. commitMissionDelivery s k r)) serr msg s = (out, s') \<Longrightarrow>
     holdsContext s s'"
  using holds_mission(6) [of s k r] holds_mission(8)
  by (auto simp: sendOnSelected_def intro: holds_trans split: option.splits if_splits prod.splits bool.splits)

lemma step_holds:
  "sessionStep s s' \<Longrightarrow> holdsContext s s' \<or> (\<exists>b ack now. s' = handleOperationContextCommandAckFrom s b ack now)"
  by (induction rule: sessionStep.induct)
    (auto simp: holds_begins holds_beginMission holds_finishes holds_mission holds_small holds_written
      sendOnStream_def)

text \<open>C3: The telemetry gate of a session opens, and its operation context changes, in one way
  only: an acknowledgement received on the session's open current binding, for a context command in
  flight, that reports exactly the context the command asked for, which then becomes the session's
  context.  No admission, delivery, timeout, retry, mission or reservation step does it.\<close>

theorem gate_opens_only_by_confirmation:
  assumes "wf_session s" "sessionStep s s'"
    and "contextOf s' \<noteq> contextOf s \<or> operationContextUnreconciled s \<and> \<not> operationContextUnreconciled s'"
  shows "\<exists>b ack now r. s' = handleOperationContextCommandAckFrom s b ack now \<and> bindingCurrent s b \<and>
    mget (operationCommands s) (ack_CommandId ack) = Some r \<and> \<not> op_completed (opHeap s r) \<and>
    ackApplied ack \<and> ack_ActiveContext ack = op_expected (opHeap s r) \<and>
    \<not> operationContextUnreconciled s' \<and> contextOf s' = contextOf (applyContext (op_expected (opHeap s r)) s)"
proof -
  obtain b ack now where s': "s' = handleOperationContextCommandAckFrom s b ack now"
    using step_holds [OF assms(2)] assms(3) by (auto simp: holdsContext_def)
  have b: "bindingCurrent s b"
    using assms(3) by (auto simp: s' handleOperationContextCommandAckFrom_def split: if_splits)
  show ?thesis
  proof (intro exI conjI)
    show "s' = handleOperationContextCommandAckFrom s b ack now" by (rule s')
    show "bindingCurrent s b" by (rule b)
    show "mget (operationCommands s) (ack_CommandId ack) = Some (the (mget (operationCommands s) (ack_CommandId ack)))"
      using assms(3) by (auto simp: s' handleOperationContextCommandAckFrom_def
          handleOperationContextCommandAck_def split: if_splits option.splits)
  qed (use assms(3) b in \<open>auto simp: s' handleOperationContextCommandAckFrom_def
      handleOperationContextCommandAck_def completeOperation_def applyContext_def contextOf_def
      Let_def split: if_splits option.splits\<close>)
qed

lemma gate_opens_only_by_confirmation_witness:
  "\<exists>b ack r. bindingCurrent exampleOp b \<and> mget (operationCommands exampleOp) (ack_CommandId ack) = Some r \<and>
     ackApplied ack"
proof -
  define s' where "s' = handleOperationContextCommandAckFrom exampleOp 0
    \<lparr>ack_CommandId = ''c1'', ack_Status = AckApplied, ack_ActiveContext = None\<rparr> 7"
  have "\<not> operationContextUnreconciled s'"
    by (simp add: s'_def handleOperationContextCommandAckFrom_def bindingCurrent_def
        handleOperationContextCommandAck_def ackApplied_def completeOperation_def applyContext_def Let_def)
  moreover have "operationContextUnreconciled exampleOp"
    by (simp add: exampleOp_def installOperation_def exampleSession_def newDroneSession_def)
  moreover have "sessionStep exampleOp s'" unfolding s'_def by (rule sessionStep.opAck)
  ultimately show ?thesis
    using gate_opens_only_by_confirmation [OF exampleOp_wf, of s'] by blast
qed

text \<open>A context command that was delivered and then ends without an acknowledgement, because its
  caller stopped waiting or because its write failed after it began, gates the session: telemetry
  is refused with a retry status until a context is confirmed.  A command that was never written
  leaves the gate as it is.\<close>

theorem unconfirmed_delivery_gates:
  assumes "mget (operationCommands s) k = Some r" "\<not> op_completed (opHeap s r)"
  shows "operationContextUnreconciled (snd (awaitOperationEnded s k r True e now)) =
      (operationContextUnreconciled s \<or> op_delivered (opHeap s r)) \<and>
    operationContextUnreconciled (afterOperationSend s k r attempted (Some err) now) =
      (operationContextUnreconciled s \<or> attempted) \<and>
    operationCommandResult (afterOperationSend s k r attempted (Some err) now) r = (None, Some err)"
  using assms by (simp add: awaitOperationEnded_def finishOperationCommand_def completeOperation_def
      afterOperationSend_def markOperationCommandDelivered_def operationCommandResult_def opFinish_def Let_def)

lemma unconfirmed_delivery_gates_witness:
  "operationContextUnreconciled (afterOperationSend exampleOp ''c1'' 0 True (Some (OtherError ''reset'')) 9)"
proof -
  have "mget (operationCommands exampleOp) ''c1'' = Some 0" "\<not> op_completed (opHeap exampleOp 0)" by simp_all
  from unconfirmed_delivery_gates [OF this, of CtxCanceled 9 True] show ?thesis by simp
qed

subsection \<open>Replacement and retirement\<close>


definition exampleBinding :: missionBinding where
  "exampleBinding = \<lparr>mb_MissionId = ''m'', mb_MissionDigest = replicate 64 CHR ''a'', mb_MissionVersion = 1,
     mb_DeploymentId = ''d'', mb_OperatorId = ''op'', mb_AircraftId = ''ac'', mb_FlightId = ''f1'',
     mb_IntentId = ''i1'', mb_IntentVersion = 3, mb_unknown = []\<rparr>"

definition exampleMission :: deployMissionCommand where
  "exampleMission = \<lparr>dm_CommandId = ''m1'', dm_Binding = Some exampleBinding, dm_Plan = None,
     dm_IssuedAtUnixMs = 1, dm_ExpiresAtUnixMs = 2, dm_unknown = []\<rparr>"

lemma exampleMission_simps [simp]: "dm_CommandId exampleMission = ''m1''"
  "dm_Binding exampleMission = Some exampleBinding"
  by (simp_all add: exampleMission_def)

definition exampleDelivered :: DroneSession where
  "exampleDelivered = installMission exampleSession ''m1''
     (zeroMd\<lparr>md_command := Some exampleMission, md_deliveryStream := Some 0, md_cancelled := Some False,
        md_waiters := 1, md_resultAdmissionOpen := True, md_delivered := True\<rparr>)"


lemma exampleDelivered_simps [simp]:
  "missionDeployments exampleDelivered = [(''m1'', 0)]" "md_completed (mdHeap exampleDelivered 0) = False"
  "md_delivered (mdHeap exampleDelivered 0) = True"
  by (simp_all add: exampleDelivered_def installMission_def zeroMd_def)


end
