(* ===== verification/HandlerFacts.thy ===== *)
theory HandlerFacts
  imports Handlers CommandProps
begin

text \<open>
  What the operations the tasks run leave alone: the gate, the operation context, the operation
  commands in flight, and the identity of the mission states.
\<close>

section \<open>Calm operations\<close>

definition liveKept :: "DroneSession \<Rightarrow> DroneSession \<Rightarrow> bool" where
  "liveKept s s' \<longleftrightarrow> (\<forall>k i. mget (operationCommands s) k = Some i \<and> i < opNext s \<and>
     \<not> op_completed (opHeap s' i) \<longrightarrow> mget (operationCommands s') k = Some i)"

definition calm :: "DroneSession \<Rightarrow> DroneSession \<Rightarrow> bool" where
  "calm s s' \<longleftrightarrow> contextOf s' = contextOf s \<and>
     operationContextUnreconciled s' = operationContextUnreconciled s \<and> opHeap s' = opHeap s \<and>
     opNext s' = opNext s \<and> liveKept s s'"

lemmas calm_defs = calm_def liveKept_def contextOf_def

lemma calm_refl [simp]: "calm s s" by (simp add: calm_defs)

lemma calm_trans: "calm a b \<Longrightarrow> calm b c \<Longrightarrow> calm a c"
  by (simp add: calm_defs)

lemma calm_frame [simp]:
  "calm s (s'\<lparr>acHeap := b\<rparr>) = calm s s'" "calm s (s'\<lparr>mdHeap := c\<rparr>) = calm s s'"
  "calm s (s'\<lparr>acNext := n\<rparr>) = calm s s'" "calm s (s'\<lparr>mdNext := n\<rparr>) = calm s s'"
  "calm s (s'\<lparr>aircraftCommands := x\<rparr>) = calm s s'" "calm s (s'\<lparr>missionDeployments := x\<rparr>) = calm s s'"
  "calm s (s'\<lparr>bindings := y\<rparr>) = calm s s'" "calm s (s'\<lparr>LastHeartbeat := t\<rparr>) = calm s s'"
  "calm s (s'\<lparr>emptyContextCommandID := e\<rparr>) = calm s s'"
  "calm s (s'\<lparr>pendingStream := z\<rparr>) = calm s s'" "calm s (s'\<lparr>operationGate := g\<rparr>) = calm s s'"
  by (simp_all add: calm_defs)

lemma calm_prepare:
  assumes "wf_session s" "prepareCommandIDAdmissionLocked s k kind now = (e, s1)"
  shows "calm s s1"
proof -
  have "mok (operationCommands s)" using assms(1) by (simp add: wf_session_def tableOk_def)
  with assms(2) show ?thesis
    by (auto simp: prepare_defs Let_def calm_defs mget_expireCommands expired_def
        simp del: map_of_eq_Some_iff map_of_eq_None_iff)
qed

lemma calm_room [simp]:
  "calm s (makeAircraftCommandRoomLocked s') = calm s s'"
  "calm s (makeMissionDeploymentRoomLocked s') = calm s s'"
  "calm s (installAircraft s' k st) = calm s s'" "calm s (installMission s' k st') = calm s s'"
  by (simp_all add: makeAircraftCommandRoomLocked_def makeMissionDeploymentRoomLocked_def
      installAircraft_def installMission_def)

lemma calm_beginAircraft:
  assumes "wf_session s" shows "calm s (snd (beginAircraftCommandDelivery s c fp now))"
proof (cases "prepareCommandIDAdmissionLocked s (acmd_CommandId c) retainedAircraftCommand now")
  case (Pair e s1)
  from calm_prepare [OF assms Pair] show ?thesis
    by (auto simp: beginAircraftCommandDelivery_def Pair Let_def split: option.split)
qed

lemma calm_attachMission:
  assumes "wf_session s" shows "calm s (snd (attachMissionDeployment s c fp w1 w2 now))"
proof (cases "prepareCommandIDAdmissionLocked s (dm_CommandId c) retainedMissionDeployment now")
  case (Pair e s1)
  from calm_prepare [OF assms Pair] show ?thesis
    by (auto simp: attachMissionDeployment_def Pair Let_def split: option.split)
qed

lemma calm_admit: "calm s s1 \<Longrightarrow> calm s (snd (admitMissionDelivery s1 c fp q e1 e2 now))"
  by (auto simp: admitMissionDelivery_def activateMission_def Let_def split: option.split prod.split)

lemma calm_beginMission:
  assumes "wf_session s" shows "calm s (snd (beginMissionDeployment s c fp q e1 e2 now))"
proof (cases "prepareCommandIDAdmissionLocked s (dm_CommandId c) retainedMissionDeployment now")
  case (Pair e s1)
  from calm_prepare [OF assms Pair] show ?thesis
    by (auto simp: beginMissionDeployment_def Pair Let_def calm_admit split: option.split)
qed

lemma calm_aircraft:
  "calm s (finishAircraftCommand s k r result err' now)"
  "calm s (snd (takeAircraftCommandResult s r))"
  "calm s (cancelAircraftCommandWaiter s k r err'' now)"
  "calm s (handleAircraftCommandResultFrom s b ares now)"
  by (simp_all add: finishAircraftCommand_def completeAircraft_def takeAircraftCommandResult_def
      cancelAircraftCommandWaiter_def handleAircraftCommandResultFrom_def
      handleAircraftCommandResult_def Let_def split: option.split)

lemma calm_mission:
  "calm s (snd (failMissionDeploymentReservation s k r err now))"
  "calm s (recordMissionDelivery s k r attempted)"
  "calm s (missionSendFailed s dm r attempted serr now)"
  "calm s (snd (takeMissionDeploymentResult s r))"
  "calm s (cancelMissionDeploymentWaiter s k r now)"
  "calm s (snd (commitMissionDelivery s k r))"
  "calm s (handleMissionDeploymentResultFrom s b mres now)"
  "calm s (missionWaiterGone r s)" "calm s (cancelMissionAdmission r s)"
  by (simp_all add: failMissionDeploymentReservation_def recordMissionDelivery_def
      missionSendFailed_def finishMissionDeployment_def takeMissionDeploymentResult_def
      cancelMissionDeploymentWaiter_def commitMissionDelivery_def missionWaiterGone_def
      cancelMissionAdmission_def updAdmission_def handleMissionDeploymentResultFrom_def
      handleMissionDeploymentResult_def Let_def split: option.split)

lemma calm_small:
  "calm s (snd (clearContextReserve c s))" "calm s (clearContextRelease c s)"
  "calm s (touchHeartbeat now s)" "calm s (recordSend b m s)" "calm s (publicationFailed b s)"
  "calm s (releaseGate s)" "takeGate s = Some s' \<Longrightarrow> calm s s'"
  by (auto simp: releaseGate_def takeGate_def clearContextReserve_def reserveEmptyContextReconciliation_def clearContextRelease_def
      releaseEmptyContextReconciliation_def touchHeartbeat_def recordSend_def publicationFailed_def
      split: if_splits bool.splits)

lemma calm_sendOnSelected:
  assumes "sendOnSelected b lockErr e2 commit serr msg s = (out, s')"
    "\<And>f. commit = Some f \<Longrightarrow> calm s (snd (f s))"
  shows "calm s s'"
  using assms calm_small(4)
  by (auto simp: sendOnSelected_def recordSend_def split: option.splits if_splits prod.splits bool.splits)

lemma calm_sendStep:
  assumes "sendStep ctx lockErr commit serr msg binding s = (st, s')"
    "\<And>f. commit = Some f \<Longrightarrow> calm s (snd (f s))"
  shows "calm s s'"
proof (cases binding)
  case (Some b)
  obtain out s1 where "sendOnSelected b lockErr ctx commit serr msg s = (out, s1)" by fastforce
  moreover from this have "calm s s1" by (rule calm_sendOnSelected) (rule assms(2))
  ultimately show ?thesis
    using assms(1) Some by (auto simp: sendStep_def split: sendOutcome.splits)
qed (use assms(1) in \<open>auto simp: sendStep_def split: sum.splits\<close>)

section \<open>How a session evolves under any operation\<close>

definition opsDone :: "DroneSession \<Rightarrow> bool" where
  "opsDone s \<longleftrightarrow> (\<forall>i < opNext s. op_completed (opHeap s i))"

text \<open>One operation command: its payload never changes, an outcome is final, and a command that
  completes without an error has an acknowledgement which, when it says applied, reports the expected
  context.\<close>

definition truthful :: "operationCommandState \<Rightarrow> bool" where
  "truthful st \<longleftrightarrow> (op_completed st \<and> op_err st = None \<longrightarrow>
     (\<exists>a. op_ack st = Some a \<and> (ackApplied a \<longrightarrow> ack_ActiveContext a = op_expected st)))"

definition opMove :: "operationCommandState \<Rightarrow> operationCommandState \<Rightarrow> bool" where
  "opMove st st' \<longleftrightarrow> op_fingerprint st' = op_fingerprint st \<and> op_expected st' = op_expected st \<and>
     opFinal st st' \<and> (truthful st \<longrightarrow> truthful st')"

text \<open>One mission state: its command never changes, an opened result admission stays open, a
  reservation is activated by its own worker only.\<close>

definition mdMove :: "bool \<Rightarrow> missionDeploymentState \<Rightarrow> missionDeploymentState \<Rightarrow> bool" where
  "mdMove own st st' \<longleftrightarrow> md_command st' = md_command st \<and>
     (md_resultAdmissionOpen st \<longrightarrow> md_resultAdmissionOpen st') \<and>
     (\<not> md_reserved st \<longrightarrow> \<not> md_reserved st') \<and> (\<not> own \<and> md_reserved st \<longrightarrow> md_reserved st')"

definition opKeeps :: "DroneSession \<Rightarrow> DroneSession \<Rightarrow> bool" where
  "opKeeps s s' \<longleftrightarrow> opNext s \<le> opNext s' \<and> liveKept s s' \<and>
     (\<forall>i < opNext s. opMove (opHeap s i) (opHeap s' i))"

definition missionKeeps :: "nat option \<Rightarrow> DroneSession \<Rightarrow> DroneSession \<Rightarrow> bool" where
  "missionKeeps q s s' \<longleftrightarrow> mdNext s \<le> mdNext s' \<and>
     (\<forall>i < mdNext s. mdMove (q = Some i) (mdHeap s i) (mdHeap s' i))"

definition sameContext :: "DroneSession \<Rightarrow> DroneSession \<Rightarrow> bool" where
  "sameContext s s' \<longleftrightarrow> contextOf s' = contextOf s \<and>
     operationContextUnreconciled s' = operationContextUnreconciled s"

definition evolves :: "nat option \<Rightarrow> DroneSession \<Rightarrow> DroneSession \<Rightarrow> bool" where
  "evolves q s s' \<longleftrightarrow> opKeeps s s' \<and> missionKeeps q s s' \<and> (opsDone s \<longrightarrow> sameContext s s')"

lemma opMove_refl [simp]: "opMove st st" by (simp add: opMove_def)

lemma mdMove_refl [simp]: "mdMove own st st" by (simp add: mdMove_def)

lemma opKeeps_refl [simp]: "opKeeps s s" by (simp add: opKeeps_def liveKept_def)

lemma missionKeeps_refl [simp]: "missionKeeps q s s" by (simp add: missionKeeps_def)

lemma evolves_refl [simp]: "evolves q s s" by (simp add: evolves_def sameContext_def)

lemma calm_opKeeps: "calm s s' \<Longrightarrow> opKeeps s s'"
  by (simp add: calm_def opKeeps_def)

lemma evolves_calm: "calm s s' \<Longrightarrow> missionKeeps q s s' \<Longrightarrow> evolves q s s'"
  by (simp add: evolves_def calm_opKeeps sameContext_def calm_def)

lemma missionKeeps_trans: "missionKeeps q a b \<Longrightarrow> missionKeeps q b c \<Longrightarrow> missionKeeps q a c"
  unfolding missionKeeps_def mdMove_def by fastforce

lemma missionKeeps_same: "mdHeap s' = mdHeap s \<Longrightarrow> mdNext s' = mdNext s \<Longrightarrow> missionKeeps q s s'"
  by (simp add: missionKeeps_def)

lemma missionKeeps_upd:
  "mdMove (q = Some i) (mdHeap s i) st \<Longrightarrow> missionKeeps q s (s\<lparr>mdHeap := (mdHeap s)(i := st)\<rparr>)"
  by (simp add: missionKeeps_def)

lemma missionKeeps_frame [simp]:
  "missionKeeps q s (s'\<lparr>acHeap := b\<rparr>) = missionKeeps q s s'"
  "missionKeeps q s (s'\<lparr>acNext := n\<rparr>) = missionKeeps q s s'"
  "missionKeeps q s (s'\<lparr>aircraftCommands := x\<rparr>) = missionKeeps q s s'"
  "missionKeeps q s (s'\<lparr>missionDeployments := x\<rparr>) = missionKeeps q s s'"
  "missionKeeps q s (s'\<lparr>bindings := y\<rparr>) = missionKeeps q s s'"
  by (simp_all add: missionKeeps_def)

lemma missionKeeps_install: "missionKeeps q s s1 \<Longrightarrow> missionKeeps q s (installMission s1 k st)"
  by (auto simp: missionKeeps_def installMission_def)

lemma missionKeeps_prepare:
  "prepareCommandIDAdmissionLocked s k kind now = (e, s1) \<Longrightarrow> mdHeap s1 = mdHeap s \<and> mdNext s1 = mdNext s"
  by (auto simp: prepare_defs Let_def)

lemma missionKeeps_nonMission:
  "missionKeeps q s (finishAircraftCommand s k r result err' now)"
  "missionKeeps q s (snd (takeAircraftCommandResult s r))"
  "missionKeeps q s (cancelAircraftCommandWaiter s k r err'' now)"
  "missionKeeps q s (handleAircraftCommandResultFrom s b ares now)"
  "missionKeeps q s (snd (clearContextReserve c s))" "missionKeeps q s (clearContextRelease c s)"
  "missionKeeps q s (touchHeartbeat now s)" "missionKeeps q s (recordSend b m s)"
  "missionKeeps q s (publicationFailed b s)" "missionKeeps q s (releaseGate s)"
  "takeGate s = Some s' \<Longrightarrow> missionKeeps q s s'"
  "missionKeeps q s (afterOperationSend s k r attempted err now)"
  "missionKeeps q s (snd (awaitOperationEnded s k r owner e now))"
  "missionKeeps q s (handleOperationContextCommandAckFrom s b ack now)"
  by (rule missionKeeps_same; auto simp: finishAircraftCommand_def completeAircraft_def
      takeAircraftCommandResult_def cancelAircraftCommandWaiter_def handleAircraftCommandResultFrom_def
      handleAircraftCommandResult_def clearContextReserve_def reserveEmptyContextReconciliation_def
      clearContextRelease_def releaseEmptyContextReconciliation_def touchHeartbeat_def recordSend_def
      publicationFailed_def releaseGate_def takeGate_def afterOperationSend_def awaitOperationEnded_def
      finishOperationCommand_def markOperationCommandDelivered_def completeOperation_def
      handleOperationContextCommandAckFrom_def handleOperationContextCommandAck_def applyContext_def
      Let_def split: option.split if_splits bool.splits)+

lemma missionKeeps_mission:
  "missionKeeps q s (snd (failMissionDeploymentReservation s k r err now))"
  "missionKeeps q s (recordMissionDelivery s k r attempted)"
  "missionKeeps q s (missionSendFailed s dm r attempted serr now)"
  "missionKeeps q s (snd (takeMissionDeploymentResult s r))"
  "missionKeeps q s (cancelMissionDeploymentWaiter s k r now)"
  "missionKeeps q s (snd (commitMissionDelivery s k r))"
  "missionKeeps q s (handleMissionDeploymentResultFrom s b mres now)"
  "missionKeeps q s (missionWaiterGone r s)" "missionKeeps q s (cancelMissionAdmission r s)"
  by (auto simp: missionKeeps_def mdMove_def failMissionDeploymentReservation_def
      recordMissionDelivery_def missionSendFailed_def finishMissionDeployment_def
      takeMissionDeploymentResult_def cancelMissionDeploymentWaiter_def commitMissionDelivery_def
      missionWaiterGone_def cancelMissionAdmission_def updAdmission_def dropWaiter_def
      abandonMission_def endReservation_def cancelDelivery_def mdFinish_def
      handleMissionDeploymentResultFrom_def handleMissionDeploymentResult_def Let_def split: option.split)

lemma missionKeeps_beginAircraft: "missionKeeps q s (snd (beginAircraftCommandDelivery s c fp now))"
proof (cases "prepareCommandIDAdmissionLocked s (acmd_CommandId c) retainedAircraftCommand now")
  case (Pair e s1)
  from missionKeeps_prepare [OF this] show ?thesis
    by (intro missionKeeps_same) (auto simp: beginAircraftCommandDelivery_def Pair Let_def
        makeAircraftCommandRoomLocked_def installAircraft_def split: option.split)
qed

lemma missionKeeps_attach:
  "missionKeeps q s (snd (attachMissionDeployment s c fp w1 w2 now))"
proof (cases "prepareCommandIDAdmissionLocked s (dm_CommandId c) retainedMissionDeployment now")
  case (Pair e s1)
  note same = missionKeeps_prepare [OF this]
  have "missionKeeps q s s1" using same by (intro missionKeeps_same) simp_all
  then show ?thesis
    using same by (auto simp: attachMissionDeployment_def Pair Let_def missionKeeps_install
        missionKeeps_def mdMove_def endReservation_def mdFinish_def installMission_def
        split: option.split)
qed

lemma missionKeeps_room: "missionKeeps q s (makeMissionDeploymentRoomLocked s') = missionKeeps q s s'"
  by (simp add: makeMissionDeploymentRoomLocked_def)

lemma missionKeeps_activate:
  assumes "\<And>i. q = Some i \<Longrightarrow> md_command (mdHeap s i) = Some c"
  shows "missionKeeps q s (snd (activateMission s c fp q))"
  using assms by (auto simp: activateMission_def installMission_def missionKeeps_def mdMove_def
      split: option.split)

lemma missionKeeps_admit:
  assumes "\<And>i. q = Some i \<Longrightarrow> md_command (mdHeap s i) = Some c"
  shows "missionKeeps q s (snd (admitMissionDelivery s c fp q e1 e2 now))"
proof -
  have "missionKeeps q s (snd (activateMission (makeMissionDeploymentRoomLocked s) c fp q))"
    using missionKeeps_trans [OF _ missionKeeps_activate [of q "makeMissionDeploymentRoomLocked s" c fp]]
      assms by (simp add: missionKeeps_room) (simp add: makeMissionDeploymentRoomLocked_def)
  then show ?thesis
    using missionKeeps_activate [of q s c fp, OF assms]
    by (auto simp: admitMissionDelivery_def Let_def missionKeeps_room split: prod.split)
qed

lemma missionKeeps_begin:
  assumes "\<And>i. q = Some i \<Longrightarrow> md_command (mdHeap s i) = Some c"
  shows "missionKeeps q s (snd (beginMissionDeployment s c fp q e1 e2 now))"
proof (cases "prepareCommandIDAdmissionLocked s (dm_CommandId c) retainedMissionDeployment now")
  case (Pair e s1)
  note same = missionKeeps_prepare [OF this]
  have k1: "missionKeeps q s s1" using same by (intro missionKeeps_same) simp_all
  have "missionKeeps q s (snd (admitMissionDelivery s1 c f q e1 e2 now))" for f
    using assms same by (intro missionKeeps_trans [OF k1] missionKeeps_admit) simp_all
  moreover have "missionKeeps q s (s1\<lparr>mdHeap := (mdHeap s1)(i := (mdHeap s1 i)\<lparr>md_waiters := w\<rparr>)\<rparr>)" for i w
    by (intro missionKeeps_trans [OF k1] missionKeeps_upd) (simp add: mdMove_def)
  ultimately show ?thesis
    using k1 by (auto simp: beginMissionDeployment_def Pair Let_def split: option.split)
qed

lemma missionKeeps_beginOperation: "missionKeeps q s (snd (beginOperationCommand s k fp expected now))"
proof (cases "prepareCommandIDAdmissionLocked s k retainedOperationCommand now")
  case (Pair e s1)
  from missionKeeps_prepare [OF this] show ?thesis
    by (intro missionKeeps_same) (auto simp: beginOperationCommand_def Pair Let_def
        makeOperationCommandRoomLocked_def installOperation_def split: option.split)
qed

lemma missionKeeps_admitOperation: "missionKeeps q s (snd (admitOperation cd now k msg expected s))"
  by (simp add: admitOperation_def missionKeeps_beginOperation split: option.split)

lemma missionKeeps_sendStep:
  assumes "sendStep ctx lockErr commit serr msg binding s = (st, s')"
    "\<And>f. commit = Some f \<Longrightarrow> missionKeeps q s (snd (f s))"
  shows "missionKeeps q s s'"
proof (cases binding)
  case (Some b)
  obtain out s1 where out: "sendOnSelected b lockErr ctx commit serr msg s = (out, s1)" by fastforce
  then have "missionKeeps q s s1"
    using assms(2) by (auto simp: sendOnSelected_def recordSend_def split: option.splits if_splits
        prod.splits bool.splits)
  then show ?thesis
    using assms(1) Some out by (auto simp: sendStep_def split: sendOutcome.splits)
qed (use assms(1) in \<open>auto simp: sendStep_def split: sum.splits\<close>)

lemma missionKeeps_abort: "missionKeeps q s (abortCommands a b c now s)"
proof -
  have "mdMove own st (completeMissionDeploymentForLostSessionLocked now' reason st)" for own st now' reason
    by (auto simp: mdMove_def completeMissionDeploymentForLostSessionLocked_def Let_def
        cancelDelivery_def mdFinish_def)
  then show ?thesis by (simp add: missionKeeps_def abort_mission_at)
qed

section \<open>The operations that act on operation commands\<close>

lemma truthful_live [simp]: "\<not> op_completed st \<Longrightarrow> truthful st"
  by (simp add: truthful_def)

lemma mget_bound: "wf_session s \<Longrightarrow> mget (operationCommands s) k = Some i \<Longrightarrow> i < opNext s"
  by (auto simp: wf_session_def dest: tableOk_bound)

lemma opsDoneD: "opsDone s \<Longrightarrow> wf_session s \<Longrightarrow> mget (operationCommands s) k = Some i \<Longrightarrow>
    op_completed (opHeap s i)"
  by (simp add: opsDone_def mget_bound del: map_of_eq_Some_iff)

lemma evolves_finishes:
  assumes "wf_session s"
  shows "evolves q s (afterOperationSend s k r attempted (err :: goerror option) now)"
    and "evolves q s (snd (awaitOperationEnded s k r owner e now))"
    and "evolves q s (handleOperationContextCommandAckFrom s b ack now)"
proof -
  have mark: "opMove st (st\<lparr>op_delivered := d\<rparr>)" for st d
    by (simp add: opMove_def truthful_def opFinal_def)
  have fin: "\<not> op_completed st \<Longrightarrow> opMove st (opFinish (a, Some x) now st)"
    "\<not> op_completed st \<Longrightarrow> opMove (st\<lparr>op_delivered := d\<rparr>) (opFinish (a, Some x) now (st\<lparr>op_delivered := d\<rparr>))"
    "\<not> op_completed st \<Longrightarrow> opMove st (opFinish (a, Some x) now (st\<lparr>op_delivered := d\<rparr>))" for st a x d
    by (simp_all add: opMove_def truthful_def opFinish_def)
  note ended = opsDoneD [OF _ assms]
  note ops = opKeeps_def liveKept_def sameContext_def contextOf_def Let_def completeOperation_def
    finishOperationCommand_def
  show "evolves q s (afterOperationSend s k r attempted err now)"
    unfolding evolves_def by (intro conjI missionKeeps_nonMission impI)
      (use ended mark fin in \<open>auto simp: ops afterOperationSend_def markOperationCommandDelivered_def
        split: option.split simp del: map_of_eq_Some_iff\<close>)
  show "evolves q s (snd (awaitOperationEnded s k r owner e now))"
    unfolding evolves_def by (intro conjI missionKeeps_nonMission impI)
      (use ended fin in \<open>auto simp: ops awaitOperationEnded_def simp del: map_of_eq_Some_iff\<close>)
  show "evolves q s (handleOperationContextCommandAckFrom s b ack now)"
    unfolding evolves_def by (intro conjI missionKeeps_nonMission impI)
      (use ended in \<open>auto simp: ops handleOperationContextCommandAckFrom_def
        handleOperationContextCommandAck_def applyContext_def opMove_def truthful_def opFinish_def
        split: option.split simp del: map_of_eq_Some_iff\<close>)
qed

lemma evolves_abort:
  assumes "wf_session s" shows "evolves q s (abortCommands a b c now s)"
proof -
  have move: "opMove st (opFinish (x, Some y) now st)" if "\<not> op_completed st" for st x y
    using that by (simp add: opMove_def truthful_def opFinish_def)
  have "opKeeps s (abortCommands a b c now s)"
    by (auto simp: opKeeps_def liveKept_def abortCommands_def abortLoop_apply move
        opLife.finish_completed)
  moreover have "sameContext s (abortCommands a b c now s)"
    by (simp add: abortCommands_def sameContext_def contextOf_def)
  ultimately show ?thesis by (simp add: evolves_def missionKeeps_abort)
qed

lemma opsDone_live: "wf_session s \<Longrightarrow> opsDone s \<Longrightarrow> liveOperationIDs s = {}"
  by (auto simp: liveOperationIDs_def opsDone_def wf_session_def tableOk_def)

lemma evolves_frame [simp]:
  "evolves q s (s'\<lparr>retired := x\<rparr>) = evolves q s s'" "evolves q s (s'\<lparr>stream := y\<rparr>) = evolves q s s'"
  "evolves q s (s'\<lparr>pendingStream := y\<rparr>) = evolves q s s'" "evolves q s (s'\<lparr>bindings := h\<rparr>) = evolves q s s'"
  "evolves q (s\<lparr>retired := x\<rparr>) s' = evolves q s s'" "evolves q (s\<lparr>stream := y\<rparr>) s' = evolves q s s'"
  "evolves q (s\<lparr>pendingStream := y\<rparr>) s' = evolves q s s'" "evolves q (s\<lparr>bindings := h\<rparr>) s' = evolves q s s'"
  "evolves q s (s'\<lparr>bindingNext := n\<rparr>) = evolves q s s'" "evolves q s (s'\<lparr>streamGeneration := g\<rparr>) = evolves q s s'"
  "evolves q (s\<lparr>bindingNext := n\<rparr>) s' = evolves q s s'" "evolves q (s\<lparr>streamGeneration := g\<rparr>) s' = evolves q s s'"
  by (simp_all add: evolves_def opKeeps_def liveKept_def missionKeeps_def sameContext_def contextOf_def
      opsDone_def)

lemma evolves_replacement:
  assumes "wf_session s" shows "evolves q s (abortPendingCommandsForStreamReplacement s now)"
proof -
  have "evolves q s (s1\<lparr>operationContextUnreconciled := True\<rparr>)"
    if "evolves q s s1" "liveOperationIDs s \<noteq> {}" for s1
    using that opsDone_live [OF assms]
    by (auto simp: evolves_def opKeeps_def liveKept_def missionKeeps_def)
  with evolves_abort [OF assms] show ?thesis
    by (simp add: abortPendingCommandsForStreamReplacement_def Let_def)
qed

lemma evolves_bindings:
  assumes "wf_session s"
  shows "evolves q s (snd (snd (bindStream immediate now s)))"
    and "evolves q s (snd (publicationCommit b isActive now s))"
    and "evolves q s (closeBinding b s)"
    and "evolves q s (snd (snapshotContextAndAbortPending (s\<lparr>retired := True\<rparr>) now))"
proof -
  have wf: "wf_session (s\<lparr>stream := x, pendingStream := y\<rparr>)"
    "wf_session (s\<lparr>streamGeneration := g, bindingNext := n, bindings := h, stream := x\<rparr>)"
    "wf_session (s\<lparr>retired := True\<rparr>)" for x y g n h
    using assms by simp_all
  show "evolves q s (snd (snd (bindStream immediate now s)))"
    using evolves_replacement [OF wf(2), of q _ _ _ _ now]
    by (auto simp: bindStream_def Let_def)
  show "evolves q s (snd (publicationCommit b isActive now s))"
    using evolves_replacement [OF wf(1), of q _ _ now] by (auto simp: publicationCommit_def Let_def)
  show "evolves q s (closeBinding b s)" by (simp add: closeBinding_def Let_def)
  show "evolves q s (snd (snapshotContextAndAbortPending (s\<lparr>retired := True\<rparr>) now))"
    using evolves_abort [OF wf(3), of q _ _ _ now]
    by (simp add: snapshotContextAndAbortPending_def abortPendingCommandsLocked_def)
qed

section \<open>Bundles\<close>

lemma evolves_plain:
  "evolves q s (finishAircraftCommand s k r result err' now)"
  "evolves q s (snd (takeAircraftCommandResult s r))"
  "evolves q s (cancelAircraftCommandWaiter s k r err'' now)"
  "evolves q s (handleAircraftCommandResultFrom s b ares now)"
  "evolves q s (snd (clearContextReserve c s))" "evolves q s (clearContextRelease c s)"
  "evolves q s (touchHeartbeat now s)" "evolves q s (recordSend b m s)"
  "evolves q s (publicationFailed b s)" "evolves q s (releaseGate s)"
  "takeGate s = Some s' \<Longrightarrow> evolves q s s'"
  "evolves q s (snd (failMissionDeploymentReservation s k r err now))"
  "evolves q s (recordMissionDelivery s k r attempted)"
  "evolves q s (missionSendFailed s dm r attempted serr now)"
  "evolves q s (snd (takeMissionDeploymentResult s r))"
  "evolves q s (cancelMissionDeploymentWaiter s k r now)"
  "evolves q s (handleMissionDeploymentResultFrom s b mres now)"
  "evolves q s (missionWaiterGone r s)" "evolves q s (cancelMissionAdmission r s)"
  by (intro evolves_calm calm_aircraft calm_mission calm_small missionKeeps_nonMission
      missionKeeps_mission; assumption?)+

lemma evolves_begins:
  assumes "wf_session s"
  shows "evolves q s (snd (beginAircraftCommandDelivery s c fp now))"
    and "evolves q s (snd (attachMissionDeployment s dm fpo w1 w2 now))"
    and "(\<And>i. q = Some i \<Longrightarrow> md_command (mdHeap s i) = Some dm) \<Longrightarrow>
      evolves q s (snd (beginMissionDeployment s dm fpo q e1 e2 now))"
  using assms by (auto intro: evolves_calm calm_beginAircraft calm_attachMission calm_beginMission
      missionKeeps_beginAircraft missionKeeps_attach missionKeeps_begin)

lemma evolves_sendStep:
  assumes "sendStep ctx lockErr commit serr msg binding s = (st, s')"
    "commit = None \<or> commit = Some (\<lambda>s. commitMissionDelivery s k r)"
  shows "evolves q s s'"
proof (rule evolves_calm)
  show "calm s s'" by (rule calm_sendStep [OF assms(1)]) (use assms(2) calm_mission(6) in auto)
  show "missionKeeps q s s'"
    by (rule missionKeeps_sendStep [OF assms(1)]) (use assms(2) missionKeeps_mission(6) in auto)
qed

lemma gate_prepare:
  "prepareCommandIDAdmissionLocked s k kind now = (e, s1) \<Longrightarrow> operationGate s1 = operationGate s"
  by (auto simp: prepare_defs Let_def)

lemmas room_defs = makeOperationCommandRoomLocked_def makeAircraftCommandRoomLocked_def
  makeMissionDeploymentRoomLocked_def installOperation_def installAircraft_def installMission_def

lemma gate_admitOperation [simp]:
  "operationGate (snd (admitOperation cd now k msg expected s)) = operationGate s"
proof (cases "prepareCommandIDAdmissionLocked s k retainedOperationCommand now")
  case (Pair e s1)
  from gate_prepare [OF this] show ?thesis
    by (auto simp: admitOperation_def beginOperationCommand_def Pair Let_def room_defs split: option.split)
qed

lemma gate_beginAircraft [simp]:
  "operationGate (snd (beginAircraftCommandDelivery s c fp now)) = operationGate s"
proof (cases "prepareCommandIDAdmissionLocked s (acmd_CommandId c) retainedAircraftCommand now")
  case (Pair e s1)
  from gate_prepare [OF this] show ?thesis
    by (auto simp: beginAircraftCommandDelivery_def Pair Let_def room_defs split: option.split)
qed

lemma gate_attachMission [simp]:
  "operationGate (snd (attachMissionDeployment s dm fpo w1 w2 now)) = operationGate s"
proof (cases "prepareCommandIDAdmissionLocked s (dm_CommandId dm) retainedMissionDeployment now")
  case (Pair e s1)
  from gate_prepare [OF this] show ?thesis
    by (auto simp: attachMissionDeployment_def Pair Let_def room_defs split: option.split)
qed

lemma gate_admitMission [simp]:
  "operationGate (snd (admitMissionDelivery s dm fp q e1 e2 now)) = operationGate s"
  by (auto simp: admitMissionDelivery_def activateMission_def Let_def room_defs split: option.split)

lemma gate_beginMission [simp]:
  "operationGate (snd (beginMissionDeployment s dm fpo q e1 e2 now)) = operationGate s"
proof (cases "prepareCommandIDAdmissionLocked s (dm_CommandId dm) retainedMissionDeployment now")
  case (Pair e s1)
  from gate_prepare [OF this] show ?thesis
    by (auto simp: beginMissionDeployment_def Pair Let_def room_defs split: option.split)
qed

lemma gate_plain [simp]:
  "operationGate (finishAircraftCommand s k r result err' now) = operationGate s"
  "operationGate (snd (takeAircraftCommandResult s r)) = operationGate s"
  "operationGate (cancelAircraftCommandWaiter s k r err'' now) = operationGate s"
  "operationGate (handleAircraftCommandResultFrom s b ares now) = operationGate s"
  "operationGate (snd (clearContextReserve c s)) = operationGate s"
  "operationGate (clearContextRelease c s) = operationGate s"
  "operationGate (touchHeartbeat now s) = operationGate s" "operationGate (recordSend b m s) = operationGate s"
  "operationGate (publicationFailed b s) = operationGate s"
  "operationGate (snd (failMissionDeploymentReservation s k r err now)) = operationGate s"
  "operationGate (recordMissionDelivery s k r attempted) = operationGate s"
  "operationGate (missionSendFailed s dm r attempted serr now) = operationGate s"
  "operationGate (snd (takeMissionDeploymentResult s r)) = operationGate s"
  "operationGate (cancelMissionDeploymentWaiter s k r now) = operationGate s"
  "operationGate (handleMissionDeploymentResultFrom s b mres now) = operationGate s"
  "operationGate (missionWaiterGone r s) = operationGate s"
  "operationGate (cancelMissionAdmission r s) = operationGate s"
  "operationGate (snd (commitMissionDelivery s k r)) = operationGate s"
  by (auto simp: finishAircraftCommand_def completeAircraft_def
      takeAircraftCommandResult_def cancelAircraftCommandWaiter_def handleAircraftCommandResultFrom_def
      handleAircraftCommandResult_def clearContextReserve_def reserveEmptyContextReconciliation_def
      clearContextRelease_def releaseEmptyContextReconciliation_def touchHeartbeat_def recordSend_def
      publicationFailed_def failMissionDeploymentReservation_def
      recordMissionDelivery_def missionSendFailed_def finishMissionDeployment_def
      takeMissionDeploymentResult_def cancelMissionDeploymentWaiter_def commitMissionDelivery_def
      missionWaiterGone_def cancelMissionAdmission_def updAdmission_def
      handleMissionDeploymentResultFrom_def handleMissionDeploymentResult_def Let_def
      split: option.split bool.split)

lemma gate_ops [simp]:
  "operationGate (afterOperationSend s k r attempted err now) = operationGate s"
  "operationGate (snd (awaitOperationEnded s k r owner e now)) = operationGate s"
  "operationGate (handleOperationContextCommandAckFrom s b ack now) = operationGate s"
  "operationGate (abortCommands a b' c now s) = operationGate s"
  by (auto simp: afterOperationSend_def awaitOperationEnded_def
      finishOperationCommand_def markOperationCommandDelivered_def completeOperation_def
      handleOperationContextCommandAckFrom_def handleOperationContextCommandAck_def applyContext_def
      abortCommands_def Let_def split: option.split)

lemma gate_bindings [simp]:
  "operationGate (abortPendingCommandsForStreamReplacement s now) = operationGate s"
  "operationGate (snd (snd (bindStream immediate now s))) = operationGate s"
  "operationGate (snd (publicationCommit b isActive now s)) = operationGate s"
  "operationGate (closeBinding b s) = operationGate s"
  "operationGate (snd (snapshotContextAndAbortPending s now)) = operationGate s"
proof -
  show ab: "operationGate (abortPendingCommandsForStreamReplacement s now) = operationGate s" for s
    by (simp add: abortPendingCommandsForStreamReplacement_def Let_def)
  show "operationGate (snd (snd (bindStream immediate now s))) = operationGate s"
    by (simp add: bindStream_def Let_def ab)
  show "operationGate (snd (publicationCommit b isActive now s)) = operationGate s"
    by (simp add: publicationCommit_def Let_def ab)
  show "operationGate (closeBinding b s) = operationGate s" by (simp add: closeBinding_def Let_def)
  show "operationGate (snd (snapshotContextAndAbortPending s now)) = operationGate s"
    by (simp add: snapshotContextAndAbortPending_def abortPendingCommandsLocked_def)
qed

lemma gate_send:
  assumes "sendStep ctx lockErr commit serr msg binding s = (st, s')"
    "\<And>f. commit = Some f \<Longrightarrow> operationGate (snd (f s)) = operationGate s"
  shows "operationGate s' = operationGate s"
proof (cases binding)
  case (Some b)
  obtain out s1 where out: "sendOnSelected b lockErr ctx commit serr msg s = (out, s1)" by fastforce
  then have "operationGate s1 = operationGate s"
    using assms(2) by (auto simp: sendOnSelected_def recordSend_def split: option.splits if_splits
        prod.splits bool.splits)
  then show ?thesis
    using assms(1) Some out by (auto simp: sendStep_def split: sendOutcome.splits)
qed (use assms(1) in \<open>auto simp: sendStep_def split: sum.splits\<close>)

text \<open>Admission of an operation command: what it returns and what it leaves.\<close>

text \<open>What an admission does: it is refused, attaches to the retained command, or installs a new one,
  after a completed command of the same ID or in a room made for it.\<close>

lemma admitOperation_shape:
  assumes adm: "admitOperation cd now k msg expected s = (res, s')"
    and prep: "prepareCommandIDAdmissionLocked s k retainedOperationCommand now = (e1, s1)"
  obtains
    (refused) "s' = s \<or> s' = s1 \<or> s' = makeOperationCommandRoomLocked s1" "\<exists>e. res = Inl e"
  | (attached) r f where "s' = s1" "res = Inr (r, False)" "mget (operationCommands s1) k = Some r"
      "dg_op cd msg = Some f" "op_fingerprint (opHeap s1 r) = f"
  | (again) r f where "s' = installOperation s1 k (newOperationState f expected)"
      "res = Inr (opNext s1, True)" "mget (operationCommands s1) k = Some r" "op_completed (opHeap s1 r)"
      "dg_op cd msg = Some f"
  | (fresh) f where "res = Inr (opNext s1, True)" "mget (operationCommands s1) k = None"
      "s' = installOperation (makeOperationCommandRoomLocked s1) k (newOperationState f expected)"
      "dg_op cd msg = Some f"
proof (cases "dg_op cd msg")
  case None
  then show thesis using adm refused by (auto simp: admitOperation_def)
next
  case (Some f)
  note eq = adm [unfolded admitOperation_def Some option.case beginOperationCommand_def prep Let_def prod.case]
  show thesis
  proof (cases "e1 = None")
    case False
    with eq refused show thesis by auto
  next
    case ok: True
    show thesis
    proof (cases "mget (operationCommands s1) k")
      case (Some r)
      show thesis
        using eq ok Some \<open>dg_op cd msg = Some f\<close> refused attached [of r f] again [of f r]
        by (auto split: if_splits simp del: map_of_eq_Some_iff)
    next
      case none: None
      have "opNext (makeOperationCommandRoomLocked s1) = opNext s1"
        by (simp add: makeOperationCommandRoomLocked_def)
      then show thesis
        using eq ok none \<open>dg_op cd msg = Some f\<close> refused fresh [of f]
        by (auto split: if_splits simp del: map_of_eq_None_iff)
    qed
  qed
qed

text \<open>Commands in flight keep their entries: when room is made, and when another ID is installed.\<close>

lemma liveKept_room:
  assumes "wf_session s1" "liveKept s s1" "opHeap s1 = opHeap s"
  shows "liveKept s (makeOperationCommandRoomLocked s1)"
  unfolding liveKept_def
proof (intro allI impI, elim conjE)
  fix k j assume j: "mget (operationCommands s) k = Some j" "j < opNext s"
    "\<not> op_completed (opHeap (makeOperationCommandRoomLocked s1) j)"
  then have nc: "\<not> op_completed (opHeap s1 j)" by (simp add: makeOperationCommandRoomLocked_def)
  then have m: "mget (operationCommands s1) k = Some j"
    using assms(2) j(1,2) by (simp add: liveKept_def del: map_of_eq_Some_iff)
  have t: "mok (operationCommands s1)" "[] \<notin> mkeys (operationCommands s1)"
    using assms(1) by (simp_all add: wf_session_def tableOk_def)
  have "(k, j) \<in> set (makeRoom op_completed op_completedAt (opHeap s1) (operationCommands s1))"
    using makeRoom_evicts [OF t, of op_completed op_completedAt "opHeap s1"] mget_Some_mem [OF m] nc by auto
  from mem_mget [OF mok_makeRoom [OF t(1)] this]
  show "mget (operationCommands (makeOperationCommandRoomLocked s1)) k = Some j"
    by (simp add: makeOperationCommandRoomLocked_def del: map_of_eq_Some_iff)
qed

lemma liveKept_install:
  assumes "liveKept s x" "opHeap x = opHeap s" "opNext x = opNext s"
    and "\<And>r. mget (operationCommands x) k = Some r \<Longrightarrow> op_completed (opHeap s r)"
  shows "liveKept s (installOperation x k st)"
  unfolding liveKept_def
proof (intro allI impI, elim conjE)
  fix k' j assume j: "mget (operationCommands s) k' = Some j" "j < opNext s"
    "\<not> op_completed (opHeap (installOperation x k st) j)"
  then have nc: "\<not> op_completed (opHeap s j)" using assms(2,3) by (simp add: installOperation_def)
  have m: "mget (operationCommands x) k' = Some j"
    using assms(1,2) j(1,2) nc by (simp add: liveKept_def del: map_of_eq_Some_iff)
  with assms(4) nc have "k' \<noteq> k" by blast
  with m show "mget (operationCommands (installOperation x k st)) k' = Some j"
    by (simp add: installOperation_def mget_mput del: map_of_eq_Some_iff)
qed

lemma liveKept_admitOperation:
  assumes "wf_session s" "k \<noteq> []" "admitOperation cd now k msg expected s = (res, s')"
  shows "liveKept s s'"
proof -
  obtain e1 s1 where prep: "prepareCommandIDAdmissionLocked s k retainedOperationCommand now = (e1, s1)"
    by fastforce
  have c: "calm s s1" using calm_prepare [OF assms(1) prep] .
  have same: "opHeap s1 = opHeap s" "opNext s1 = opNext s" and live: "liveKept s s1"
    using c by (simp_all add: calm_def)
  note room = liveKept_room [OF wf_prepareD [OF assms(1) prep] live same(1)]
  from assms(3) prep show ?thesis
  proof (cases rule: admitOperation_shape)
    case refused
    with live room show ?thesis by (auto simp: liveKept_def)
  next
    case (again r f)
    with live same show ?thesis by (auto intro!: liveKept_install simp del: map_of_eq_Some_iff)
  next
    case (fresh f)
    have "mget (operationCommands (makeOperationCommandRoomLocked s1)) k = None"
      using mget_makeRoom_None [OF fresh(2)]
      by (simp add: makeOperationCommandRoomLocked_def del: map_of_eq_None_iff)
    then show ?thesis
      unfolding fresh(3) using same by (intro liveKept_install [OF room])
        (simp_all add: makeOperationCommandRoomLocked_def del: map_of_eq_Some_iff map_of_eq_None_iff)
  qed (use live in simp)
qed

lemma admitOperation_facts:
  assumes "wf_session s" "k \<noteq> []" "admitOperation cd now k msg expected s = (res, s')"
  shows "evolves q s s'" and "sameContext s s'"
    and "res = Inl e \<Longrightarrow> opNext s' = opNext s"
    and "res = Inr (i, True) \<Longrightarrow> i = opNext s \<and> opNext s' = Suc i \<and> \<not> op_completed (opHeap s' i) \<and>
      mget (operationCommands s') k = Some i \<and> dg_op cd msg = Some (op_fingerprint (opHeap s' i)) \<and>
      op_expected (opHeap s' i) = expected"
    and "res = Inr (i, False) \<Longrightarrow> opNext s' = opNext s \<and> i < opNext s \<and>
      dg_op cd msg = Some (op_fingerprint (opHeap s' i))"
proof -
  obtain e1 s1 where prep: "prepareCommandIDAdmissionLocked s k retainedOperationCommand now = (e1, s1)"
    by fastforce
  note wf1 = wf_prepareD [OF assms(1) prep]
  have c: "calm s s1" using calm_prepare [OF assms(1) prep] .
  have same: "opHeap s1 = opHeap s" "opNext s1 = opNext s" "sameContext s s1"
    using c by (simp_all add: calm_def sameContext_def)
  note shape = admitOperation_shape [OF assms(3) prep]
  note defs = installOperation_def newOperationState_def zeroOp_def makeOperationCommandRoomLocked_def
  have ctx: "sameContext s s'"
    by (cases rule: shape) (use same(3) in \<open>auto simp: defs sameContext_def contextOf_def\<close>)
  then show "sameContext s s'" .
  have "opNext s \<le> opNext s'" "\<And>i. i < opNext s \<Longrightarrow> opHeap s' i = opHeap s i"
    by (cases rule: shape; use same(1,2) in \<open>auto simp: defs\<close>)+
  with ctx show "evolves q s s'"
    using missionKeeps_admitOperation [of q s cd now k msg expected] liveKept_admitOperation [OF assms] assms(3)
    by (simp add: evolves_def opKeeps_def)
  show "res = Inl e \<Longrightarrow> opNext s' = opNext s"
    by (cases rule: shape) (use same in \<open>auto simp: defs\<close>)
  show "res = Inr (i, True) \<Longrightarrow> i = opNext s \<and> opNext s' = Suc i \<and> \<not> op_completed (opHeap s' i) \<and>
      mget (operationCommands s') k = Some i \<and> dg_op cd msg = Some (op_fingerprint (opHeap s' i)) \<and>
      op_expected (opHeap s' i) = expected"
    by (cases rule: shape) (use same in \<open>auto simp: defs mget_mput simp del: map_of_eq_Some_iff\<close>)
  show "res = Inr (i, False) \<Longrightarrow> opNext s' = opNext s \<and> i < opNext s \<and>
      dg_op cd msg = Some (op_fingerprint (opHeap s' i))"
    by (cases rule: shape) (use same mget_bound [OF wf1] in
      \<open>auto simp: defs simp del: map_of_eq_Some_iff\<close>)
qed

end
