(* ===== verification/Tasks.thy ===== *)
theory Tasks
  imports HandlerFacts
begin

text \<open>
  The invariant of the Relay with its tasks.  Every task is in order with the Relay (\<open>taskOk\<close>), the
  token of each session's gate is held by exactly the task that took it, every operation command in
  flight belongs to the handler that delivers it, and each reservation to one worker.
\<close>

section \<open>What a task relies on\<close>

fun pointsAt :: "task \<Rightarrow> nat option" where
  "pointsAt (SetContextTask (SetQueued aid c p)) = Some p"
| "pointsAt (ClearContextTask (ClearQueued aid c p)) = Some p"
| "pointsAt (AircraftTask (AircraftChosen aid c p)) = Some p"
| "pointsAt (AircraftTask (AircraftAwaiting c p i)) = Some p"
| "pointsAt (DeployTask (DeployChosen aid c p)) = Some p"
| "pointsAt (DeployTask (DeployQueued aid c p)) = Some p"
| "pointsAt (DeployTask (DeployAwaiting c p i False)) = Some p"
| "pointsAt (MissionWaiterTask (WaiterWatching p i)) = Some p"
| "pointsAt (ReservationTask (ReservationQueued aid p i)) = Some p"
| "pointsAt (ReservationTask (ReservationFailing p i e False)) = Some p"
| "pointsAt (ReservationTask (ReservationEnding p i)) = Some p"
| "pointsAt (StreamTask (StreamFound aid sid p)) = Some p"
| "pointsAt (StreamTask (StreamChecking aid p b)) = Some p"
| "pointsAt (StreamTask (StreamUnpublished aid p b e)) = Some p"
| "pointsAt (StreamTask (StreamLoop aid p b)) = Some p"
| "pointsAt (StreamTask (StreamAcking aid p b ack)) = Some p"
| "pointsAt (StreamTask (StreamClosing aid p b err)) = Some p"
| "pointsAt t = (if gateOf t = None then leaseOf t else gateOf t)"

text \<open>The command ID a task still admits, and the Agent ID it registers or closes under.\<close>

fun admits :: "task \<Rightarrow> string option" where
  "admits (SetContextTask (SetQueued aid c p)) = Some (sc_CommandId c)"
| "admits (SetContextTask (SetSlot aid c p)) = Some (sc_CommandId c)"
| "admits (ClearContextTask (ClearQueued aid c p)) = Some (cc_CommandId c)"
| "admits (ClearContextTask (ClearSlot aid c p)) = Some (cc_CommandId c)"
| "admits (ClearContextTask (ClearReserved aid c p)) = Some (cc_CommandId c)"
| "admits (ClearContextTask (ClearLeased aid c p expected)) = Some (cc_CommandId c)"
| "admits (AircraftTask (AircraftChosen aid c p)) = Some (acmd_CommandId c)"
| "admits (AircraftTask (AircraftLeased aid c p)) = Some (acmd_CommandId c)"
| "admits (DeployTask (DeployChosen aid c p)) = Some (dm_CommandId c)"
| "admits (DeployTask (DeployLeased aid c p)) = Some (dm_CommandId c)"
| "admits (DeployTask (DeployQueued aid c p)) = Some (dm_CommandId c)"
| "admits (DeployTask (DeploySlot aid c p)) = Some (dm_CommandId c)"
| "admits (DeployTask (DeploySlotLeased aid c p)) = Some (dm_CommandId c)"
| "admits (DeployTask (DeployFencing aid c p)) = Some (dm_CommandId c)"
| "admits (DeployTask (DeployAdmitting aid c p)) = Some (dm_CommandId c)"
| "admits (RegisterTask (RegisterReading aid sid)) = Some aid"
| "admits (RegisterTask (RegisterReplacing aid sid previous)) = Some aid"
| "admits (StreamTask (StreamIdentified aid sid)) = Some aid"
| "admits (StreamTask (StreamFound aid sid p)) = Some aid"
| "admits (StreamTask (StreamChecking aid p b)) = Some aid"
| "admits (StreamTask (StreamAnnouncing aid p b isActive)) = Some aid"
| "admits (StreamTask (StreamAnnounced aid p b isActive g a)) = Some aid"
| "admits (StreamTask (StreamCommitting aid p b isActive)) = Some aid"
| "admits (StreamTask (StreamUnpublished aid p b e)) = Some aid"
| "admits (StreamTask (StreamLoop aid p b)) = Some aid"
| "admits (StreamTask (StreamAcking aid p b ack)) = Some aid"
| "admits (StreamTask (StreamClosing aid p b err)) = Some aid"
| "admits t = None"

text \<open>The binding a delivery has chosen.\<close>

fun chosen :: "task \<Rightarrow> (nat \<times> nat) option" where
  "chosen (SetContextTask (SetDelivering aid c p i (Sending (Some b)))) = Some (p, b)"
| "chosen (ClearContextTask (ClearDelivering aid c p i (Sending (Some b)))) = Some (p, b)"
| "chosen (AircraftSendTask (AircraftSending c p i (Sending (Some b)))) = Some (p, b)"
| "chosen (MissionSendTask (MissionSending c p i (Sending (Some b)))) = Some (p, b)"
| "chosen t = None"

text \<open>The operation command a handler delivers, under its ID, and the one it waits for, with the
  message that asked for it.\<close>

fun ownsOp :: "task \<Rightarrow> (nat \<times> nat \<times> string) option" where
  "ownsOp (SetContextTask (SetDelivering aid c p i st)) = Some (p, i, sc_CommandId c)"
| "ownsOp (SetContextTask (SetAwaiting aid c p i True)) = Some (p, i, sc_CommandId c)"
| "ownsOp (ClearContextTask (ClearDelivering aid c p i st)) = Some (p, i, cc_CommandId c)"
| "ownsOp (ClearContextTask (ClearAwaiting aid c p i True)) = Some (p, i, cc_CommandId c)"
| "ownsOp t = None"

fun awaitsOp :: "task \<Rightarrow> (nat \<times> nat \<times> relayMsg) option" where
  "awaitsOp (SetContextTask (SetDelivering aid c p i st)) = Some (p, i, SetOperationContextMsg c)"
| "awaitsOp (SetContextTask (SetAwaiting aid c p i owner)) = Some (p, i, SetOperationContextMsg c)"
| "awaitsOp (ClearContextTask (ClearDelivering aid c p i st)) = Some (p, i, ClearOperationContextMsg c)"
| "awaitsOp (ClearContextTask (ClearAwaiting aid c p i owner)) = Some (p, i, ClearOperationContextMsg c)"
| "awaitsOp t = None"

text \<open>The mission a send task delivers, and the one whose \<open>Send\<close> it has invoked.\<close>

fun sendsMission :: "task \<Rightarrow> (nat \<times> nat) option" where
  "sendsMission (MissionSendTask (MissionSending c p i st)) = Some (p, i)"
| "sendsMission (MissionSendTask (MissionFailing c p i attempted err)) = Some (p, i)"
| "sendsMission t = None"

fun sentMission :: "task \<Rightarrow> (nat \<times> nat) option" where
  "sentMission (MissionSendTask (MissionSending c p i (Sent True err))) = Some (p, i)"
| "sentMission t = None"

text \<open>The reservation a worker may still activate, and the one it is activating.\<close>

fun reservedBy :: "task \<Rightarrow> (nat \<times> nat) list" where
  "reservedBy (DeployTask (DeployYielding aid c p i True)) = [(p, i)]"
| "reservedBy (ReservationTask (ReservationQueued aid p i)) = [(p, i)]"
| "reservedBy (ReservationTask (ReservationSlot aid p i)) = [(p, i)]"
| "reservedBy (ReservationTask (ReservationLeased aid p i)) = [(p, i)]"
| "reservedBy (ReservationTask (ReservationFencing aid p i)) = [(p, i)]"
| "reservedBy (ReservationTask (ReservationAdmitting aid p i)) = [(p, i)]"
| "reservedBy t = []"

definition activating :: "task \<Rightarrow> nat \<Rightarrow> nat option" where
  "activating t p = (case t of
     ReservationTask (ReservationAdmitting aid p' i) \<Rightarrow> if p' = p then Some i else None
   | _ \<Rightarrow> None)"

text \<open>The mission about to be admitted, whose context check has passed.\<close>

fun fencing :: "Relay \<Rightarrow> task \<Rightarrow> (nat \<times> deployMissionCommand) option" where
  "fencing r (DeployTask (DeployAdmitting aid c p)) = Some (p, c)"
| "fencing r (ReservationTask (ReservationAdmitting aid p i)) = Some (p, reservedCommand (sessHeap r p) i)"
| "fencing r t = None"

text \<open>The context a message asks for: of a set exactly its own, of a clear none, or another flight's
  when the clear is conditional.\<close>

definition fits :: "relayMsg \<Rightarrow> operationContext option \<Rightarrow> bool" where
  "fits msg e = (case msg of
     SetOperationContextMsg c \<Rightarrow> e = sc_Context c
   | ClearOperationContextMsg c \<Rightarrow>
       (case e of None \<Rightarrow> True | Some x \<Rightarrow> \<not> cc_Authoritative c \<and> FlightId x \<noteq> cc_FlightId c)
   | _ \<Rightarrow> False)"

fun expecting :: "task \<Rightarrow> (relayMsg \<times> operationContext option) option" where
  "expecting (ClearContextTask (ClearLeased aid c p e)) = Some (ClearOperationContextMsg c, e)"
| "expecting t = None"

text \<open>A result about to be returned, with the message that asked for it: an applied acknowledgement
  reports a context fitting a message of the same digest.\<close>

fun replying :: "task \<Rightarrow> (relayMsg \<times> contextAck option) option" where
  "replying (SetContextTask (SetReplying aid c p (ack, None))) = Some (SetOperationContextMsg c, ack)"
| "replying (SetContextTask (SetLeaving c p (Inr ack))) = Some (SetOperationContextMsg c, ack)"
| "replying (ClearContextTask (ClearReplying aid c p (ack, None))) = Some (ClearOperationContextMsg c, ack)"
| "replying (ClearContextTask (ClearUnwinding c p (Inr ack))) = Some (ClearOperationContextMsg c, ack)"
| "replying (ClearContextTask (ClearLeaving c p (Inr ack))) = Some (ClearOperationContextMsg c, ack)"
| "replying t = None"

definition proved :: "codec \<Rightarrow> relayMsg \<Rightarrow> contextAck option \<Rightarrow> bool" where
  "proved cd msg ack \<longleftrightarrow> (\<exists>a. ack = Some a \<and> (ackApplied a \<longrightarrow>
     (\<exists>m f. dg_op cd m = Some f \<and> dg_op cd msg = Some f \<and> fits m (ack_ActiveContext a))))"

definition taskOk :: "codec \<Rightarrow> Relay \<Rightarrow> task \<Rightarrow> bool" where
  "taskOk cd r t \<longleftrightarrow>
     (\<forall>p. pointsAt t = Some p \<longrightarrow> p < sessNext r) \<and>
     (\<forall>k. admits t = Some k \<longrightarrow> k \<noteq> []) \<and>
     (\<forall>p. leaseOf t = Some p \<longrightarrow> p < sessNext r \<and> \<not> retired (sessHeap r p)) \<and>
     (\<forall>p b. chosen t = Some (p, b) \<longrightarrow> stream (sessHeap r p) = Some b) \<and>
     (\<forall>p i k. ownsOp t = Some (p, i, k) \<longrightarrow> i < opNext (sessHeap r p) \<and>
        (op_completed (opHeap (sessHeap r p) i) \<or> mget (operationCommands (sessHeap r p)) k = Some i)) \<and>
     (\<forall>p i msg. awaitsOp t = Some (p, i, msg) \<longrightarrow> i < opNext (sessHeap r p) \<and>
        dg_op cd msg = Some (op_fingerprint (opHeap (sessHeap r p) i))) \<and>
     (\<forall>p i. sendsMission t = Some (p, i) \<longrightarrow> i < mdNext (sessHeap r p) \<and>
        \<not> md_reserved (mdHeap (sessHeap r p) i)) \<and>
     (\<forall>p i. sentMission t = Some (p, i) \<longrightarrow> md_resultAdmissionOpen (mdHeap (sessHeap r p) i)) \<and>
     (\<forall>(p, i) \<in> set (reservedBy t). i < mdNext (sessHeap r p) \<and> md_reserved (mdHeap (sessHeap r p) i) \<and>
        (\<exists>c. md_command (mdHeap (sessHeap r p) i) = Some c \<and> dm_CommandId c \<noteq> [])) \<and>
     (\<forall>p c. fencing r t = Some (p, c) \<longrightarrow> missionFence (sessHeap r p) c = None) \<and>
     (\<forall>msg e. expecting t = Some (msg, e) \<longrightarrow> fits msg e) \<and>
     (\<forall>msg ack. replying t = Some (msg, ack) \<longrightarrow> proved cd msg ack)"

text \<open>The operation commands of a session: truthful, and each expecting what a message of its digest
  asked for.\<close>

definition opsFit :: "codec \<Rightarrow> DroneSession \<Rightarrow> bool" where
  "opsFit cd s \<longleftrightarrow> (\<forall>i < opNext s. truthful (opHeap s i) \<and>
     (\<exists>m. dg_op cd m = Some (op_fingerprint (opHeap s i)) \<and> fits m (op_expected (opHeap s i))))"

definition holders :: "nat \<Rightarrow> task list \<Rightarrow> nat" where
  "holders p ts = length (filter (\<lambda>t. gateOf t = Some p) ts)"

definition gatesOk :: "Relay \<Rightarrow> task list \<Rightarrow> bool" where
  "gatesOk r ts \<longleftrightarrow> (\<forall>p < sessNext r. holders p ts = (if operationGate (sessHeap r p) then 0 else 1))"

definition owned :: "Relay \<Rightarrow> task list \<Rightarrow> bool" where
  "owned r ts \<longleftrightarrow> (\<forall>p < sessNext r. \<forall>i < opNext (sessHeap r p).
     \<not> op_completed (opHeap (sessHeap r p) i) \<longrightarrow> (\<exists>t \<in> set ts. \<exists>k. ownsOp t = Some (p, i, k)))"

definition systemOk :: "codec \<Rightarrow> Relay \<times> task list \<Rightarrow> bool" where
  "systemOk cd c = (case c of (r, ts) \<Rightarrow>
     relayReach r \<and> (\<forall>t \<in> set ts. taskOk cd r t) \<and> (\<forall>p < sessNext r. opsFit cd (sessHeap r p)) \<and>
     gatesOk r ts \<and> owned r ts \<and> distinct (concat (map reservedBy ts)))"

section \<open>One step of a task, for the others\<close>

text \<open>What a section guarantees to the other tasks and to the invariant.\<close>

definition evolvesAll :: "task \<Rightarrow> Relay \<Rightarrow> Relay \<Rightarrow> bool" where
  "evolvesAll t r r' \<longleftrightarrow> sessNext r \<le> sessNext r' \<and>
     (\<forall>p < sessNext r. evolves (activating t p) (sessHeap r p) (sessHeap r' p) \<and>
        (retiring t \<noteq> Some p \<longrightarrow> retired (sessHeap r' p) = retired (sessHeap r p)) \<and>
        (rebinding r t \<noteq> Some p \<longrightarrow> stream (sessHeap r' p) = stream (sessHeap r p)))"

definition gateMoves :: "task \<Rightarrow> task \<Rightarrow> Relay \<Rightarrow> Relay \<Rightarrow> bool" where
  "gateMoves t t' r r' \<longleftrightarrow> (\<forall>p < sessNext r'.
     (if p < sessNext r
      then (gateOf t' = Some p \<and> gateOf t = Some p \<or> gateOf t' \<noteq> Some p \<and> gateOf t \<noteq> Some p) \<and>
             operationGate (sessHeap r' p) = operationGate (sessHeap r p) \<or>
           gateOf t \<noteq> Some p \<and> gateOf t' = Some p \<and>
             operationGate (sessHeap r p) \<and> \<not> operationGate (sessHeap r' p) \<or>
           gateOf t = Some p \<and> gateOf t' \<noteq> Some p \<and> operationGate (sessHeap r' p)
      else gateOf t' \<noteq> Some p \<and> operationGate (sessHeap r' p)))"

definition opsMove :: "codec \<Rightarrow> task \<Rightarrow> task \<Rightarrow> Relay \<Rightarrow> Relay \<Rightarrow> bool" where
  "opsMove cd t t' r r' \<longleftrightarrow> (\<forall>p < sessNext r'.
     (\<forall>i < opNext (sessHeap r' p). \<not> op_completed (opHeap (sessHeap r' p) i) \<longrightarrow>
        (\<exists>k. ownsOp t' = Some (p, i, k)) \<or>
        p < sessNext r \<and> i < opNext (sessHeap r p) \<and> \<not> op_completed (opHeap (sessHeap r p) i) \<and>
          (\<forall>k. ownsOp t \<noteq> Some (p, i, k))) \<and>
     ((p < sessNext r \<longrightarrow> opsFit cd (sessHeap r p)) \<longrightarrow> opsFit cd (sessHeap r' p)))"

definition reservesMove :: "task \<Rightarrow> (nat \<times> nat) list \<Rightarrow> Relay \<Rightarrow> bool" where
  "reservesMove t qs r \<longleftrightarrow> distinct qs \<and> (\<forall>(p, i) \<in> set qs. (p, i) \<in> set (reservedBy t) \<or>
     p < sessNext r \<and> i \<ge> mdNext (sessHeap r p))"

definition goodStep :: "codec \<Rightarrow> Relay \<Rightarrow> task \<Rightarrow> Relay \<Rightarrow> task \<Rightarrow> task list \<Rightarrow> bool" where
  "goodStep cd r t r' t' new \<longleftrightarrow> relayRun r r' \<and> evolvesAll t r r' \<and> taskOk cd r' t' \<and>
     (\<forall>u \<in> set new. taskOk cd r' u \<and> gateOf u = None) \<and> gateMoves t t' r r' \<and> opsMove cd t t' r r' \<and>
     reservesMove t (reservedBy t' @ concat (map reservedBy new)) r"

end
