(* ===== verification/TaskSteps.thy ===== *)
theory TaskSteps
  imports Tasks
begin

text \<open>
  Every section of every task keeps the invariant of the system.
\<close>

section \<open>A good step keeps the system in order\<close>

lemma missionFence_same: "sameContext s s' \<Longrightarrow> missionFence s' c = missionFence s c"
  by (auto simp: sameContext_def contextOf_def missionFence_def missionContextMatches_def split: option.split)

lemma chosen_locks: "chosen t = Some (p, b) \<Longrightarrow> fenceOf t = Some p \<and> leaseOf t = Some p"
  by (cases t rule: chosen.cases) auto

lemma owns_gate: "ownsOp t = Some (p, i, k) \<Longrightarrow> gateOf t = Some p \<and> pointsAt t = Some p"
  by (cases t rule: ownsOp.cases) auto

lemma awaits_points: "awaitsOp t = Some (p, i, m) \<Longrightarrow> gateOf t = Some p \<and> pointsAt t = Some p"
  by (cases t rule: awaitsOp.cases) auto

lemma sends_lease: "sendsMission t = Some (p, i) \<Longrightarrow> leaseOf t = Some p"
  by (cases t rule: sendsMission.cases) auto

lemma sent_sends: "sentMission t = Some (p, i) \<Longrightarrow> sendsMission t = Some (p, i)"
  by (cases t rule: sentMission.cases) auto

lemma reserved_points: "(p, i) \<in> set (reservedBy t) \<Longrightarrow> pointsAt t = Some p"
  by (cases t rule: reservedBy.cases) auto

lemma fencing_gate: "fencing r t = Some (p, c) \<Longrightarrow> gateOf t = Some p \<and> pointsAt t = Some p \<and> ownsOp t = None"
  by (cases "(r, t)" rule: fencing.cases) auto

lemma fencing_command:
  assumes "fencing r' t = Some (p, c)" "taskOk cd r t" "evolvesAll t' r r'"
  shows "fencing r t = Some (p, c)"
proof (cases "(r', t)" rule: fencing.cases)
  case (2 r1 aid p1 i)
  then have p: "p < sessNext r" and i: "i < mdNext (sessHeap r p)"
    using assms(1,2) by (auto simp: taskOk_def)
  then have "evolves (activating t' p) (sessHeap r p) (sessHeap r' p)"
    using assms(3) by (simp add: evolvesAll_def)
  with i have "md_command (mdHeap (sessHeap r' p) i) = md_command (mdHeap (sessHeap r p) i)"
    by (simp add: evolves_def missionKeeps_def mdMove_def)
  with 2 assms(1) show ?thesis by (auto simp: reservedCommand_def)
qed (use assms(1) in auto)

lemma taskOkD:
  assumes "taskOk cd r t"
  shows "pointsAt t = Some p \<Longrightarrow> p < sessNext r"
    and "admits t = Some k \<Longrightarrow> k \<noteq> []"
    and "leaseOf t = Some p \<Longrightarrow> p < sessNext r \<and> \<not> retired (sessHeap r p)"
    and "chosen t = Some (p, b) \<Longrightarrow> stream (sessHeap r p) = Some b"
    and "ownsOp t = Some (p, i, k) \<Longrightarrow> i < opNext (sessHeap r p) \<and>
      (op_completed (opHeap (sessHeap r p) i) \<or> mget (operationCommands (sessHeap r p)) k = Some i)"
    and "awaitsOp t = Some (p, i, msg) \<Longrightarrow> i < opNext (sessHeap r p) \<and>
      dg_op cd msg = Some (op_fingerprint (opHeap (sessHeap r p) i))"
    and "sendsMission t = Some (p, i) \<Longrightarrow> i < mdNext (sessHeap r p) \<and>
      \<not> md_reserved (mdHeap (sessHeap r p) i)"
    and "sentMission t = Some (p, i) \<Longrightarrow> md_resultAdmissionOpen (mdHeap (sessHeap r p) i)"
    and "(p, i) \<in> set (reservedBy t) \<Longrightarrow> i < mdNext (sessHeap r p) \<and>
      md_reserved (mdHeap (sessHeap r p) i) \<and>
      (\<exists>c. md_command (mdHeap (sessHeap r p) i) = Some c \<and> dm_CommandId c \<noteq> [])"
    and "fencing r t = Some (p, dm) \<Longrightarrow> missionFence (sessHeap r p) dm = None"
    and "expecting t = Some (msg, e) \<Longrightarrow> fits msg e"
    and "replying t = Some (msg, ack) \<Longrightarrow> proved cd msg ack"
  using assms by (auto simp: taskOk_def simp del: map_of_eq_Some_iff)

text \<open>What a task relies on at a session survives a section of another task.\<close>

lemma owns_evolves:
  assumes "evolves q s s'" "i < opNext s"
    "op_completed (opHeap s i) \<or> mget (operationCommands s) k = Some i"
  shows "i < opNext s'" "op_completed (opHeap s' i) \<or> mget (operationCommands s') k = Some i"
  using assms by (auto simp: evolves_def opKeeps_def liveKept_def opMove_def opFinal_def
      simp del: map_of_eq_Some_iff)

lemma awaits_evolves:
  assumes "evolves q s s'" "i < opNext s"
  shows "i < opNext s'" "op_fingerprint (opHeap s' i) = op_fingerprint (opHeap s i)"
  using assms by (auto simp: evolves_def opKeeps_def opMove_def)

lemma stays_unreserved:
  "evolves q s s' \<Longrightarrow> i < mdNext s \<Longrightarrow> \<not> md_reserved (mdHeap s i) \<Longrightarrow>
     i < mdNext s' \<and> \<not> md_reserved (mdHeap s' i)"
  by (auto simp: evolves_def missionKeeps_def mdMove_def)

lemma stays_open:
  "evolves q s s' \<Longrightarrow> i < mdNext s \<Longrightarrow> md_resultAdmissionOpen (mdHeap s i) \<Longrightarrow>
     md_resultAdmissionOpen (mdHeap s' i)"
  by (auto simp: evolves_def missionKeeps_def mdMove_def)

lemma stays_reserved:
  "evolves q s s' \<Longrightarrow> i < mdNext s \<Longrightarrow> md_reserved (mdHeap s i) \<Longrightarrow> q \<noteq> Some i \<Longrightarrow>
     i < mdNext s' \<and> md_reserved (mdHeap s' i) \<and> md_command (mdHeap s' i) = md_command (mdHeap s i)"
  by (auto simp: evolves_def missionKeeps_def mdMove_def)

lemma undisturbed:
  assumes ok: "taskOk cd r u" and ev: "evolvesAll t r r'" and free: "\<not> lockedOut r t u"
    and apart: "\<And>p i. (p, i) \<in> set (reservedBy u) \<Longrightarrow> activating t p \<noteq> Some i"
    and idle: "\<And>p c. fencing r u = Some (p, c) \<Longrightarrow> opsDone (sessHeap r p)"
  shows "taskOk cd r' u"
proof -
  note O = taskOkD [OF ok]
  have grows: "sessNext r \<le> sessNext r'" using ev by (simp add: evolvesAll_def)
  have at: "evolves (activating t p) (sessHeap r p) (sessHeap r' p)" if "p < sessNext r" for p
    using ev that by (simp add: evolvesAll_def)
  have lease: "p < sessNext r \<and> \<not> retired (sessHeap r' p)" if "leaseOf u = Some p" for p
    using O(3) [OF that] free that ev by (auto simp: lockedOut_def meets_def evolvesAll_def)
  have fence: "stream (sessHeap r' p) = stream (sessHeap r p)" if "fenceOf u = Some p" "leaseOf u = Some p" for p
    using O(3) [OF that(2)] free that(1) ev by (auto simp: lockedOut_def meets_def evolvesAll_def)
  note op = O(1) owns_gate awaits_points
  note md = lease sends_lease sent_sends
  show ?thesis
    unfolding taskOk_def
  proof (intro conjI allI impI ballI, goal_cases)
    case (1 p) then show ?case using O(1) grows by fastforce
  next
    case (2 k) then show ?case using O(2) by blast
  next
    case (3 p) then show ?case using lease grows by fastforce
  next
    case (4 p) then show ?case using lease by blast
  next
    case (5 p b) then show ?case using fence chosen_locks O(4) by fastforce
  next
    case (6 p i k) then show ?case using owns_evolves(1) [OF at] op O(5) by blast
  next
    case (7 p i k) then show ?case using owns_evolves(2) [OF at] op O(5) by blast
  next
    case (8 p i m) then show ?case using awaits_evolves(1) [OF at] op O(6) by blast
  next
    case (9 p i m) then show ?case using awaits_evolves(2) [OF at] op O(6) by metis
  next
    case (10 p i) then show ?case using stays_unreserved [OF at] md O(7) by blast
  next
    case (11 p i) then show ?case using stays_unreserved [OF at] md O(7) by blast
  next
    case (12 p i) then show ?case using stays_open [OF at] md O(7,8) by blast
  next
    case (13 q)
    obtain p i where q: "q = (p, i)" by fastforce
    with 13 have p: "p < sessNext r" using O(1) reserved_points by blast
    from stays_reserved [OF at [OF p], of i] apart 13 q O(9) show ?case by fastforce
  next
    case (14 p c)
    note f = fencing_command [OF 14 ok ev]
    with fencing_gate have p: "p < sessNext r" using O(1) by blast
    have "sameContext (sessHeap r p) (sessHeap r' p)" using at [OF p] idle [OF f] by (simp add: evolves_def)
    with f O(10) show ?case by (simp add: missionFence_same)
  next
    case (15 msg e) then show ?case by (rule O(11))
  next
    case (16 msg ack) then show ?case by (rule O(12))
  qed
qed

lemma gate_points: "gateOf t = Some p \<Longrightarrow> pointsAt t = Some p"
  by (cases t rule: gateOf.cases) auto

lemma activating_reserved: "activating t p = Some i \<Longrightarrow> (p, i) \<in> set (reservedBy t)"
  by (auto simp: activating_def split: task.splits reservationTask.splits if_splits)

lemma holders_unique:
  assumes "holders p ts \<le> 1" "j < length ts" "k < length ts"
    "gateOf (ts ! j) = Some p" "gateOf (ts ! k) = Some p"
  shows "j = k"
proof -
  let ?J = "{i. i < length ts \<and> gateOf (ts ! i) = Some p}"
  have "card ?J \<le> Suc 0" using assms(1) by (simp add: holders_def length_filter_conv_card)
  then show ?thesis using assms(2-5) card_le_Suc0_iff_eq [of ?J] by auto
qed

lemma holders_split:
  assumes "i < length ts"
  shows "holders p (ts[i := t'] @ new) + (if gateOf (ts ! i) = Some p then 1 else 0) =
    holders p ts + (if gateOf t' = Some p then 1 else 0) + holders p new"
proof -
  have ts: "ts = take i ts @ ts ! i # drop (Suc i) ts" using assms by (rule id_take_nth_drop)
  have "holders p ts = holders p (take i ts @ ts ! i # drop (Suc i) ts)" using ts by simp
  then show ?thesis using assms by (simp add: upd_conv_take_nth_drop holders_def)
qed

lemma set_upd_append:
  assumes "u \<in> set (ts[i := t'] @ new)"
  shows "u = t' \<or> u \<in> set new \<or> (\<exists>j < length ts. j \<noteq> i \<and> u = ts ! j)"
proof -
  consider (new) "u \<in> set new" | (old) k where "k < length ts" "u = ts[i := t'] ! k"
    using assms by (auto simp: in_set_conv_nth)
  then show ?thesis
  proof cases
    case (old k)
    then show ?thesis by (cases "k = i") auto
  qed simp
qed

lemma others_nth: "j < length ts \<Longrightarrow> j \<noteq> i \<Longrightarrow> ts ! j \<in> set (others i ts)"
  unfolding others_def
  by (cases "j < i") (auto simp: in_set_conv_nth intro: exI [of _ j] exI [of _ "j - Suc i"])

lemma reserved_disjoint:
  assumes "distinct (concat (map f ts))" "i < length ts" "j < length ts" "i \<noteq> j"
  shows "set (f (ts ! i)) \<inter> set (f (ts ! j)) = {}"
  using assms
proof (induction ts arbitrary: i j)
  case (Cons t ts)
  then show ?case by (cases i; cases j) (auto 0 4)
qed simp

lemma distinct_replace:
  assumes "distinct (concat (map f ts))" "i < length ts" "distinct (f t' @ concat (map f new))"
    "\<And>x. x \<in> set (f t' @ concat (map f new)) \<Longrightarrow>
       x \<in> set (f (ts ! i)) \<or> (\<forall>u \<in> set ts. x \<notin> set (f u))"
  shows "distinct (concat (map f (ts[i := t'] @ new)))"
proof -
  obtain A B Z where abz: "A = concat (map f (take i ts))" "B = concat (map f (drop (Suc i) ts))"
    "Z = concat (map f new)" by simp
  have ts: "ts = take i ts @ ts ! i # drop (Suc i) ts" using assms(2) by (rule id_take_nth_drop)
  have "concat (map f ts) = A @ f (ts ! i) @ B"
    by (subst ts) (simp add: abz)
  then have d: "distinct (A @ f (ts ! i) @ B)" using assms(1) by simp
  have mem: "x \<in> set A \<union> set B \<Longrightarrow> \<exists>u \<in> set ts. x \<in> set (f u)" for x
    by (auto simp: abz dest: in_set_takeD in_set_dropD)
  have "x \<notin> set A \<union> set B" if "x \<in> set (f t' @ Z)" for x
    using assms(4) [of x] that mem [of x] d unfolding abz(3) by auto
  then have "distinct (A @ f t' @ B @ Z)"
    using d assms(3) unfolding abz(3) [symmetric] by auto
  moreover have "concat (map f (ts[i := t'] @ new)) = A @ f t' @ B @ Z"
    using assms(2) by (simp add: upd_conv_take_nth_drop abz)
  ultimately show ?thesis by simp
qed

lemma idle_when_fenced:
  assumes "systemOk cd (r, ts)" "j < length ts" "fencing r (ts ! j) = Some (p, c)"
  shows "opsDone (sessHeap r p)"
proof (unfold opsDone_def, intro allI impI, rule ccontr)
  fix i assume i: "i < opNext (sessHeap r p)" "\<not> op_completed (opHeap (sessHeap r p) i)"
  note S = assms(1) [unfolded systemOk_def, simplified]
  note f = fencing_gate [OF assms(3)]
  have p: "p < sessNext r" using taskOkD(1) [of cd r "ts ! j" p] S f assms(2) by simp
  then obtain t k where t: "t \<in> set ts" "ownsOp t = Some (p, i, k)"
    using S i unfolding owned_def by blast
  then obtain l where l: "l < length ts" "ts ! l = t" by (auto simp: in_set_conv_nth)
  have "holders p ts \<le> 1" using S p by (auto simp: gatesOk_def)
  then have "j = l"
    using holders_unique [of p ts j l] f owns_gate [OF t(2)] l assms(2) by simp
  with l t f show False by simp
qed

text \<open>The parts of the system's invariant after a good step.\<close>

lemma goodStep_tasks:
  assumes sys: "systemOk cd (r, ts)" and i: "i < length ts"
    and free: "\<not> list_ex (lockedOut r (ts ! i)) (others i ts)"
    and good: "goodStep cd r (ts ! i) r' t' new" and u: "u \<in> set (ts[i := t'] @ new)"
  shows "taskOk cd r' u"
  using set_upd_append [OF u]
proof (elim disjE exE conjE)
  note S = sys [unfolded systemOk_def, simplified]
  fix j assume j: "j < length ts" "j \<noteq> i" "u = ts ! j"
  have ev: "evolvesAll (ts ! i) r r'" using good by (simp add: goodStep_def)
  show ?thesis
    unfolding j(3)
  proof (rule undisturbed [OF _ ev])
    show "taskOk cd r (ts ! j)" using S j by simp
    show "\<not> lockedOut r (ts ! i) (ts ! j)"
      using free others_nth [OF j(1,2)] by (auto simp: list_ex_iff)
    show "activating (ts ! i) p \<noteq> Some q" if "(p, q) \<in> set (reservedBy (ts ! j))" for p q
      using that activating_reserved [of "ts ! i" p q] reserved_disjoint [of reservedBy ts i j] S i j
      by auto
    show "opsDone (sessHeap r p)" if "fencing r (ts ! j) = Some (p, c)" for p c
      using idle_when_fenced [OF sys j(1) that] .
  qed
qed (use good in \<open>auto simp: goodStep_def\<close>)

lemma goodStep_gates:
  assumes sys: "systemOk cd (r, ts)" and i: "i < length ts" and good: "goodStep cd r (ts ! i) r' t' new"
  shows "gatesOk r' (ts[i := t'] @ new)"
  unfolding gatesOk_def
proof (intro allI impI)
  note S = sys [unfolded systemOk_def, simplified]
  fix p assume p: "p < sessNext r'"
  have new: "holders p new = 0" using good by (auto simp: goodStep_def holders_def filter_empty_conv)
  note eq = holders_split [OF i, of p t' new, unfolded new]
  have old: "p < sessNext r \<Longrightarrow> holders p ts = (if operationGate (sessHeap r p) then 0 else 1)"
    using S by (simp add: gatesOk_def)
  have none: "\<not> p < sessNext r \<Longrightarrow> gateOf u \<noteq> Some p" if "u \<in> set ts" for u
    using S that taskOkD(1) gate_points by blast
  then have zero: "\<not> p < sessNext r \<Longrightarrow> holders p ts = 0"
    by (auto simp: holders_def filter_empty_conv)
  have held: "gateOf (ts ! i) = Some p \<Longrightarrow> holders p ts \<noteq> 0"
    using i by (auto simp: holders_def filter_empty_conv)
  have moves: "gateMoves (ts ! i) t' r r'" using good by (simp add: goodStep_def)
  show "holders p (ts[i := t'] @ new) = (if operationGate (sessHeap r' p) then 0 else 1)"
  proof (cases "p < sessNext r")
    case True
    with moves p eq old [OF True] held show ?thesis by (auto simp: gateMoves_def split: if_splits)
  next
    case False
    with moves p eq zero none [of "ts ! i"] i show ?thesis by (auto simp: gateMoves_def split: if_splits)
  qed
qed

lemma goodStep_owned:
  assumes sys: "systemOk cd (r, ts)" and i: "i < length ts" and good: "goodStep cd r (ts ! i) r' t' new"
  shows "owned r' (ts[i := t'] @ new)"
  unfolding owned_def
proof (intro allI impI)
  note S = sys [unfolded systemOk_def, simplified]
  fix p q assume p: "p < sessNext r'" "q < opNext (sessHeap r' p)" "\<not> op_completed (opHeap (sessHeap r' p) q)"
  then consider (own) k where "ownsOp t' = Some (p, q, k)"
    | (other) "p < sessNext r" "q < opNext (sessHeap r p)" "\<not> op_completed (opHeap (sessHeap r p) q)"
        "\<forall>k. ownsOp (ts ! i) \<noteq> Some (p, q, k)"
    using good unfolding goodStep_def opsMove_def by blast
  then show "\<exists>t \<in> set (ts[i := t'] @ new). \<exists>k. ownsOp t = Some (p, q, k)"
  proof cases
    case own
    moreover have "t' \<in> set (ts[i := t'] @ new)" using i by (simp add: set_update_memI)
    ultimately show ?thesis by blast
  next
    case other
    then obtain u k where u: "u \<in> set ts" "ownsOp u = Some (p, q, k)"
      using S unfolding owned_def by blast
    then obtain j where j: "j < length ts" "ts ! j = u" by (auto simp: in_set_conv_nth)
    with other(4) u have "j \<noteq> i" by auto
    then have "(ts[i := t'] @ new) ! j = u" using j by (simp add: nth_append)
    then have "u \<in> set (ts[i := t'] @ new)" using j nth_mem [of j "ts[i := t'] @ new"] by simp
    with u show ?thesis by blast
  qed
qed

lemma goodStep_reserves:
  assumes sys: "systemOk cd (r, ts)" and i: "i < length ts" and good: "goodStep cd r (ts ! i) r' t' new"
  shows "distinct (concat (map reservedBy (ts[i := t'] @ new)))"
proof (rule distinct_replace)
  note S = sys [unfolded systemOk_def, simplified]
  note G = good [unfolded goodStep_def]
  show "distinct (concat (map reservedBy ts))" "i < length ts"
    "distinct (reservedBy t' @ concat (map reservedBy new))"
    using S G i by (auto simp: reservesMove_def)
  fix x assume x: "x \<in> set (reservedBy t' @ concat (map reservedBy new))"
  obtain p q where pq: "x = (p, q)" by fastforce
  have "(p, q) \<in> set (reservedBy (ts ! i)) \<or> p < sessNext r \<and> q \<ge> mdNext (sessHeap r p)"
    using G x pq by (auto simp: reservesMove_def)
  moreover have "q < mdNext (sessHeap r p)" if "u \<in> set ts" "(p, q) \<in> set (reservedBy u)" for u
    using S that taskOkD(9) by blast
  ultimately show "x \<in> set (reservedBy (ts ! i)) \<or> (\<forall>u \<in> set ts. x \<notin> set (reservedBy u))"
    using pq by fastforce
qed

lemma goodStep_system:
  assumes sys: "systemOk cd (r, ts)" and i: "i < length ts"
    and free: "\<not> list_ex (lockedOut r (ts ! i)) (others i ts)"
    and good: "goodStep cd r (ts ! i) r' t' new"
  shows "systemOk cd (r', ts[i := t'] @ new)"
proof -
  note S = sys [unfolded systemOk_def, simplified]
  note G = good [unfolded goodStep_def]
  have "relayReach r'" using S G relayRun_reach by blast
  moreover have "opsFit cd (sessHeap r' p)" if "p < sessNext r'" for p
    using G S that by (auto simp: opsMove_def)
  ultimately show ?thesis
    using goodStep_tasks [OF assms] goodStep_gates [OF sys i good] goodStep_owned [OF sys i good]
      goodStep_reserves [OF sys i good] by (simp add: systemOk_def)
qed

end
