(* ===== verification/GoodSteps.thy ===== *)
theory GoodSteps
  imports TaskSteps
begin

text \<open>
  When a section of a task is a good step: sections on one session, sections that leave the Relay, the
  gate, and the admission of an operation command.
\<close>

section \<open>Sections on one session\<close>

lemma putSession_simps [simp]:
  "sessNext (putSession p s r) = sessNext r" "grpcSessions (putSession p s r) = grpcSessions r"
  "sessHeap (putSession p s r) q = (if q = p then s else sessHeap r q)"
  "registryReporter (putSession p s r) = registryReporter r"
  by (simp_all add: putSession_def updSession_def)

lemma run_one: "relayStep r r' \<Longrightarrow> relayRun r r'"
  by (rule relayRun.later [OF relayRun.here])

lemma run_put: "p < sessNext r \<Longrightarrow> sessionStep (sessHeap r p) s' \<Longrightarrow> relayRun r (putSession p s' r)"
  unfolding putSession_def by (intro run_one relayStep.InSession)

lemma reach_wf: "relayReach r \<Longrightarrow> p < sessNext r \<Longrightarrow> wf_session (sessHeap r p)"
  using relayReach_ok relayOkD(5) sessionOk_def by blast

lemma opsFit_evolves:
  assumes "evolves q s s'" "opNext s' = opNext s" "opsFit cd s"
  shows "opsFit cd s'"
  using assms by (auto simp: opsFit_def evolves_def opKeeps_def opMove_def)

lemma good_session:
  assumes "relayReach r" "p < sessNext r" and step: "sessionStep (sessHeap r p) s'"
    and ev: "evolves (activating t p) (sessHeap r p) s'"
    and ok: "taskOk cd (putSession p s' r) t'"
      "\<And>u. u \<in> set new \<Longrightarrow> taskOk cd (putSession p s' r) u \<and> gateOf u = None"
    and gate: "gateOf t' = gateOf t \<and> operationGate s' = operationGate (sessHeap r p) \<or>
      gateOf t = None \<and> gateOf t' = Some p \<and> operationGate (sessHeap r p) \<and> \<not> operationGate s' \<or>
      gateOf t = Some p \<and> gateOf t' = None \<and> operationGate s'"
    and ops: "\<And>i. i < opNext s' \<Longrightarrow> \<not> op_completed (opHeap s' i) \<Longrightarrow>
      (\<exists>k. ownsOp t' = Some (p, i, k)) \<or> i < opNext (sessHeap r p) \<and>
        \<not> op_completed (opHeap (sessHeap r p) i) \<and> (\<forall>k. ownsOp t \<noteq> Some (p, i, k))"
    and own: "\<And>q i k. ownsOp t = Some (q, i, k) \<Longrightarrow> q = p"
    and fit: "opsFit cd (sessHeap r p) \<Longrightarrow> opsFit cd s'"
    and res: "reservesMove t (reservedBy t' @ concat (map reservedBy new)) r"
  shows "goodStep cd r t (putSession p s' r) t' new"
proof -
  have k: "keeps (sessHeap r p) s'" using step_keeps [OF step reach_wf [OF assms(1,2)]] .
  have "evolvesAll t r (putSession p s' r)"
    using ev k by (auto simp: evolvesAll_def keeps_def sameShell_def)
  moreover have "gateMoves t t' r (putSession p s' r)" using gate by (auto simp: gateMoves_def)
  moreover have "opsMove cd t t' r (putSession p s' r)"
    unfolding opsMove_def
  proof (intro allI impI conjI)
    fix q i assume "q < sessNext (putSession p s' r)" "i < opNext (sessHeap (putSession p s' r) q)"
      "\<not> op_completed (opHeap (sessHeap (putSession p s' r) q) i)"
    then show "(\<exists>k. ownsOp t' = Some (q, i, k)) \<or> q < sessNext r \<and> i < opNext (sessHeap r q) \<and>
        \<not> op_completed (opHeap (sessHeap r q) i) \<and> (\<forall>k. ownsOp t \<noteq> Some (q, i, k))"
      using ops [of i] own by (cases "q = p") auto
  next
    fix q assume "q < sessNext (putSession p s' r)" "q < sessNext r \<longrightarrow> opsFit cd (sessHeap r q)"
    then show "opsFit cd (sessHeap (putSession p s' r) q)" using fit by auto
  qed
  ultimately show ?thesis
    using ok res run_put [OF assms(2) step] by (simp add: goodStep_def)
qed

text \<open>The usual case: no operation command is admitted.\<close>

lemma good_put:
  assumes "relayReach r" "p < sessNext r" "sessionStep (sessHeap r p) s'"
    and ev: "evolves (activating t p) (sessHeap r p) s'"
    and same: "opNext s' = opNext (sessHeap r p)"
    and "taskOk cd (putSession p s' r) t'"
      "\<And>u. u \<in> set new \<Longrightarrow> taskOk cd (putSession p s' r) u \<and> gateOf u = None"
    and "gateOf t' = gateOf t \<and> operationGate s' = operationGate (sessHeap r p) \<or>
      gateOf t = None \<and> gateOf t' = Some p \<and> operationGate (sessHeap r p) \<and> \<not> operationGate s' \<or>
      gateOf t = Some p \<and> gateOf t' = None \<and> operationGate s'"
    and own: "\<And>q i k. ownsOp t = Some (q, i, k) \<Longrightarrow>
      q = p \<and> ((\<exists>k. ownsOp t' = Some (q, i, k)) \<or> op_completed (opHeap s' i))"
    and "reservesMove t (reservedBy t' @ concat (map reservedBy new)) r"
  shows "goodStep cd r t (putSession p s' r) t' new"
proof (rule good_session)
  fix i assume i: "i < opNext s'" "\<not> op_completed (opHeap s' i)"
  have "opFinal (opHeap (sessHeap r p) i) (opHeap s' i)"
    using ev i same by (simp add: evolves_def opKeeps_def opMove_def)
  then have "\<not> op_completed (opHeap (sessHeap r p) i)" using i by (auto simp: opFinal_def)
  then show "(\<exists>k. ownsOp t' = Some (p, i, k)) \<or> i < opNext (sessHeap r p) \<and>
      \<not> op_completed (opHeap (sessHeap r p) i) \<and> (\<forall>k. ownsOp t \<noteq> Some (p, i, k))"
    using own i same by auto
qed (use assms opsFit_evolves [OF ev same] in auto)

lemma good_still:
  assumes "taskOk cd r t'" "\<And>u. u \<in> set new \<Longrightarrow> taskOk cd r u \<and> gateOf u = None"
    "gateOf t' = gateOf t" "\<And>p i k. ownsOp t = Some (p, i, k) \<Longrightarrow>
      (\<exists>k. ownsOp t' = Some (p, i, k)) \<or> op_completed (opHeap (sessHeap r p) i)"
    "reservesMove t (reservedBy t' @ concat (map reservedBy new)) r"
  shows "goodStep cd r t r t' new"
proof -
  have "opsMove cd t t' r r"
    unfolding opsMove_def using assms(4) by blast
  then show ?thesis
    using assms by (simp add: goodStep_def evolvesAll_def gateMoves_def relayRun.here)
qed

lemma reservesMove_sub [simp]:
  "reservesMove t [] r" "reservesMove t (reservedBy t) r \<longleftrightarrow> distinct (reservedBy t)"
  by (auto simp: reservesMove_def)

lemma distinct_reservedBy [simp]: "distinct (reservedBy t)"
  by (cases t rule: reservedBy.cases) simp_all

section \<open>The gate\<close>

lemma takeGate_facts:
  assumes "takeGate s = Some s'"
  shows "operationGate s" "\<not> operationGate s'" "opNext s' = opNext s" "opHeap s' = opHeap s"
    "retired s' = retired s" "stream s' = stream s" "mdHeap s' = mdHeap s" "mdNext s' = mdNext s"
    "operationCommands s' = operationCommands s"
  using assms by (auto simp: takeGate_def split: if_splits)

lemma releaseGate_facts [simp]:
  "operationGate (releaseGate s)" "opNext (releaseGate s) = opNext s" "opHeap (releaseGate s) = opHeap s"
  "retired (releaseGate s) = retired s" "mdHeap (releaseGate s) = mdHeap s" "mdNext (releaseGate s) = mdNext s"
  by (simp_all add: releaseGate_def)

text \<open>A task that holds a gate can release it: the token is out.\<close>

lemma holder_gate:
  assumes "systemOk cd (r, ts)" "t \<in> set ts" "gateOf t = Some p"
  shows "p < sessNext r" "\<not> operationGate (sessHeap r p)"
proof -
  note S = assms(1) [unfolded systemOk_def, simplified]
  show p: "p < sessNext r" using S assms taskOkD(1) gate_points by blast
  have "holders p ts \<noteq> 0" using assms(2,3) by (auto simp: holders_def filter_empty_conv)
  with S p show "\<not> operationGate (sessHeap r p)" by (auto simp: gatesOk_def split: if_splits)
qed

lemma acquire_cases:
  assumes "acquireOperationCommandSlot ctx p r = Some x"
  obtains (ended) e where "x = Inl e" | (taken) s where "x = Inr (putSession p s r)" "takeGate (sessHeap r p) = Some s"
  using assms by (auto simp: acquireOperationCommandSlot_def split: option.splits)

section \<open>Facts the sections share\<close>

lemma step_refl: "sessionStep s s"
proof -
  have "sendOnSelected 0 (Some CtxCanceled) None None None (TelemetryAckMsg ack) s =
      (SendReturned False (Some (fromContextError CtxCanceled)), s)" for ack
    by (simp add: sendOnSelected_def)
  then show ?thesis by (rule sessionStep.written)
qed

lemma step_sendStep:
  assumes "sendStep ctx lockErr None serr msg binding s = (st, s')" shows "sessionStep s s'"
proof (cases binding)
  case (Some b)
  obtain out s1 where out: "sendOnSelected b lockErr ctx None serr msg s = (out, s1)" by fastforce
  then have "s1 = s'" using assms Some by (auto simp: sendStep_def split: sendOutcome.splits)
  with sessionStep.written [OF out] show ?thesis by simp
qed (use assms step_refl in \<open>auto simp: sendStep_def split: sum.splits\<close>)

lemma sendStep_chosen:
  "sendStep ctx lockErr commit serr msg binding s = (st, s') \<Longrightarrow> st = Sending (Some b) \<Longrightarrow>
     stream s' = Some b"
  by (auto simp: sendStep_def selectBinding_def split: option.splits prod.splits sum.splits sendOutcome.splits)

lemma sendStep_opNext:
  assumes "sendStep ctx lockErr commit serr msg binding s = (st, s')"
    "commit = None \<or> commit = Some (\<lambda>s. commitMissionDelivery s k r)"
  shows "opNext s' = opNext s" "operationGate s' = operationGate s"
proof -
  have c: "\<And>f. commit = Some f \<Longrightarrow> calm s (snd (f s))" using assms(2) calm_mission(6) by auto
  from calm_sendStep [OF assms(1)] c show "opNext s' = opNext s" by (auto simp: calm_def)
  show "operationGate s' = operationGate s"
    by (rule gate_send [OF assms(1)]) (use assms(2) gate_plain in auto)
qed

lemma opNext_ops [simp]:
  "opNext (afterOperationSend s k r attempted err now) = opNext s"
  "opNext (snd (awaitOperationEnded s k r owner e now)) = opNext s"
  "opNext (handleOperationContextCommandAckFrom s b ack now) = opNext s"
  using sameSize_finishes(1-3) [unfolded sameSize_def] by simp_all

lemma await_ended_done:
  assumes "awaitOperationEnded s k i True e now = (err, s')"
    "op_completed (opHeap s i) \<or> mget (operationCommands s) k = Some i"
  shows "op_completed (opHeap s' i)"
  using assms by (auto simp: awaitOperationEnded_def finishOperationCommand_def completeOperation_def
      Let_def opFinish_def split: if_splits simp del: map_of_eq_Some_iff)

lemma await_ended_facts:
  assumes "awaitOperationEnded s k i owner e now = (err, s')" "wf_session s"
  shows "sessionStep s s'" "evolves q s s'" "opNext s' = opNext s" "operationGate s' = operationGate s"
proof -
  have s': "s' = snd (awaitOperationEnded s k i owner e now)" using assms(1) by simp
  show "sessionStep s s'" unfolding s' by (rule sessionStep.opWaitEnded)
  show "evolves q s s'" unfolding s' by (rule evolves_finishes(2) [OF assms(2)])
  show "opNext s' = opNext s" "operationGate s' = operationGate s" unfolding s' by simp_all
qed

lemma done_proved:
  assumes "awaitOperationDone s i = Some (ack, None)" "opsFit cd s" "i < opNext s"
    "dg_op cd msg = Some (op_fingerprint (opHeap s i))"
  shows "proved cd msg ack"
proof -
  have "op_completed (opHeap s i)" "op_ack (opHeap s i) = ack" "op_err (opHeap s i) = None"
    using assms(1) by (auto simp: awaitOperationDone_def operationCommandResult_def split: if_splits)
  then show ?thesis
    using assms(2-4) by (fastforce simp: opsFit_def truthful_def proved_def)
qed

lemma await_done_completed: "awaitOperationDone s i = Some res \<Longrightarrow> op_completed (opHeap s i)"
  by (auto simp: awaitOperationDone_def split: if_splits)

lemma contextReply_Inr: "contextReply r aid p doing res = Inr ack \<Longrightarrow> res = (ack, None)"
  by (auto simp: contextReply_def split: prod.splits option.splits if_splits)

lemma current_session:
  assumes "relayReach r" "mget (grpcSessions r) aid = Some p"
  shows "p < sessNext r" "\<not> retired (sessHeap r p)" "agentID (sessHeap r p) = aid" "aid \<noteq> []"
proof -
  have own: "ownershipOk r" using relayReach_ok [OF assms(1)] by (simp add: relayOk_def)
  with assms(2) show "p < sessNext r" "\<not> retired (sessHeap r p)" "agentID (sessHeap r p) = aid"
    by (simp_all add: ownershipOk_def del: map_of_eq_Some_iff)
  have "(aid, p) \<in> set (grpcSessions r)" using mget_Some_mem [OF assms(2)] .
  with own show "aid \<noteq> []" by (force simp: ownershipOk_def image_iff)
qed

lemma currentControlSession_Inr:
  "currentControlSession r aid = Inr p \<Longrightarrow> mget (grpcSessions r) aid = Some p"
  by (auto simp: currentControlSession_def split: option.splits if_splits simp del: map_of_eq_Some_iff)

lemma trimSpace_nonempty: "trimSpace x \<noteq> [] \<Longrightarrow> x \<noteq> []"
  using trimSpace_Nil by metis

lemma operationCommandID_nonempty:
  assumes "operationCommandID (map_option f command) = None"
  shows "f (the command) \<noteq> []"
  using assms trimSpace_nonempty by (cases command) (auto simp: operationCommandID_def split: if_splits)

lemma setContextPrelude_Inr:
  "setContextPrelude r remote agent command = Inr (aid, c) \<Longrightarrow> sc_CommandId c \<noteq> []"
  using operationCommandID_nonempty [of sc_CommandId command]
  by (auto simp: setContextPrelude_def Let_def split: option.splits if_splits)

lemma clearContextPrelude_Inr:
  "clearContextPrelude r remote agent command = Inr (aid, c) \<Longrightarrow> cc_CommandId c \<noteq> []"
  using operationCommandID_nonempty [of cc_CommandId command]
  by (auto simp: clearContextPrelude_def Let_def split: option.splits if_splits)

lemma opsFit_admit:
  assumes "wf_session s" "k \<noteq> []" "admitOperation cd now k msg expected s = (res, s')"
    "opsFit cd s" "fits msg expected"
  shows "opsFit cd s'"
proof -
  note facts = admitOperation_facts [OF assms(1-3)]
  have old: "i < opNext s \<Longrightarrow> truthful (opHeap s' i) \<and>
      (\<exists>m. dg_op cd m = Some (op_fingerprint (opHeap s' i)) \<and> fits m (op_expected (opHeap s' i)))" for i
    using facts(1) assms(4) by (auto simp: opsFit_def evolves_def opKeeps_def opMove_def)
  show ?thesis
  proof (cases res)
    case (Inl e)
    with facts(3) old show ?thesis by (simp add: opsFit_def)
  next
    case (Inr x)
    obtain i owner where x: "x = (i, owner)" by fastforce
    show ?thesis
    proof (cases owner)
      case True
      with facts(4) Inr x assms(5) old show ?thesis by (auto simp: opsFit_def less_Suc_eq)
    next
      case False
      with facts(5) Inr x old show ?thesis by (simp add: opsFit_def)
    qed
  qed
qed

section \<open>Admission\<close>

lemma system_facts:
  assumes "systemOk cd (r, ts)" "t \<in> set ts"
  shows "relayReach r" "taskOk cd r t" "p < sessNext r \<Longrightarrow> opsFit cd (sessHeap r p)"
    "p < sessNext r \<Longrightarrow> wf_session (sessHeap r p)"
  using assms reach_wf by (auto simp: systemOk_def)

lemma step_admit:
  assumes "\<not> retired s" "k \<noteq> []" "admitOperation cd now k msg expected s = (res, s')"
  shows "sessionStep s s'"
proof (cases "dg_op cd msg")
  case None
  with assms(3) show ?thesis by (simp add: admitOperation_def step_refl)
next
  case (Some f)
  then have "s' = snd (beginOperationCommand s k f expected now)"
    using assms(3) by (simp add: admitOperation_def)
  with sessionStep.opBegin [OF assms(1,2)] show ?thesis by simp
qed

lemma good_admit:
  assumes reach: "relayReach r" and p: "p < sessNext r" and live: "\<not> retired (sessHeap r p)"
    and k: "k \<noteq> []" and adm: "admitOperation cd now k msg expected (sessHeap r p) = (res, s)"
    and fit: "opsFit cd (sessHeap r p)" "fits msg expected"
    and t: "ownsOp t = None" "gateOf t' = gateOf t" "reservedBy t' = []"
      "\<And>i. res = Inr (i, True) \<Longrightarrow> ownsOp t' = Some (p, i, k)"
    and ok: "taskOk cd (putSession p s r) t'"
  shows "goodStep cd r t (putSession p s r) t' []"
proof (rule good_session [OF reach p])
  note A = admitOperation_facts [OF reach_wf [OF reach p] k adm]
  show "sessionStep (sessHeap r p) s" by (rule step_admit [OF live k adm])
  show ev: "evolves (activating t p) (sessHeap r p) s" by (rule A(1))
  show "opsFit cd (sessHeap r p) \<Longrightarrow> opsFit cd s"
    using opsFit_admit [OF reach_wf [OF reach p] k adm] fit by simp
  show "gateOf t' = gateOf t \<and> operationGate s = operationGate (sessHeap r p) \<or>
      gateOf t = None \<and> gateOf t' = Some p \<and> operationGate (sessHeap r p) \<and> \<not> operationGate s \<or>
      gateOf t = Some p \<and> gateOf t' = None \<and> operationGate s"
    using gate_admitOperation [of cd now k msg expected "sessHeap r p"] t(2) adm by simp
  fix i assume i: "i < opNext s" "\<not> op_completed (opHeap s i)"
  have old: "i < opNext (sessHeap r p) \<Longrightarrow> \<not> op_completed (opHeap (sessHeap r p) i)"
    using ev i(2) by (auto simp: evolves_def opKeeps_def opMove_def opFinal_def)
  show "(\<exists>k. ownsOp t' = Some (p, i, k)) \<or> i < opNext (sessHeap r p) \<and>
      \<not> op_completed (opHeap (sessHeap r p) i) \<and> (\<forall>k. ownsOp t \<noteq> Some (p, i, k))"
  proof (cases res)
    case (Inl e)
    with A(3) i old t(1) show ?thesis by simp
  next
    case (Inr x)
    obtain j owner where x: "x = (j, owner)" by fastforce
    with A(4,5) Inr i old t(1) t(4) show ?thesis by (cases owner) (auto simp: less_Suc_eq)
  qed
qed (use ok t in simp_all)

lemma taskOk_admitted:
  assumes reach: "relayReach r" and p: "p < sessNext r" and live: "\<not> retired (sessHeap r p)"
    and k: "k \<noteq> []" and adm: "admitOperation cd now k msg expected (sessHeap r p) = (Inr (i, owner), s)"
  shows "\<not> retired s" "i < opNext s" "owner \<Longrightarrow> mget (operationCommands s) k = Some i"
    "dg_op cd msg = Some (op_fingerprint (opHeap s i))"
proof -
  note A = admitOperation_facts [OF reach_wf [OF reach p] k adm]
  show "\<not> retired s"
    using step_keeps [OF step_admit [OF live k adm] reach_wf [OF reach p]] live
    by (simp add: keeps_def sameShell_def)
  show "i < opNext s" "owner \<Longrightarrow> mget (operationCommands s) k = Some i"
    "dg_op cd msg = Some (op_fingerprint (opHeap s i))"
    using A(4,5) by (cases owner; simp del: map_of_eq_Some_iff)+
qed

section \<open>Taking and releasing the gate\<close>

lemma good_taken:
  assumes sys: "systemOk cd (r, ts)" and t: "t \<in> set ts" "pointsAt t = Some p" "gateOf t = None" "ownsOp t = None"
    and acq: "acquireOperationCommandSlot ctx p r = Some (Inr r1)"
    and t': "gateOf t' = Some p" "reservedBy t' = reservedBy t"
    and ok: "\<And>s. takeGate (sessHeap r p) = Some s \<Longrightarrow> taskOk cd (putSession p s r) t'"
  shows "goodStep cd r t r1 t' []"
proof -
  note S = system_facts [OF sys t(1)]
  have p: "p < sessNext r" using taskOkD(1) [OF S(2) t(2)] .
  obtain s where s: "takeGate (sessHeap r p) = Some s" "r1 = putSession p s r"
    using acq by (cases rule: acquire_cases) auto
  show ?thesis
    unfolding s(2) using p t t' takeGate_facts [OF s(1)] ok [OF s(1)]
    by (intro good_put S(1)) (auto intro: sessionStep.gateTaken [OF s(1)] evolves_plain s(1))
qed

lemma good_released:
  assumes sys: "systemOk cd (r, ts)" and t: "t \<in> set ts" "gateOf t = Some p" "ownsOp t = None"
    and t': "gateOf t' = None" "taskOk cd (putSession p (releaseGate (sessHeap r p)) r) t'"
    and new: "\<And>u. u \<in> set new \<Longrightarrow> taskOk cd (putSession p (releaseGate (sessHeap r p)) r) u \<and> gateOf u = None"
      "reservesMove t (reservedBy t' @ concat (map reservedBy new)) r"
  shows "goodStep cd r t (putSession p (releaseGate (sessHeap r p)) r) t' new"
  using holder_gate [OF sys t(1,2)] t t' new
  by (intro good_put system_facts(1) [OF sys t(1)]) (auto intro: sessionStep.gateReleased evolves_plain)

end
