(* ===== verification/ContextSteps.thy ===== *)
theory ContextSteps
  imports GoodSteps
begin

text \<open>
  Every section of the operation-context handlers, and of the aircraft handler and its send task, is a
  good step.  What the set and the clear handler share, from the admission of their command to its
  reply, is proved once, over the laws that both satisfy.
\<close>

section \<open>What the context handlers share\<close>

lemma chosen_delivering [simp]:
  "chosen (SetContextTask (SetDelivering aid sc p i st)) = Some (q, b) \<longleftrightarrow> q = p \<and> st = Sending (Some b)"
  "chosen (ClearContextTask (ClearDelivering aid cc p i st)) = Some (q, b) \<longleftrightarrow> q = p \<and> st = Sending (Some b)"
  "chosen (AircraftSendTask (AircraftSending ca p i st)) = Some (q, b) \<longleftrightarrow> q = p \<and> st = Sending (Some b)"
  "chosen (MissionSendTask (MissionSending dm p i st)) = Some (q, b) \<longleftrightarrow> q = p \<and> st = Sending (Some b)"
  by (auto elim: chosen.elims)

text \<open>The places of a context handler after its admission, and what each relies on: a delivery on a
  live session of the command it owns, a wait for that command, an answer, and a result.\<close>

locale context_handler =
  fixes commandID :: "'c \<Rightarrow> string" and message :: "'c \<Rightarrow> relayMsg"
    and delivering :: "string \<Rightarrow> 'c \<Rightarrow> nat \<Rightarrow> nat \<Rightarrow> sendState \<Rightarrow> task"
    and awaiting :: "string \<Rightarrow> 'c \<Rightarrow> nat \<Rightarrow> nat \<Rightarrow> bool \<Rightarrow> task"
    and answered :: "string \<Rightarrow> 'c \<Rightarrow> nat \<Rightarrow> contextAck option \<times> goerror option \<Rightarrow> task"
    and ended :: "'c \<Rightarrow> nat \<Rightarrow> goerror + contextAck option \<Rightarrow> task"
  assumes delivering_ok: "taskOk cd r (delivering aid c p i st) \<longleftrightarrow>
      p < sessNext r \<and> \<not> retired (sessHeap r p) \<and>
      (\<forall>b. st = Sending (Some b) \<longrightarrow> stream (sessHeap r p) = Some b) \<and> i < opNext (sessHeap r p) \<and>
      (op_completed (opHeap (sessHeap r p) i) \<or>
       mget (operationCommands (sessHeap r p)) (commandID c) = Some i) \<and>
      dg_op cd (message c) = Some (op_fingerprint (opHeap (sessHeap r p) i))"
    and awaiting_ok: "taskOk cd r (awaiting aid c p i owner) \<longleftrightarrow>
      p < sessNext r \<and> i < opNext (sessHeap r p) \<and>
      (owner \<longrightarrow> op_completed (opHeap (sessHeap r p) i) \<or>
         mget (operationCommands (sessHeap r p)) (commandID c) = Some i) \<and>
      dg_op cd (message c) = Some (op_fingerprint (opHeap (sessHeap r p) i))"
    and answered_ok: "taskOk cd r (answered aid c p (ack, err)) \<longleftrightarrow>
      p < sessNext r \<and> (err = None \<longrightarrow> proved cd (message c) ack)"
    and ended_ok: "taskOk cd r (ended c p res) \<longleftrightarrow>
      p < sessNext r \<and> (\<forall>ack. res = Inr ack \<longrightarrow> proved cd (message c) ack)"
    and gates: "gateOf (delivering aid c p i st) = Some p" "gateOf (awaiting aid c p i owner) = Some p"
      "gateOf (answered aid c p ae) = Some p" "gateOf (ended c p res) = Some p"
    and owns: "ownsOp (delivering aid c p i st) = Some (p, i, commandID c)"
      "ownsOp (awaiting aid c p i owner) = (if owner then Some (p, i, commandID c) else None)"
      "ownsOp (answered aid c p ae) = None" "ownsOp (ended c p res) = None"
    and unreserved: "reservedBy (delivering aid c p i st) = []" "reservedBy (awaiting aid c p i owner) = []"
      "reservedBy (answered aid c p ae) = []" "reservedBy (ended c p res) = []"
begin

definition admitted :: "string \<Rightarrow> 'c \<Rightarrow> nat \<Rightarrow> goerror + nat \<times> bool \<Rightarrow> task" where
  "admitted aid c p res = (case res of
     Inl e \<Rightarrow> ended c p (Inl e)
   | Inr (i, owner) \<Rightarrow> if owner then delivering aid c p i (Sending None) else awaiting aid c p i False)"

lemma good_admitted:
  assumes reach: "relayReach r" and p: "p < sessNext r" "\<not> retired (sessHeap r p)" "commandID c \<noteq> []"
    and adm: "admitOperation cd now (commandID c) (message c) expected (sessHeap r p) = (res, s)"
    and fit: "opsFit cd (sessHeap r p)" "fits (message c) expected"
    and t: "ownsOp t = None" "gateOf t = Some p"
  shows "goodStep cd r t (putSession p s r) (admitted aid c p res) []"
proof (rule good_admit [OF reach p adm fit t(1)])
  have A: "\<not> retired s \<and> i < opNext s \<and> (owner \<longrightarrow> mget (operationCommands s) (commandID c) = Some i) \<and>
      dg_op cd (message c) = Some (op_fingerprint (opHeap s i))" if "res = Inr (i, owner)" for i owner
    using taskOk_admitted [OF reach p adm [unfolded that]] by blast
  then show "taskOk cd (putSession p s r) (admitted aid c p res)"
    using p by (auto simp: admitted_def delivering_ok awaiting_ok ended_ok simp del: map_of_eq_Some_iff
        split: sum.split prod.split)
qed (use t in \<open>auto simp: admitted_def gates owns unreserved split: sum.split prod.split\<close>)

lemma good_sending:
  assumes sys: "systemOk cd (r, ts)" and t: "delivering aid c p i (Sending binding) \<in> set ts"
    and send: "sendStep ctx lockErr None serr msg binding (sessHeap r p) = (st, s)"
  shows "goodStep cd r (delivering aid c p i (Sending binding)) (putSession p s r) (delivering aid c p i st) []"
proof -
  note S = system_facts [OF sys t]
  note D = S(2) [unfolded delivering_ok]
  have p: "p < sessNext r" using D by blast
  have ev: "evolves q (sessHeap r p) s" for q using evolves_sendStep [OF send] by simp
  have "\<not> retired s"
    using step_keeps [OF step_sendStep [OF send] S(4) [OF p]] D by (simp add: keeps_def sameShell_def)
  then have "taskOk cd (putSession p s r) (delivering aid c p i st)"
    using D owns_evolves [OF ev] awaits_evolves [OF ev] sendStep_chosen [OF send]
    by (simp add: delivering_ok del: map_of_eq_Some_iff)
  then show ?thesis
    using p ev sendStep_opNext [OF send] step_sendStep [OF send]
    by (auto intro!: good_put S(1) simp: gates owns unreserved)
qed

lemma good_sent:
  assumes sys: "systemOk cd (r, ts)" and t: "delivering aid c p i st \<in> set ts"
  shows "goodStep cd r (delivering aid c p i st)
    (putSession p (afterOperationSend (sessHeap r p) (commandID c) i attempted err now) r)
    (awaiting aid c p i True) []"
proof -
  note S = system_facts [OF sys t]
  note D = S(2) [unfolded delivering_ok]
  have p: "p < sessNext r" using D by blast
  let ?s = "afterOperationSend (sessHeap r p) (commandID c) i attempted err now"
  have ev: "evolves q (sessHeap r p) ?s" for q by (rule evolves_finishes(1) [OF S(4) [OF p]])
  have "taskOk cd (putSession p ?s r) (awaiting aid c p i True)"
    using D owns_evolves [OF ev] awaits_evolves [OF ev] by (simp add: awaiting_ok del: map_of_eq_Some_iff)
  then show ?thesis using p ev by (auto intro!: good_put S(1) sessionStep.opSent simp: gates owns unreserved)
qed

lemma good_gaveUp:
  assumes sys: "systemOk cd (r, ts)" and t: "awaiting aid c p i owner \<in> set ts"
    and up: "awaitOperationEnded (sessHeap r p) (commandID c) i owner e now = (err, s)"
  shows "goodStep cd r (awaiting aid c p i owner) (putSession p s r) (ended c p (Inl err)) []"
proof -
  note S = system_facts [OF sys t]
  note W = S(2) [unfolded awaiting_ok]
  have p: "p < sessNext r" using W by blast
  have "owner \<Longrightarrow> op_completed (opHeap s i)"
    using await_ended_done [of "sessHeap r p" "commandID c" i e now err s] up W by (cases owner) auto
  moreover have "taskOk cd (putSession p s r) (ended c p (Inl err))" using p by (simp add: ended_ok)
  ultimately show ?thesis
    using p await_ended_facts [OF up S(4) [OF p]]
    by (cases owner) (auto intro!: good_put S(1) simp: gates owns unreserved)
qed

lemma good_answered:
  assumes sys: "systemOk cd (r, ts)" and t: "awaiting aid c p i owner \<in> set ts"
    and res: "awaitOperationDone (sessHeap r p) i = Some res"
  shows "goodStep cd r (awaiting aid c p i owner) r (answered aid c p res) []"
proof -
  note S = system_facts [OF sys t]
  note W = S(2) [unfolded awaiting_ok]
  obtain ack err where ae: "res = (ack, err)" by fastforce
  have "taskOk cd r (answered aid c p res)"
    using W done_proved [of "sessHeap r p" i ack cd "message c"] res S(3) [of p] ae
    by (cases err) (auto simp: answered_ok)
  then show ?thesis using await_done_completed [OF res]
    by (cases owner) (auto intro!: good_still simp: gates owns unreserved)
qed

lemma good_replied:
  assumes sys: "systemOk cd (r, ts)" and t: "answered aid c p res \<in> set ts"
  shows "goodStep cd r (answered aid c p res) r (ended c p (contextReply r aid p doing res)) []"
proof -
  obtain ack err where ae: "res = (ack, err)" by fastforce
  note R = system_facts(2) [OF sys t, unfolded ae answered_ok]
  have "taskOk cd r (ended c p (contextReply r aid p doing res))"
    using R contextReply_Inr [of r aid p doing res] ae by (auto simp: ended_ok)
  then show ?thesis by (auto intro!: good_still simp: gates owns unreserved)
qed

end

interpretation sets: context_handler sc_CommandId SetOperationContextMsg
  "\<lambda>aid c p i st. SetContextTask (SetDelivering aid c p i st)"
  "\<lambda>aid c p i owner. SetContextTask (SetAwaiting aid c p i owner)"
  "\<lambda>aid c p res. SetContextTask (SetReplying aid c p res)"
  "\<lambda>c p res. SetContextTask (SetLeaving c p res)"
proof (unfold_locales, goal_cases)
  case (2 cd r aid c p i owner) then show ?case by (cases owner) (auto simp: taskOk_def simp del: map_of_eq_Some_iff)
next
  case (3 cd r aid c p ack err) then show ?case by (cases err) (auto simp: taskOk_def)
next
  case (4 cd r c p res) then show ?case by (cases res) (auto simp: taskOk_def)
qed (auto simp: taskOk_def simp del: map_of_eq_Some_iff)

interpretation clears: context_handler cc_CommandId ClearOperationContextMsg
  "\<lambda>aid c p i st. ClearContextTask (ClearDelivering aid c p i st)"
  "\<lambda>aid c p i owner. ClearContextTask (ClearAwaiting aid c p i owner)"
  "\<lambda>aid c p res. ClearContextTask (ClearReplying aid c p res)"
  "\<lambda>c p res. ClearContextTask (ClearUnwinding c p res)"
proof (unfold_locales, goal_cases)
  case (2 cd r aid c p i owner) then show ?case by (cases owner) (auto simp: taskOk_def simp del: map_of_eq_Some_iff)
next
  case (3 cd r aid c p ack err) then show ?case by (cases err) (auto simp: taskOk_def)
next
  case (4 cd r c p res) then show ?case by (cases res) (auto simp: taskOk_def)
qed (auto simp: taskOk_def simp del: map_of_eq_Some_iff)

section \<open>The set handler\<close>

lemma current_live:
  assumes "relayReach r" "sessionIsCurrent r aid p"
  shows "\<not> retired (sessHeap r p)"
  using current_session(2) [OF assms(1)] assms(2) by (simp add: sessionIsCurrent_def del: map_of_eq_Some_iff)

lemma good_setSlot:
  assumes sys: "systemOk cd (r, ts)" and t: "SetContextTask (SetSlot aid c p) \<in> set ts"
    and run: "setContextStep cd ob r (SetSlot aid c p) = Some (t', r')"
  shows "goodStep cd r (SetContextTask (SetSlot aid c p)) r' (SetContextTask t') []"
proof -
  note S = system_facts [OF sys t]
  have p: "p < sessNext r" "sc_CommandId c \<noteq> []" using taskOkD(1,2) [OF S(2)] by auto
  show ?thesis
  proof (cases "sessionIsCurrent r aid p")
    case False
    with run p show ?thesis by (auto intro!: good_still simp: taskOk_def)
  next
    case True
    note live = current_live [OF S(1) True]
    obtain res s where adm: "admitOperation cd (ob_now ob) (sc_CommandId c) (SetOperationContextMsg c)
        (sc_Context c) (sessHeap r p) = (res, s)" by fastforce
    have "fits (SetOperationContextMsg c) (sc_Context c)" by (simp add: fits_def)
    from sets.good_admitted [OF S(1) p(1) live p(2) adm S(3) [OF p(1)] this, of "SetContextTask (SetSlot aid c p)" aid]
    show ?thesis
      using run True adm by (auto simp: sets.admitted_def split: sum.splits bool.splits)
  qed
qed

lemma good_setContext:
  assumes sys: "systemOk cd (r, ts)" and t: "SetContextTask t \<in> set ts"
    and run: "setContextStep cd ob r t = Some (t', r')"
  shows "goodStep cd r (SetContextTask t) r' (SetContextTask t') []"
proof -
  note S = system_facts [OF sys t]
  note O = taskOkD [OF S(2)]
  show ?thesis
  proof (cases t)
    case (SetCalled remote agent command)
    then show ?thesis
      using run S(1) setContextPrelude_Inr current_session(1) currentControlSession_Inr
      by (auto intro!: good_still simp: taskOk_def split: sum.splits prod.splits) blast+
  next
    case (SetQueued aid c p)
    then show ?thesis
      using run O(1,2) good_taken [OF sys t, of p "ob_ctx ob" _ "SetContextTask (SetSlot aid c p)"]
      by (auto intro!: good_still simp: taskOk_def split: option.splits sum.splits)
  next
    case (SetDelivering aid c p i st)
    then show ?thesis
      using run sets.good_sent [OF sys] sets.good_sending [OF sys] t
      by (cases st) (auto split: prod.splits)
  next
    case (SetAwaiting aid c p i owner)
    then show ?thesis
      using run sets.good_gaveUp [OF sys, of aid c p i owner] sets.good_answered [OF sys, of aid c p i owner] t
      by (auto split: option.splits prod.splits)
  next
    case (SetLeaving c p res)
    then show ?thesis
      using run good_released [OF sys t, of p "SetContextTask (SetReturned res)" "[]"] by (auto simp: taskOk_def)
  qed (use run sys t good_setSlot sets.good_replied in auto)
qed

section \<open>The clear handler\<close>

lemma clear_reserve_facts:
  assumes "clearContextReserve c s = (e, s')"
  shows "sessionStep s s'" "evolves q s s'" "opNext s' = opNext s" "operationGate s' = operationGate s"
    "retired s' = retired s"
proof -
  have s': "s' = snd (clearContextReserve c s)" using assms by simp
  show "sessionStep s s'" unfolding s' by (rule sessionStep.clearReserved)
  show "evolves q s s'" unfolding s' by (rule evolves_plain)
  show "opNext s' = opNext s" unfolding s' using calm_small(1) [of s c] by (simp add: calm_def)
  show "operationGate s' = operationGate s" unfolding s' by simp
  show "retired s' = retired s" unfolding s' by (auto simp: clearContextReserve_def
      reserveEmptyContextReconciliation_def split: bool.split)
qed

lemma opNext_release [simp]: "opNext (clearContextRelease c s) = opNext s"
  using calm_small(2) [of s c] by (simp add: calm_def)

lemma expectedContextAfterClear_fits:
  "fits (ClearOperationContextMsg c) (expectedContextAfterClear s (cc_FlightId c) (cc_Authoritative c))"
  by (simp add: fits_def expectedContextAfterClear_def)

lemma good_clearLeased:
  assumes sys: "systemOk cd (r, ts)" and t: "ClearContextTask (ClearLeased aid c p expected) \<in> set ts"
    and run: "clearContextStep cd ob r (ClearLeased aid c p expected) = Some (t', r')"
  shows "goodStep cd r (ClearContextTask (ClearLeased aid c p expected)) r' (ClearContextTask t') []"
proof -
  note S = system_facts [OF sys t]
  have p: "p < sessNext r" "\<not> retired (sessHeap r p)" "cc_CommandId c \<noteq> []"
    and fit: "fits (ClearOperationContextMsg c) expected"
    using taskOkD(2,3,11) [OF S(2)] by auto
  obtain res s where adm: "admitOperation cd (ob_now ob) (cc_CommandId c) (ClearOperationContextMsg c)
      expected (sessHeap r p) = (res, s)" by fastforce
  from clears.good_admitted [OF S(1) p adm S(3) [OF p(1)] fit, of "ClearContextTask (ClearLeased aid c p expected)" aid]
  show ?thesis
    using run adm by (auto simp: clears.admitted_def split: sum.splits bool.splits)
qed

lemma good_clearContext:
  assumes sys: "systemOk cd (r, ts)" and t: "ClearContextTask t \<in> set ts"
    and run: "clearContextStep cd ob r t = Some (t', r')"
  shows "goodStep cd r (ClearContextTask t) r' (ClearContextTask t') []"
proof -
  note S = system_facts [OF sys t]
  note O = taskOkD [OF S(2)]
  show ?thesis
  proof (cases t)
    case (ClearCalled remote agent command)
    then show ?thesis
      using run S(1) clearContextPrelude_Inr current_session(1) currentControlSession_Inr
      by (auto intro!: good_still simp: taskOk_def split: sum.splits prod.splits) blast+
  next
    case (ClearQueued aid c p)
    then show ?thesis
      using run O(1,2) good_taken [OF sys t, of p "ob_ctx ob" _ "ClearContextTask (ClearSlot aid c p)"]
      by (auto intro!: good_still simp: taskOk_def split: option.splits sum.splits)
  next
    case (ClearSlot aid c p)
    obtain e s where rsv: "clearContextReserve c (sessHeap r p) = (e, s)" by fastforce
    with run ClearSlot O(1,2) clear_reserve_facts [OF rsv] show ?thesis
      by (cases e) (auto intro!: good_put S(1) simp: taskOk_def)
  next
    case (ClearReserved aid c p)
    with run O(1,2) current_live [OF S(1)] expectedContextAfterClear_fits show ?thesis
      by (auto intro!: good_still simp: taskOk_def split: if_splits)
  next
    case (ClearDelivering aid c p i st)
    then show ?thesis
      using run clears.good_sent [OF sys] clears.good_sending [OF sys] t
      by (cases st) (auto split: prod.splits)
  next
    case (ClearAwaiting aid c p i owner)
    then show ?thesis
      using run clears.good_gaveUp [OF sys, of aid c p i owner] clears.good_answered [OF sys, of aid c p i owner] t
      by (auto split: option.splits prod.splits)
  next
    case (ClearUnwinding c p res)
    have "taskOk cd (putSession p (clearContextRelease c (sessHeap r p)) r) (ClearContextTask (ClearLeaving c p res))"
      using O(1,12) ClearUnwinding by (cases res) (auto simp: taskOk_def)
    with run ClearUnwinding O(1) show ?thesis
      by (auto intro!: good_put S(1) sessionStep.clearReleased evolves_plain)
  next
    case (ClearLeaving c p res)
    then show ?thesis
      using run good_released [OF sys t, of p "ClearContextTask (ClearReturned res)" "[]"] by (auto simp: taskOk_def)
  qed (use run sys t good_clearLeased clears.good_replied in auto)
qed

section \<open>Aircraft commands\<close>

lemma aircraftPrelude_Inr:
  "aircraftPrelude r remote agent command = Inr (aid, c, p) \<Longrightarrow>
     acmd_CommandId c \<noteq> [] \<and> mget (grpcSessions r) aid = Some p"
  by (auto simp: aircraftPrelude_def Let_def simp del: map_of_eq_Some_iff
      split: option.splits if_splits)

lemma lockCurrentMissionSession_Inr:
  "lockCurrentMissionSession r aid p = Inr sid \<Longrightarrow> mget (grpcSessions r) aid = Some p"
  by (auto simp: lockCurrentMissionSession_def simp del: map_of_eq_Some_iff split: if_splits)

lemma beginAircraft_facts:
  assumes "beginAircraftCommandDelivery s c fp now = (res, s')" "wf_session s" "\<not> retired s"
    "acmd_CommandId c \<noteq> []"
  shows "sessionStep s s'" "evolves q s s'" "opNext s' = opNext s" "operationGate s' = operationGate s"
    "retired s' = retired s"
proof -
  have s': "s' = snd (beginAircraftCommandDelivery s c fp now)" using assms(1) by simp
  show st: "sessionStep s s'" unfolding s' by (rule sessionStep.acBegin [OF assms(3,4)])
  show "evolves q s s'" unfolding s' by (rule evolves_begins(1) [OF assms(2)])
  show "opNext s' = opNext s" unfolding s' using calm_beginAircraft [OF assms(2), of c fp now]
    by (simp add: calm_def)
  show "operationGate s' = operationGate s" unfolding s' by simp
  show "retired s' = retired s" using step_keeps [OF st assms(2)] by (simp add: keeps_def sameShell_def)
qed

lemma opNext_plain [simp]:
  "opNext (finishAircraftCommand s k r result err' now) = opNext s"
  "opNext (snd (takeAircraftCommandResult s r)) = opNext s"
  "opNext (cancelAircraftCommandWaiter s k r err'' now) = opNext s"
  "opNext (handleAircraftCommandResultFrom s b ares now) = opNext s"
  "opNext (snd (failMissionDeploymentReservation s k r err now)) = opNext s"
  "opNext (recordMissionDelivery s k r attempted) = opNext s"
  "opNext (missionSendFailed s dm r attempted serr now) = opNext s"
  "opNext (snd (takeMissionDeploymentResult s r)) = opNext s"
  "opNext (cancelMissionDeploymentWaiter s k r now) = opNext s"
  "opNext (handleMissionDeploymentResultFrom s b mres now) = opNext s"
  "opNext (missionWaiterGone r s) = opNext s" "opNext (cancelMissionAdmission r s) = opNext s"
  "opNext (touchHeartbeat now s) = opNext s" "opNext (recordSend b m s) = opNext s"
  "opNext (publicationFailed b s) = opNext s"
  using calm_aircraft calm_mission calm_small by (auto simp: calm_def)

lemma locked_live:
  "relayReach r \<Longrightarrow> lockCurrentMissionSession r aid p = Inr sid \<Longrightarrow> \<not> retired (sessHeap r p)"
  using current_session(2) lockCurrentMissionSession_Inr by blast

lemma good_aircraftLeased:
  assumes sys: "systemOk cd (r, ts)" and t: "AircraftTask (AircraftLeased aid c p) \<in> set ts"
    and run: "aircraftStep cd ob r (AircraftLeased aid c p) = Some (t', r', new)"
  shows "goodStep cd r (AircraftTask (AircraftLeased aid c p)) r' (AircraftTask t') new"
proof -
  note S = system_facts [OF sys t]
  have p: "p < sessNext r" "\<not> retired (sessHeap r p)" "acmd_CommandId c \<noteq> []"
    using taskOkD(2,3) [OF S(2)] by auto
  obtain res s where b: "beginAircraftCommandDelivery (sessHeap r p) c (dg_ac cd c) (ob_now ob) = (res, s)"
    by fastforce
  note B = beginAircraft_facts [OF b S(4) [OF p(1)] p(2,3)]
  show ?thesis
  proof (cases res)
    case (Inl e)
    with run b B p show ?thesis by (auto intro!: good_put S(1) simp: taskOk_def)
  next
    case (Inr x)
    obtain i owner where x: "x = (i, owner)" by fastforce
    with run b B p Inr show ?thesis by (cases owner) (auto intro!: good_put S(1) simp: taskOk_def)
  qed
qed

lemma good_aircraftAwaiting:
  assumes sys: "systemOk cd (r, ts)" and t: "AircraftTask (AircraftAwaiting c p i) \<in> set ts"
    and run: "aircraftStep cd ob r (AircraftAwaiting c p i) = Some (t', r', new)"
  shows "goodStep cd r (AircraftTask (AircraftAwaiting c p i)) r' (AircraftTask t') new"
proof -
  note S = system_facts [OF sys t]
  have p: "p < sessNext r" using taskOkD(1) [OF S(2)] by auto
  show ?thesis
  proof (cases "ob_ctx ob")
    case (Some e)
    with run p show ?thesis
      by (auto intro!: good_put S(1) sessionStep.acWaitEnded evolves_plain simp: taskOk_def)
  next
    case None
    obtain res s where k: "takeAircraftCommandResult (sessHeap r p) i = (res, s)" by fastforce
    then have s: "s = snd (takeAircraftCommandResult (sessHeap r p) i)" by simp
    have "goodStep cd r (AircraftTask (AircraftAwaiting c p i)) (putSession p s r)
        (AircraftTask (AircraftReturned (aircraftReply c res))) []"
      unfolding s using p by (auto intro!: good_put S(1) sessionStep.acTaken evolves_plain simp: taskOk_def)
    with run None k show ?thesis by (auto split: if_splits)
  qed
qed

lemma good_aircraft:
  assumes sys: "systemOk cd (r, ts)" and t: "AircraftTask t \<in> set ts"
    and run: "aircraftStep cd ob r t = Some (t', r', new)"
  shows "goodStep cd r (AircraftTask t) r' (AircraftTask t') new"
proof -
  note S = system_facts [OF sys t]
  note O = taskOkD [OF S(2)]
  show ?thesis
  proof (cases t)
    case (AircraftCalled remote agent command)
    then show ?thesis
      using run aircraftPrelude_Inr current_session(1) [OF S(1)]
      by (auto intro!: good_still simp: taskOk_def split: sum.splits prod.splits) blast+
  next
    case (AircraftChosen aid c p)
    with run O(1,2) locked_live [OF S(1)] show ?thesis
      by (auto intro!: good_still simp: taskOk_def split: sum.splits)
  qed (use run sys t good_aircraftLeased good_aircraftAwaiting in auto)
qed

lemma good_aircraftSend:
  assumes sys: "systemOk cd (r, ts)" and t: "AircraftSendTask t \<in> set ts"
    and run: "aircraftSendStep ob r t = Some (t', r')"
  shows "goodStep cd r (AircraftSendTask t) r' (AircraftSendTask t') []"
proof (cases t)
  case (AircraftSending c p i st)
  note S = system_facts [OF sys t]
  have p: "p < sessNext r" "\<not> retired (sessHeap r p)" using taskOkD(3) [OF S(2)] AircraftSending by auto
  show ?thesis
  proof (cases st)
    case (Sending binding)
    let ?c = "ac_cancelled (acHeap (sessHeap r p) i)"
    obtain st' s where send: "sendStep (deliveryCtx ?c) (deliveryLock ?c (ob_lock ob)) None (ob_send ob)
        (AircraftCommandMsg c) binding (sessHeap r p) = (st', s)" by fastforce
    have "\<not> retired s"
      using step_keeps [OF step_sendStep [OF send] S(4) [OF p(1)]] p(2) by (simp add: keeps_def sameShell_def)
    then have "taskOk cd (putSession p s r) (AircraftSendTask (AircraftSending c p i st'))"
      using p sendStep_chosen [OF send] by (auto simp: taskOk_def elim: chosen.elims)
    with run AircraftSending Sending send p evolves_sendStep [OF send] sendStep_opNext [OF send]
      step_sendStep [OF send] show ?thesis by (auto intro!: good_put S(1) simp: Let_def)
  next
    case (Sent attempted err)
    with run AircraftSending p show ?thesis
      by (cases err) (auto intro!: good_put good_still S(1) sessionStep.acSendFailed evolves_plain simp: taskOk_def)
  qed
qed (use run in simp)

end
