(* ===== verification/MissionSteps.thy ===== *)
theory MissionSteps
  imports ContextSteps
begin

text \<open>
  Every section of the mission handler, of its send task, of the watchers of its waiters and of the
  reservation workers is a good step.
\<close>

section \<open>Mission deployments\<close>

lemma attach_facts:
  assumes "attachStep cd ob c s = (res, s')" "wf_session s" "\<not> retired s" "dm_CommandId c \<noteq> []"
  shows "sessionStep s s'" "evolves q s s'" "opNext s' = opNext s" "operationGate s' = operationGate s"
    "retired s' = retired s"
    and "res = Reserved i \<Longrightarrow> mdNext s \<le> i \<and> i < mdNext s' \<and> md_reserved (mdHeap s' i) \<and>
      md_command (mdHeap s' i) = Some c"
proof -
  have s': "s' = snd (attachMissionDeployment s c (dg_md cd c) (ob_ctx ob) (ob_ctx2 ob) (ob_now ob))"
    using assms(1) by (simp add: attachStep_def)
  show st: "sessionStep s s'" unfolding s' by (rule sessionStep.mdAttach [OF assms(3,4)])
  show "evolves q s s'" unfolding s' by (rule evolves_begins(2) [OF assms(2)])
  show "opNext s' = opNext s" unfolding s'
    using calm_attachMission [OF assms(2), of c "dg_md cd c" "ob_ctx ob" "ob_ctx2 ob" "ob_now ob"]
    by (simp add: calm_def)
  show "operationGate s' = operationGate s" unfolding s' by simp
  show "retired s' = retired s" using step_keeps [OF st assms(2)] by (simp add: keeps_def sameShell_def)
  assume res: "res = Reserved i"
  obtain e s1 where Pair: "prepareCommandIDAdmissionLocked s (dm_CommandId c) retainedMissionDeployment
      (ob_now ob) = (e, s1)" by fastforce
  from missionKeeps_prepare [OF Pair] assms(1) res
  show "mdNext s \<le> i \<and> i < mdNext s' \<and> md_reserved (mdHeap s' i) \<and> md_command (mdHeap s' i) = Some c"
    by (auto simp: attachStep_def attachMissionDeployment_def Pair Let_def installMission_def
        missionReservation_def split: option.splits if_splits)
qed

lemma admitMission_new:
  assumes "admitMissionDelivery s c fp q e1 e2 now = (Inr (i, True), s')" "\<And>j. q = Some j \<Longrightarrow> j < mdNext s"
  shows "i < mdNext s'" "\<not> md_reserved (mdHeap s' i)"
  using assms by (auto simp: admitMissionDelivery_def activateMission_def installMission_def zeroMd_def
      makeMissionDeploymentRoomLocked_def Let_def split: option.splits if_splits)

lemma beginMission_facts:
  assumes "beginMissionDeployment s c fpo q e1 e2 now = (res, s')" "wf_session s" "\<not> retired s"
    "dm_CommandId c \<noteq> []" "reservationOf s q (dm_CommandId c) e1"
    "\<And>j. q = Some j \<Longrightarrow> md_command (mdHeap s j) = Some c"
  shows "sessionStep s s'" "evolves q s s'" "opNext s' = opNext s" "operationGate s' = operationGate s"
    "retired s' = retired s"
    and "res = Inr (i, True) \<Longrightarrow> i < mdNext s' \<and> \<not> md_reserved (mdHeap s' i)"
proof -
  have s': "s' = snd (beginMissionDeployment s c fpo q e1 e2 now)" using assms(1) by simp
  show st: "sessionStep s s'" unfolding s' by (rule sessionStep.mdBegin [OF assms(3,4,5)])
  show "evolves q s s'" unfolding s' by (rule evolves_begins(3) [OF assms(2,6)])
  show "opNext s' = opNext s" unfolding s' using calm_beginMission [OF assms(2), of c fpo q e1 e2 now]
    by (simp add: calm_def)
  show "operationGate s' = operationGate s" unfolding s' by simp
  show "retired s' = retired s" using step_keeps [OF st assms(2)] by (simp add: keeps_def sameShell_def)
  assume res: "res = Inr (i, True)"
  obtain e s1 where Pair: "prepareCommandIDAdmissionLocked s (dm_CommandId c) retainedMissionDeployment now =
      (e, s1)" by fastforce
  have bound: "q = Some j \<Longrightarrow> j < mdNext s1" for j
    using assms(5) missionKeeps_prepare [OF Pair] by (simp add: reservationOf_def)
  obtain fp where adm: "admitMissionDelivery s1 c fp q e1 e2 now = (Inr (i, True), s')"
    using assms(1) res by (auto simp: beginMissionDeployment_def Pair Let_def split: option.splits if_splits)
  from admitMission_new [OF this bound]
  show "i < mdNext s' \<and> \<not> md_reserved (mdHeap s' i)" by blast
qed

lemma step_sendMission:
  assumes "sendStep ctx lockErr (Some (\<lambda>s. commitMissionDelivery s k i)) serr msg binding s = (st, s')"
    "\<not> md_reserved (mdHeap s i)"
  shows "sessionStep s s'"
    and "st = Sent True err \<Longrightarrow> md_resultAdmissionOpen (mdHeap s' i)"
proof -
  have "sessionStep s s' \<and> (st = Sent True err \<longrightarrow> md_resultAdmissionOpen (mdHeap s' i))"
  proof (cases binding)
    case None
    with assms step_refl show ?thesis by (auto simp: sendStep_def split: sum.splits)
  next
    case (Some b)
    obtain out s1 where out: "sendOnSelected b lockErr ctx (Some (\<lambda>s. commitMissionDelivery s k i)) serr msg s =
        (out, s1)" by fastforce
    then have "s1 = s'" using assms(1) Some by (auto simp: sendStep_def split: sendOutcome.splits)
    moreover have "out = SendReturned True x \<Longrightarrow> md_resultAdmissionOpen (mdHeap s1 i)" for x
      using out by (auto simp: sendOnSelected_def commitMissionDelivery_def recordSend_def
          split: option.splits if_splits prod.splits bool.splits)
    ultimately show ?thesis
      using sessionStep.mdWritten [OF assms(2) out] assms(1) Some out
      by (auto simp: sendStep_def split: sendOutcome.splits)
  qed
  then show "sessionStep s s'" "st = Sent True err \<Longrightarrow> md_resultAdmissionOpen (mdHeap s' i)" by blast+
qed

lemma step_alive: "sessionStep s s' \<Longrightarrow> wf_session s \<Longrightarrow> retired s' = retired s"
  using step_keeps by (simp add: keeps_def sameShell_def)

lemma good_missionSend:
  assumes sys: "systemOk cd (r, ts)" and t: "MissionSendTask t \<in> set ts"
    and run: "missionSendStep ob r t = Some (t', r')"
  shows "goodStep cd r (MissionSendTask t) r' (MissionSendTask t') []"
proof -
  note S = system_facts [OF sys t]
  note O = taskOkD [OF S(2)]
  show ?thesis
  proof (cases t)
    case (MissionSending c p i st)
    have p: "p < sessNext r" "\<not> retired (sessHeap r p)" "i < mdNext (sessHeap r p)"
      "\<not> md_reserved (mdHeap (sessHeap r p) i)"
      using O(3,7) MissionSending by auto
    show ?thesis
    proof (cases st)
      case (Sending binding)
      let ?c = "md_cancelled (mdHeap (sessHeap r p) i) = Some True"
      obtain st' s where send: "sendStep (deliveryCtx ?c) (deliveryLock ?c (ob_lock ob))
          (Some (\<lambda>s. commitMissionDelivery s (dm_CommandId c) i)) (ob_send ob) (DeployMissionMsg c) binding
          (sessHeap r p) = (st', s)" by fastforce
      note W = step_sendMission [OF send p(4)]
      have ev: "evolves q (sessHeap r p) s" for q by (rule evolves_sendStep [OF send disjI2 [OF refl]])
      have "taskOk cd (putSession p s r) (MissionSendTask (MissionSending c p i st'))"
        using p step_alive [OF W(1) S(4) [OF p(1)]] stays_unreserved [OF ev p(3,4)] W(2) sendStep_chosen [OF send]
        by (auto simp: taskOk_def elim: chosen.elims sentMission.elims)
      with run MissionSending Sending send p ev sendStep_opNext [OF send disjI2 [OF refl]] W(1) show ?thesis
        by (auto intro!: good_put S(1) simp: Let_def)
    next
      case (Sent attempted err)
      let ?s = "recordMissionDelivery (sessHeap r p) (dm_CommandId c) i attempted"
      have opened: "attempted \<Longrightarrow> md_resultAdmissionOpen (mdHeap (sessHeap r p) i)"
        using O(8) MissionSending Sent by auto
      have st: "sessionStep (sessHeap r p) ?s" using p(4) opened by (rule sessionStep.mdSent)
      have "taskOk cd (putSession p ?s r) (MissionSendTask (MissionFailing c p i attempted err))"
        using p step_alive [OF st S(4) [OF p(1)]] stays_unreserved [OF evolves_plain(13) p(3,4)] by (auto simp: taskOk_def)
      with run MissionSending Sent p st show ?thesis
        by (auto intro!: good_put S(1) evolves_plain)
    qed
  next
    case (MissionFailing c p i attempted err)
    have p: "p < sessNext r" "\<not> md_reserved (mdHeap (sessHeap r p) i)"
      using O(3,7) MissionFailing by auto
    with run MissionFailing show ?thesis
      by (auto intro!: good_put S(1) evolves_plain sessionStep.mdSendFailed simp: taskOk_def)
  qed (use run in simp)
qed

lemma good_missionWaiter:
  assumes sys: "systemOk cd (r, ts)" and t: "MissionWaiterTask t \<in> set ts"
    and run: "missionWaiterStep ob r t = Some (t', r')"
  shows "goodStep cd r (MissionWaiterTask t) r' (MissionWaiterTask t') []"
proof (cases t)
  case (WaiterWatching p i)
  note S = system_facts [OF sys t]
  have "p < sessNext r" using taskOkD(1) [OF S(2)] WaiterWatching by auto
  with run WaiterWatching show ?thesis
    by (auto intro!: good_put good_still S(1) evolves_plain sessionStep.mdWaiterGone simp: taskOk_def
        split: if_splits)
qed (use run in simp)

lemma missionPrelude_Inr:
  assumes "missionPrelude digest r remote agent command = Inr (aid, c, p)"
  shows "dm_CommandId c \<noteq> []" "mget (grpcSessions r) aid = Some p"
proof -
  have v: "validateDeployMissionCommand digest (Some c) = None" and m: "mget (grpcSessions r) aid = Some p"
    using assms by (auto simp: missionPrelude_def Let_def simp del: map_of_eq_Some_iff
        split: option.splits if_splits)
  from v show "dm_CommandId c \<noteq> []"
    by (auto simp: validateDeployMissionCommand_def dest: trimSpace_nonempty
        split: option.splits if_splits)
  from m show "mget (grpcSessions r) aid = Some p" .
qed

lemma attachWatchers_ok:
  "p < sessNext r \<Longrightarrow> u \<in> set (attachWatchers s p res) \<Longrightarrow>
     taskOk cd r u \<and> gateOf u = None \<and> reservedBy u = []"
  by (auto simp: attachWatchers_def taskOk_def split: missionAttach.splits if_splits)

lemma attachWatchers_reserved [simp]: "concat (map reservedBy (attachWatchers s p res)) = []"
  by (auto simp: attachWatchers_def split: missionAttach.splits)

lemma activating_simps [simp]:
  "activating (DeployTask x) p = None" "activating (StreamTask y) p = None"
  "activating (RegisterTask z) p = None"
  "activating (ReservationTask (ReservationAdmitting aid p i)) p = Some i"
  by (simp_all add: activating_def)

lemma good_attach:
  assumes sys: "systemOk cd (r, ts)" and t: "t \<in> set ts" "gateOf t' = gateOf t" "ownsOp t = None"
    and p: "p < sessNext r" "\<not> retired (sessHeap r p)" "dm_CommandId c \<noteq> []"
    and run: "attachStep cd ob c (sessHeap r p) = (res, s)"
    and ok: "taskOk cd (putSession p s r) t'"
    and extra: "\<And>u. u \<in> set extra \<Longrightarrow> taskOk cd (putSession p s r) u \<and> gateOf u = None"
    and qs: "reservedBy t' @ concat (map reservedBy extra) = [] \<or>
      (\<exists>i. res = Reserved i \<and> reservedBy t' @ concat (map reservedBy extra) = [(p, i)])"
  shows "goodStep cd r t (putSession p s r) t' (attachWatchers (sessHeap r p) p res @ extra)"
proof -
  note S = system_facts [OF sys t(1)]
  note A = attach_facts [OF run S(4) [OF p(1)] p(2,3)]
  have w: "u \<in> set (attachWatchers (sessHeap r p) p res) \<Longrightarrow>
      taskOk cd (putSession p s r) u \<and> gateOf u = None" for u
    using attachWatchers_ok [of p "putSession p s r"] p by simp
  show ?thesis
  proof (rule good_put [OF S(1) p(1) A(1,2,3) ok])
    show "u \<in> set (attachWatchers (sessHeap r p) p res @ extra) \<Longrightarrow>
        taskOk cd (putSession p s r) u \<and> gateOf u = None" for u
      using w extra by auto
    show "reservesMove t (reservedBy t' @ concat (map reservedBy (attachWatchers (sessHeap r p) p res @ extra))) r"
      using qs
    proof (elim disjE exE conjE)
      assume none: "reservedBy t' @ concat (map reservedBy extra) = []"
      have "reservedBy t' @ concat (map reservedBy (attachWatchers (sessHeap r p) p res @ extra)) = []"
        by (simp only: map_append concat_append attachWatchers_reserved append_Nil none)
      then show ?thesis by (simp only: reservesMove_sub)
    next
      fix i assume "res = Reserved i" and one: "reservedBy t' @ concat (map reservedBy extra) = [(p, i)]"
      have "reservedBy t' @ concat (map reservedBy (attachWatchers (sessHeap r p) p res @ extra)) = [(p, i)]"
        by (simp only: map_append concat_append attachWatchers_reserved append_Nil one)
      then show ?thesis using A(6) [OF \<open>res = Reserved i\<close>] p(1) by (simp only: reservesMove_def) simp
    qed
  qed (use t A(4) in auto)
qed

lemma cancel_evolves:
  "p < sessNext r \<Longrightarrow> relayReach r \<Longrightarrow> gateOf t' = gateOf t \<Longrightarrow> ownsOp t = None \<Longrightarrow>
     reservedBy t' = [] \<Longrightarrow>
     taskOk cd (putSession p (cancelMissionDeploymentWaiter (sessHeap r p) k i now) r) t' \<Longrightarrow>
     goodStep cd r t (putSession p (cancelMissionDeploymentWaiter (sessHeap r p) k i now) r) t' []"
  by (intro good_put) (auto intro: sessionStep.mdWaitEnded evolves_plain)

lemma take_evolves:
  assumes "p < sessNext r" "relayReach r" "takeMissionDeploymentResult (sessHeap r p) i = (res, s)"
    "gateOf t' = gateOf t" "ownsOp t = None" "reservedBy t' = []" "taskOk cd (putSession p s r) t'"
  shows "goodStep cd r t (putSession p s r) t' []"
proof -
  have s: "s = snd (takeMissionDeploymentResult (sessHeap r p) i)" using assms(3) by simp
  show ?thesis
    using assms(1,2,4-) unfolding s by (intro good_put) (auto intro: sessionStep.mdTaken evolves_plain)
qed

text \<open>The two attachments, before the gate and with it.\<close>

lemma good_deployLeased:
  assumes sys: "systemOk cd (r, ts)" and t: "DeployTask (DeployLeased aid c p) \<in> set ts"
    and run: "deployStep cd ob r (DeployLeased aid c p) = Some (t', r', new)"
  shows "goodStep cd r (DeployTask (DeployLeased aid c p)) r' (DeployTask t') new"
proof -
  note S = system_facts [OF sys t]
  have p: "p < sessNext r" "\<not> retired (sessHeap r p)" "dm_CommandId c \<noteq> []"
    using taskOkD(2,3) [OF S(2)] by auto
  obtain res s where at: "attachStep cd ob c (sessHeap r p) = (res, s)" by fastforce
  note A = attach_facts [OF at S(4) [OF p(1)] p(2,3)]
  note good = good_attach [OF sys t _ _ p at]
  show ?thesis
  proof (cases res)
    case (AttachFailed e)
    with run at p good [of "DeployTask (DeployReturned (Inl e))" "[]"] show ?thesis
      by (auto simp: taskOk_def attachWatchers_def)
  next
    case NotRetained
    with run at p good [of "DeployTask (DeployQueued aid c p)" "[]"] show ?thesis
      by (auto simp: taskOk_def attachWatchers_def)
  next
    case (Attached i)
    with run at p good [of "DeployTask (DeployAwaiting c p i False)" "[]"] show ?thesis by (auto simp: taskOk_def)
  next
    case (Reserved i)
    with run at p A(6) good [of "DeployTask (DeployAwaiting c p i False)"
        "[ReservationTask (ReservationQueued aid p i)]"] show ?thesis by (auto simp: taskOk_def)
  qed
qed

lemma good_deploySlotLeased:
  assumes sys: "systemOk cd (r, ts)" and t: "DeployTask (DeploySlotLeased aid c p) \<in> set ts"
    and run: "deployStep cd ob r (DeploySlotLeased aid c p) = Some (t', r', new)"
  shows "goodStep cd r (DeployTask (DeploySlotLeased aid c p)) r' (DeployTask t') new"
proof -
  note S = system_facts [OF sys t]
  have p: "p < sessNext r" "\<not> retired (sessHeap r p)" "dm_CommandId c \<noteq> []"
    using taskOkD(2,3) [OF S(2)] by auto
  obtain res s where at: "attachStep cd ob c (sessHeap r p) = (res, s)" by fastforce
  note A = attach_facts [OF at S(4) [OF p(1)] p(2,3)]
  note good = good_attach [OF sys t _ _ p at]
  show ?thesis
  proof (cases res)
    case (AttachFailed e)
    with run at p good [of "DeployTask (DeployLeaving p (Inl e))" "[]"] show ?thesis
      by (auto simp: taskOk_def attachWatchers_def)
  next
    case NotRetained
    with run at p A(5) good [of "DeployTask (DeployFencing aid c p)" "[]"] show ?thesis
      by (auto simp: taskOk_def attachWatchers_def)
  next
    case (Attached i)
    with run at p good [of "DeployTask (DeployYielding aid c p i False)" "[]"] show ?thesis by (auto simp: taskOk_def)
  next
    case (Reserved i)
    with run at p A(6) good [of "DeployTask (DeployYielding aid c p i True)" "[]"] show ?thesis
      by (auto simp: taskOk_def)
  qed
qed

lemma good_deployYielding:
  assumes sys: "systemOk cd (r, ts)" and t: "DeployTask (DeployYielding aid c p i reserved) \<in> set ts"
    and run: "deployStep cd ob r (DeployYielding aid c p i reserved) = Some (t', r', new)"
  shows "goodStep cd r (DeployTask (DeployYielding aid c p i reserved)) r' (DeployTask t') new"
proof -
  note O = taskOkD [OF system_facts(2) [OF sys t]]
  have p: "p < sessNext r" using O(1) by simp
  have "taskOk cd (putSession p (releaseGate (sessHeap r p)) r) (ReservationTask (ReservationQueued aid p i))"
    if reserved using that p O(9) [of p i] by (auto simp: taskOk_def)
  then show ?thesis
    using run p good_released [OF sys t, of p "DeployTask (DeployAwaiting c p i False)" new]
    by (cases reserved) (auto simp: taskOk_def reservesMove_def)
qed

lemma good_deployAdmitting:
  assumes sys: "systemOk cd (r, ts)" and t: "DeployTask (DeployAdmitting aid c p) \<in> set ts"
    and run: "deployStep cd ob r (DeployAdmitting aid c p) = Some (t', r', new)"
  shows "goodStep cd r (DeployTask (DeployAdmitting aid c p)) r' (DeployTask t') new"
proof -
  note S = system_facts [OF sys t]
  have p: "p < sessNext r" "\<not> retired (sessHeap r p)" "dm_CommandId c \<noteq> []"
    using taskOkD(2,3) [OF S(2)] by auto
  obtain res s where b: "beginMissionDeployment (sessHeap r p) c (dg_md cd c) None (ob_ctx ob) (ob_ctx2 ob)
      (ob_now ob) = (res, s)" by fastforce
  have "reservationOf (sessHeap r p) None (dm_CommandId c) (ob_ctx ob)" by (simp add: reservationOf_def)
  note B = beginMission_facts [OF b S(4) [OF p(1)] p(2,3) this]
  show ?thesis
  proof (cases res)
    case (Inl e)
    with run b B p show ?thesis by (auto intro!: good_put S(1) simp: taskOk_def)
  next
    case (Inr x)
    obtain i owner where x: "x = (i, owner)" by fastforce
    with run b B p Inr show ?thesis by (cases owner) (auto intro!: good_put S(1) simp: taskOk_def)
  qed
qed

lemma good_deployAwaiting:
  assumes sys: "systemOk cd (r, ts)" and t: "DeployTask (DeployAwaiting c p i gated) \<in> set ts"
    and run: "deployStep cd ob r (DeployAwaiting c p i gated) = Some (t', r', new)"
  shows "goodStep cd r (DeployTask (DeployAwaiting c p i gated)) r' (DeployTask t') new"
proof -
  note S = system_facts [OF sys t]
  have p: "p < sessNext r" using taskOkD(1) [OF S(2)] by (cases gated) auto
  show ?thesis
  proof (cases "ob_ctx ob")
    case (Some e)
    with run p show ?thesis by (cases gated) (auto intro!: cancel_evolves S(1) simp: taskOk_def)
  next
    case None
    obtain res s where k: "takeMissionDeploymentResult (sessHeap r p) i = (res, s)" by fastforce
    with run None p show ?thesis
      by (cases gated) (auto intro!: take_evolves [OF _ _ k] S(1) simp: taskOk_def split: if_splits)
  qed
qed

lemma good_deploy:
  assumes sys: "systemOk cd (r, ts)" and t: "DeployTask t \<in> set ts"
    and run: "deployStep cd ob r t = Some (t', r', new)"
  shows "goodStep cd r (DeployTask t) r' (DeployTask t') new"
proof -
  note S = system_facts [OF sys t]
  note O = taskOkD [OF S(2)]
  show ?thesis
  proof (cases t)
    case (DeployCalled remote agent command)
    then show ?thesis
      using run missionPrelude_Inr current_session(1) [OF S(1)]
      by (auto intro!: good_still simp: taskOk_def split: sum.splits prod.splits) blast+
  next
    case (DeployChosen aid c p)
    with run O(1,2) locked_live [OF S(1)] show ?thesis
      by (auto intro!: good_still simp: taskOk_def split: sum.splits)
  next
    case (DeployQueued aid c p)
    then show ?thesis
      using run O(1,2) good_taken [OF sys t, of p "ob_ctx ob" _ "DeployTask (DeploySlot aid c p)"]
      by (auto intro!: good_still simp: taskOk_def split: option.splits sum.splits)
  next
    case (DeploySlot aid c p)
    with run O(1,2) locked_live [OF S(1)] show ?thesis
      by (auto intro!: good_still simp: taskOk_def split: sum.splits)
  next
    case (DeployFencing aid c p)
    with run O(2,3) show ?thesis by (auto intro!: good_still simp: taskOk_def split: option.splits)
  next
    case (DeployLeaving p res)
    then show ?thesis
      using run good_released [OF sys t, of p "DeployTask (DeployReturned res)" "[]"] by (auto simp: taskOk_def)
  qed (use run sys t good_deployLeased good_deploySlotLeased good_deployYielding good_deployAdmitting
      good_deployAwaiting in auto)
qed

section \<open>Reservations\<close>

lemma reservesMove_same [simp]: "reservedBy t = [(p, i)] \<Longrightarrow> reservesMove t [(p, i)] r"
  by (simp add: reservesMove_def)

lemma reservationFence_None: "reservationFence s c = None \<Longrightarrow> missionFence s c = None"
  by (simp add: reservationFence_def split: if_splits)

lemma fail_evolves:
  assumes "p < sessNext r" "relayReach r" "gateOf t' = gateOf t" "ownsOp t = None" "reservedBy t' = []"
    "taskOk cd (putSession p (snd (failMissionDeploymentReservation (sessHeap r p) k i e now)) r) t'"
  shows "goodStep cd r t (putSession p (snd (failMissionDeploymentReservation (sessHeap r p) k i e now)) r) t' []"
  using assms by (intro good_put) (auto intro: sessionStep.mdReservationFailed evolves_plain)

text \<open>A worker still holds its reservation, whose command has an ID.\<close>

lemma reserved_facts:
  assumes "taskOk cd r t" "reservedBy t = [(p, i)]"
  shows "p < sessNext r" "i < mdNext (sessHeap r p)" "md_reserved (mdHeap (sessHeap r p) i)"
    "\<exists>c. md_command (mdHeap (sessHeap r p) i) = Some c \<and> dm_CommandId c \<noteq> []"
  using taskOkD(1,9) [OF assms(1)] assms(2) reserved_points [of p i t] by auto

lemma good_reservationQueued:
  assumes sys: "systemOk cd (r, ts)" and t: "ReservationTask (ReservationQueued aid p i) \<in> set ts"
    and run: "reservationStep cd ob r (ReservationQueued aid p i) = Some (t', r', new)"
  shows "goodStep cd r (ReservationTask (ReservationQueued aid p i)) r' (ReservationTask t') new"
proof -
  note S = system_facts [OF sys t]
  have p: "p < sessNext r" "i < mdNext (sessHeap r p)" "md_reserved (mdHeap (sessHeap r p) i)"
    "\<exists>c. md_command (mdHeap (sessHeap r p) i) = Some c \<and> dm_CommandId c \<noteq> []"
    using reserved_facts [OF S(2), of p i] by simp_all
  have "taskOk cd (putSession p s r) (ReservationTask (ReservationSlot aid p i))"
    if "takeGate (sessHeap r p) = Some s" for s
    using p takeGate_facts [OF that] by (auto simp: taskOk_def)
  then show ?thesis
    using run p good_taken [OF sys t, of p _ _ "ReservationTask (ReservationSlot aid p i)"]
    by (auto intro!: good_still simp: taskOk_def split: option.splits sum.splits)
qed

lemma good_reservationAdmitting:
  assumes sys: "systemOk cd (r, ts)" and t: "ReservationTask (ReservationAdmitting aid p i) \<in> set ts"
    and run: "reservationStep cd ob r (ReservationAdmitting aid p i) = Some (t', r', new)"
  shows "goodStep cd r (ReservationTask (ReservationAdmitting aid p i)) r' (ReservationTask t') new"
proof -
  note S = system_facts [OF sys t]
  have p: "p < sessNext r" "\<not> retired (sessHeap r p)" using taskOkD(3) [OF S(2)] by auto
  have i: "i < mdNext (sessHeap r p)" "md_reserved (mdHeap (sessHeap r p) i)"
    using reserved_facts [OF S(2), of p i] by simp_all
  obtain c where c: "md_command (mdHeap (sessHeap r p) i) = Some c" "dm_CommandId c \<noteq> []"
    using reserved_facts(4) [OF S(2), of p i] by auto
  let ?e1 = "admissionCtx (sessHeap r p) i"
  let ?e2 = "if ?e1 \<noteq> None then ?e1 else deliveryCtx (ob_ctx2 ob \<noteq> None)"
  obtain res s where b: "beginMissionDeployment (sessHeap r p) c (dg_md cd c) (Some i) ?e1 ?e2 (ob_now ob) =
      (res, s)" by fastforce
  have rc: "reservedCommand (sessHeap r p) i = c" using c by (simp add: reservedCommand_def)
  have own: "reservationOf (sessHeap r p) (Some i) (dm_CommandId c) ?e1"
    using i c by (auto simp: reservationOf_def admissionCtx_def deliveryCtx_def)
  note B = beginMission_facts [OF b S(4) [OF p(1)] p(2) c(2) own]
  show ?thesis
  proof (cases res)
    case (Inl e)
    with run b B p rc c show ?thesis by (auto intro!: good_put S(1) simp: taskOk_def Let_def)
  next
    case (Inr x)
    obtain j owner where x: "x = (j, owner)" by fastforce
    with run b B p Inr rc c show ?thesis
      by (cases owner) (auto intro!: good_put S(1) simp: taskOk_def Let_def)
  qed
qed

lemma good_reservation:
  assumes sys: "systemOk cd (r, ts)" and t: "ReservationTask t \<in> set ts"
    and run: "reservationStep cd ob r t = Some (t', r', new)"
  shows "goodStep cd r (ReservationTask t) r' (ReservationTask t') new"
proof -
  note S = system_facts [OF sys t]
  note O = taskOkD [OF S(2)]
  show ?thesis
  proof (cases t)
    case (ReservationSlot aid p i)
    with run locked_live [OF S(1)] reserved_facts [OF S(2), of p i] show ?thesis
      by (auto intro!: good_still simp: taskOk_def split: sum.splits)
  next
    case (ReservationLeased aid p i)
    with run O(3) reserved_facts [OF S(2), of p i] show ?thesis
      by (auto intro!: good_still simp: taskOk_def split: if_splits)
  next
    case (ReservationFencing aid p i)
    with run O(3) reserved_facts [OF S(2), of p i] reservationFence_None show ?thesis
      by (auto intro!: good_still simp: taskOk_def split: option.splits)
  next
    case (ReservationFailing p i e gated)
    with run O(1) show ?thesis by (cases gated) (auto intro!: fail_evolves S(1) simp: taskOk_def)
  next
    case (ReservationWaiting p i)
    with run O(1) show ?thesis by (auto intro!: good_still simp: taskOk_def split: if_splits)
  next
    case (ReservationLeaving p i)
    then show ?thesis
      using run O(1) good_released [OF sys t, of p "ReservationTask (ReservationEnding p i)" "[]"]
      by (auto simp: taskOk_def)
  next
    case (ReservationEnding p i)
    with run O(1) show ?thesis
      by (auto intro!: good_put S(1) sessionStep.mdAdmissionEnded evolves_plain simp: taskOk_def)
  qed (use run sys t good_reservationQueued good_reservationAdmitting in auto)
qed

end
