(* ===== verification/AgentSteps.thy ===== *)
theory AgentSteps
  imports MissionSteps
begin

text \<open>
  Every section of the Agent's RPCs is a good step; and so every reachable system is in order.
\<close>

section \<open>The Agent's RPCs\<close>

lemma good_relay:
  assumes "relayRun r r1" and ev: "evolvesAll t r r1"
    and same: "\<And>q. q < sessNext r \<Longrightarrow> operationGate (sessHeap r1 q) = operationGate (sessHeap r q) \<and>
      opNext (sessHeap r1 q) = opNext (sessHeap r q)"
    and fresh: "\<And>q. sessNext r \<le> q \<Longrightarrow> q < sessNext r1 \<Longrightarrow>
      operationGate (sessHeap r1 q) \<and> opNext (sessHeap r1 q) = 0"
    and t: "gateOf t = None" "gateOf t' = None" "ownsOp t = None" "reservedBy t' = []" "taskOk cd r1 t'"
  shows "goodStep cd r t r1 t' []"
proof -
  have at: "evolves (activating t q) (sessHeap r q) (sessHeap r1 q)" if "q < sessNext r" for q
    using ev that by (simp add: evolvesAll_def)
  have live: "\<not> op_completed (opHeap (sessHeap r q) i)"
    if "q < sessNext r" "i < opNext (sessHeap r q)" "\<not> op_completed (opHeap (sessHeap r1 q) i)" for q i
    using at [OF that(1)] that(2,3) by (auto simp: evolves_def opKeeps_def opMove_def opFinal_def)
  have "gateMoves t t' r r1"
    unfolding gateMoves_def using same fresh t(1,2) by (auto simp: not_less)
  moreover have "opsMove cd t t' r r1"
    unfolding opsMove_def
  proof (intro allI impI conjI)
    fix q i assume q: "q < sessNext r1" "i < opNext (sessHeap r1 q)" "\<not> op_completed (opHeap (sessHeap r1 q) i)"
    then have "q < sessNext r" using fresh [of q] by (cases "q < sessNext r") auto
    then show "(\<exists>k. ownsOp t' = Some (q, i, k)) \<or> q < sessNext r \<and> i < opNext (sessHeap r q) \<and>
        \<not> op_completed (opHeap (sessHeap r q) i) \<and> (\<forall>k. ownsOp t \<noteq> Some (q, i, k))"
      using q same [of q] live [of q i] t(3) by simp
  next
    fix q assume q: "q < sessNext r1" "q < sessNext r \<longrightarrow> opsFit cd (sessHeap r q)"
    show "opsFit cd (sessHeap r1 q)"
    proof (cases "q < sessNext r")
      case True
      then show ?thesis using opsFit_evolves [OF at [OF True]] same [OF True] q by simp
    next
      case False
      then show ?thesis using fresh [of q] q by (simp add: opsFit_def)
    qed
  qed
  ultimately show ?thesis using assms by (simp add: goodStep_def)
qed

lemma opNext_bindings [simp]:
  "opNext (abortPendingCommandsForStreamReplacement s now) = opNext s"
  "opNext (snd (snd (bindStream immediate now s))) = opNext s"
  "opNext (snd (publicationCommit b isActive now s)) = opNext s"
  "opNext (closeBinding b s) = opNext s"
  "opNext (snd (snapshotContextAndAbortPending s now)) = opNext s"
proof -
  show ab: "opNext (abortPendingCommandsForStreamReplacement s now) = opNext s" for s
    by (simp add: abortPendingCommandsForStreamReplacement_def Let_def)
  show "opNext (snd (snd (bindStream immediate now s))) = opNext s" by (simp add: bindStream_def Let_def ab)
  show "opNext (snd (publicationCommit b isActive now s)) = opNext s"
    by (simp add: publicationCommit_def Let_def ab)
  show "opNext (closeBinding b s) = opNext s" by (simp add: closeBinding_def Let_def)
  show "opNext (snd (snapshotContextAndAbortPending s now)) = opNext s"
    by (simp add: snapshotContextAndAbortPending_def abortPendingCommandsLocked_def)
qed

lemma shell_bindings [simp]:
  "retired (snd (snd (bindStream immediate now s))) = retired s"
  "stream (snd (snd (bindStream False now s))) = stream s"
  "retired (snd (publicationCommit b isActive now s)) = retired s"
  "retired (closeBinding b s) = retired s" "stream (closeBinding b s) = stream s"
  "stream (snd (snapshotContextAndAbortPending s now)) = stream s"
  "retired (publicationFailed b s) = retired s" "stream (publicationFailed b s) = stream s"
  by (simp_all add: bindStream_def publicationCommit_def closeBinding_def publicationFailed_def
      snapshotContextAndAbortPending_def abortPendingCommandsLocked_def abortCommands_def
      abortPendingCommandsForStreamReplacement_def Let_def)

text \<open>A step at one session, for the steps that are not those of a session.\<close>

lemma evolvesAll_put:
  assumes "evolves (activating t p) (sessHeap r p) s"
    "retiring t \<noteq> Some p \<Longrightarrow> retired s = retired (sessHeap r p)"
    "rebinding r t \<noteq> Some p \<Longrightarrow> stream s = stream (sessHeap r p)"
  shows "evolvesAll t r (putSession p s r)"
  using assms by (simp add: evolvesAll_def)

lemma evolvesAll_reporter [simp]:
  "evolvesAll t r (r1\<lparr>registryReporter := x\<rparr>) = evolvesAll t r r1"
  by (simp add: evolvesAll_def)

text \<open>Registration: nothing, or the previous owner retires and a fresh session appears.\<close>

lemma registerIteration_shape:
  assumes "registerIteration r aid sid previous e1 e2 now = (out, r1)"
  shows "r1 = r \<or> sessNext r1 = Suc (sessNext r) \<and>
    operationGate (sessHeap r1 (sessNext r)) \<and> opNext (sessHeap r1 (sessNext r)) = 0 \<and>
    (\<forall>q < sessNext r. sessHeap r1 q =
      (if previous = Some q then snd (snapshotContextAndAbortPending ((sessHeap r q)\<lparr>retired := True\<rparr>) now)
       else sessHeap r q))"
proof -
  have gate: "operationGate (newDroneSession aid sid now x)" "opNext (newDroneSession aid sid now x) = 0" for x
    by (simp_all add: newDroneSession_def)
  have rest: "operationGate (restoreInto c s) = operationGate s" "opNext (restoreInto c s) = opNext s" for c s
    by (simp_all add: restoreInto_def)
  show ?thesis
    using assms gate rest
    by (auto simp: registerIteration_def Let_def publishSession_def retireSession_def stopLiveness_def
        updSession_def split: if_splits option.splits prod.splits)
qed

lemma good_register:
  assumes sys: "systemOk cd (r, ts)" and t: "RegisterTask t \<in> set ts"
    and run: "registerStep ob r t = Some (t', r')"
  shows "goodStep cd r (RegisterTask t) r' (RegisterTask t') []"
proof -
  note S = system_facts [OF sys t]
  note O = taskOkD [OF S(2)]
  show ?thesis
  proof (cases t)
    case (RegisterCalled requested meta)
    have "registerPrelude r requested meta (ob_random ob) = Inr (aid, sid) \<Longrightarrow> aid \<noteq> []" for aid sid
      by (auto simp: registerPrelude_def Let_def split: if_splits option.splits sum.splits)
    with run RegisterCalled show ?thesis
      by (auto intro!: good_still simp: taskOk_def split: sum.splits prod.splits)
  next
    case (RegisterReading aid sid)
    then show ?thesis using run O(2) by (auto intro!: good_still simp: taskOk_def)
  next
    case (RegisterReplacing aid sid previous)
    have aid: "aid \<noteq> []" using O(2) RegisterReplacing by auto
    obtain out r1 where it: "registerIteration r aid sid previous (ob_ctx ob) (ob_ctx2 ob) (ob_now ob) = (out, r1)"
      by fastforce
    have step: "relayRun r r1"
      using run_one [OF relayStep.Register [OF aid, of r sid previous "ob_ctx ob" "ob_ctx2 ob" "ob_now ob"]] it
      by simp
    have ev: "evolvesAll (RegisterTask t) r r1"
      using registerIteration_shape [OF it] evolves_bindings(4) [OF S(4)] RegisterReplacing
      by (auto simp: evolvesAll_def)
    have same: "q < sessNext r \<Longrightarrow> operationGate (sessHeap r1 q) = operationGate (sessHeap r q) \<and>
        opNext (sessHeap r1 q) = opNext (sessHeap r q)" for q
      using registerIteration_shape [OF it] by (auto split: if_splits)
    have fresh: "sessNext r \<le> q \<Longrightarrow> q < sessNext r1 \<Longrightarrow>
        operationGate (sessHeap r1 q) \<and> opNext (sessHeap r1 q) = 0" for q
      using registerIteration_shape [OF it] by (auto simp: less_Suc_eq)
    have "t' \<in> {RegisterReading aid sid} \<union> range RegisterReturned" "r' = r1"
      using run RegisterReplacing it by (auto split: registerOutcome.splits)
    then show ?thesis
      using good_relay [OF step ev same fresh, of "RegisterTask t'"] RegisterReplacing aid
      by (auto simp: taskOk_def)
  next
    case (RegisterReturned res)
    with run show ?thesis by simp
  qed
qed

lemma streamIdentity_Inr: "streamIdentity r meta = Inr (aid, sid) \<Longrightarrow> aid \<noteq> []"
  by (auto simp: streamIdentity_def Let_def split: option.splits list.splits if_splits)

lemma lookupStreamSession_Some:
  "lookupStreamSession r aid sid = Some p \<Longrightarrow> mget (grpcSessions r) aid = Some p"
  by (auto simp: lookupStreamSession_def simp del: map_of_eq_Some_iff split: option.splits if_splits)

lemma publicationCheck_Inr:
  "publicationCheck r aid p b = Inr isActive \<Longrightarrow> mget (grpcSessions r) aid = Some p"
  by (auto simp: publicationCheck_def Let_def simp del: map_of_eq_Some_iff split: if_splits)

lemma updateStream_shape:
  assumes "updateStream r aid sid p now = (res, r1)"
  shows "r1 = r \<or> r1 = putSession p (snd (snd (bindStream (registryReporter r = None) now (sessHeap r p)))) r"
  using assms by (auto simp: updateStream_def putSession_def split: if_splits prod.splits)

lemma deleteStream_shape:
  obtains "deleteStream r aid p b now = r"
  | s where "sessNext (deleteStream r aid p b now) = sessNext r"
      "\<And>q. sessHeap (deleteStream r aid p b now) q = (if q = p then s else sessHeap r q)"
      "s = closeBinding b (sessHeap r p) \<or>
       s = snd (snapshotContextAndAbortPending ((closeBinding b (sessHeap r p))\<lparr>retired := True\<rparr>) now)"
proof (cases "mget (grpcSessions r) aid = Some p")
  case False
  with that(1) show thesis by (simp add: deleteStream_def)
next
  case True
  show thesis
  proof (rule that(2))
    show "sessNext (deleteStream r aid p b now) = sessNext r"
      using True by (auto simp: deleteStream_def Let_def updSession_def retireSession_def stopLiveness_def
          split: prod.split)
    show "sessHeap (deleteStream r aid p b now) q = (if q = p then (sessHeap (deleteStream r aid p b now) p)
        else sessHeap r q)" for q
      using True by (auto simp: deleteStream_def Let_def updSession_def retireSession_def stopLiveness_def
          split: prod.split)
    show "sessHeap (deleteStream r aid p b now) p = closeBinding b (sessHeap r p) \<or>
        sessHeap (deleteStream r aid p b now) p =
          snd (snapshotContextAndAbortPending ((closeBinding b (sessHeap r p))\<lparr>retired := True\<rparr>) now)"
      using True by (auto simp: deleteStream_def Let_def updSession_def retireSession_def stopLiveness_def
          split: prod.split)
  qed
qed

lemma evolves_delete:
  assumes "wf_session s"
  shows "evolves q s (snd (snapshotContextAndAbortPending ((closeBinding b s)\<lparr>retired := True\<rparr>) now))"
proof -
  have "evolves q (closeBinding b s) (snd (snapshotContextAndAbortPending ((closeBinding b s)\<lparr>retired := True\<rparr>) now))"
    using assms by (intro evolves_bindings(4)) (simp add: closeBinding_def Let_def)
  then show ?thesis by (simp add: closeBinding_def Let_def split: if_splits)
qed

lemma good_delete:
  assumes sys: "systemOk cd (r, ts)" and t: "t \<in> set ts" "retiring t = Some p" "gateOf t = None" "ownsOp t = None"
    and aid: "aid \<noteq> []" and p: "p < sessNext r"
    and ok: "\<And>r1. taskOk cd r1 t'" "gateOf t' = None" "reservedBy t' = []"
  shows "goodStep cd r t (deleteStream r aid p b now) t' []"
proof (rule deleteStream_shape [of r aid p b now])
  assume "deleteStream r aid p b now = r"
  then show ?thesis using ok t by (auto intro!: good_still)
next
  note S = system_facts [OF sys t(1)]
  fix s assume s: "sessNext (deleteStream r aid p b now) = sessNext r"
    "\<And>q. sessHeap (deleteStream r aid p b now) q = (if q = p then s else sessHeap r q)"
    "s = closeBinding b (sessHeap r p) \<or>
     s = snd (snapshotContextAndAbortPending ((closeBinding b (sessHeap r p))\<lparr>retired := True\<rparr>) now)"
  have run: "relayRun r (deleteStream r aid p b now)" by (rule run_one [OF relayStep.Close [OF aid]])
  have same: "operationGate s = operationGate (sessHeap r p)" "opNext s = opNext (sessHeap r p)"
    "stream s = stream (sessHeap r p)"
    using s(3) by (elim disjE; simp)+
  have "evolves q (sessHeap r p) s" for q
    using s(3) evolves_bindings(3) [OF S(4) [OF p]] evolves_delete [OF S(4) [OF p]] by auto
  then have "evolvesAll t r (deleteStream r aid p b now)"
    using s(1,2) same(3) t(2) by (auto simp: evolvesAll_def)
  then show ?thesis
    using good_relay [OF run] s(1,2) same t ok by simp
qed

text \<open>A message read by the receive loop.\<close>

lemma good_receive:
  assumes sys: "systemOk cd (r, ts)" and t: "StreamTask (StreamLoop aid p b) \<in> set ts"
    and run: "receiveStep cd ob r aid p b msg = (t', r')"
  shows "goodStep cd r (StreamTask (StreamLoop aid p b)) r' (StreamTask t') []"
proof -
  note S = system_facts [OF sys t]
  have p: "p < sessNext r" "aid \<noteq> []" using taskOkD(1,2) [OF S(2)] by auto
  show ?thesis
  proof (cases msg)
    case (AckMessage ack)
    with run p show ?thesis
      by (auto intro!: good_put S(1) sessionStep.opAck evolves_finishes(3) S(4) simp: receiveStep_def taskOk_def)
  next
    case (AircraftMessage res)
    with run p show ?thesis
      by (auto intro!: good_put S(1) sessionStep.acResult evolves_plain simp: receiveStep_def taskOk_def)
  next
    case (MissionMessage res)
    with run p show ?thesis
      by (auto intro!: good_put S(1) sessionStep.mdResult evolves_plain simp: receiveStep_def taskOk_def)
  next
    case (FrameMessage frame)
    obtain ack env r1 where f: "processFrame (cd_uuid cd) r aid p frame (ob_raw ob) (ob_routes ob) (ob_now ob) =
        (ack, env, r1)" by (metis prod_cases3)
    then have "r1 = r \<or> r1 = putSession p (touchHeartbeat (ob_now ob) (sessHeap r p)) r"
      by (auto simp: processFrame_def Let_def putSession_def updSession_def split: frameVerdict.splits)
    moreover have "t' = StreamAcking aid p b ack" "r' = r1"
      using run FrameMessage f by (simp_all add: receiveStep_def)
    ultimately show ?thesis
      using p by (auto intro!: good_put good_still S(1) sessionStep.touched evolves_plain simp: taskOk_def)
  next
    case OtherMessage
    with run p show ?thesis by (auto intro!: good_still simp: receiveStep_def taskOk_def)
  qed
qed

text \<open>The sections of a publication: the candidate binding, the Registry call, the commit.\<close>

lemma good_unpublished:
  assumes p: "p < sessNext r" and r1: "r1 = r \<or> (\<exists>rpt rpt0. r1 = r\<lparr>registryReporter := Some rpt\<rparr> \<and> registryReporter r = Some rpt0)"
    and t: "gateOf t = None" "ownsOp t = None" "gateOf t' = None" "reservedBy t' = []"
    and ok: "taskOk cd (putSession p (publicationFailed b (sessHeap r p)) r1) t'"
  shows "goodStep cd r t (putSession p (publicationFailed b (sessHeap r p)) r1) t' []"
proof (rule good_relay)
  have "relayRun r r1" using r1 run_one [OF relayStep.Reported] relayRun.here by auto
  moreover have "p < sessNext r1" "sessHeap r1 = sessHeap r" using p r1 by auto
  ultimately show "relayRun r (putSession p (publicationFailed b (sessHeap r p)) r1)"
    using relayRun.later [OF _ relayStep.PublishFailed [of p r1 b]]
    by (simp add: putSession_def updSession_def)
qed (use r1 t ok in \<open>auto simp: evolvesAll_def evolves_plain\<close>)

lemma good_reported:
  assumes "registryReporter r = Some rpt" "gateOf t = None" "ownsOp t = None" "gateOf t' = None" "reservedBy t' = []"
    "taskOk cd (r\<lparr>registryReporter := Some rpt1\<rparr>) t'"
  shows "goodStep cd r t (r\<lparr>registryReporter := Some rpt1\<rparr>) t' []"
  using assms by (intro good_relay run_one [OF relayStep.Reported [OF assms(1)]]) (auto simp: evolvesAll_def)

lemma good_streamFound:
  assumes sys: "systemOk cd (r, ts)" and t: "StreamTask (StreamFound aid sid p) \<in> set ts"
    and run: "streamStep cd ob r (StreamFound aid sid p) = Some (t', r')"
  shows "goodStep cd r (StreamTask (StreamFound aid sid p)) r' (StreamTask t') []"
proof -
  note S = system_facts [OF sys t]
  have p: "p < sessNext r" "aid \<noteq> []" using taskOkD(1,2) [OF S(2)] by auto
  let ?s = "snd (snd (bindStream (registryReporter r = None) (ob_now ob) (sessHeap r p)))"
  obtain res r1 where up: "updateStream r aid sid p (ob_now ob) = (res, r1)" by fastforce
  have step: "relayRun r r1" using run_one [OF relayStep.Bind [of r aid sid p "ob_now ob"]] up by simp
  have ev: "evolvesAll (StreamTask (StreamFound aid sid p)) r (putSession p ?s r)"
    using evolves_bindings(1) [OF S(4) [OF p(1)]] by (intro evolvesAll_put) (auto split: if_splits)
  have ok: "taskOk cd r1 (StreamTask t')"
    using run up p updateStream_shape [OF up]
    by (auto simp: taskOk_def split: sum.splits prod.splits if_splits)
  have t': "gateOf (StreamTask t') = None" "reservedBy (StreamTask t') = []" "r' = r1"
    using run up by (auto split: sum.splits prod.splits if_splits)
  from updateStream_shape [OF up] show ?thesis
  proof
    assume "r1 = r"
    with ok t' show ?thesis by (auto intro!: good_still)
  next
    assume "r1 = putSession p ?s r"
    with good_relay [OF step] ev ok t' show ?thesis by simp
  qed
qed

lemma good_streamAnnouncing:
  assumes sys: "systemOk cd (r, ts)" and t: "StreamTask (StreamAnnouncing aid p b isActive) \<in> set ts"
    and run: "streamStep cd ob r (StreamAnnouncing aid p b isActive) = Some (t', r')"
  shows "goodStep cd r (StreamTask (StreamAnnouncing aid p b isActive)) r' (StreamTask t') []"
proof -
  note O = taskOkD [OF system_facts(2) [OF sys t]]
  have p: "p < sessNext r" "aid \<noteq> []" "\<not> retired (sessHeap r p)" using O(2,3) by auto
  obtain rpt where rpt: "registryReporter r = Some rpt" using run by (auto split: option.splits)
  obtain res rpt1 where b: "registerAgentBegin rpt aid = (res, rpt1)" by fastforce
  show ?thesis
  proof (cases res)
    case (Inl e)
    with run rpt b p show ?thesis by (auto intro!: good_unpublished simp: taskOk_def)
  next
    case (Inr x)
    obtain g a where x: "x = (g, a)" by fastforce
    with Inr run rpt b p show ?thesis by (auto intro!: good_reported [OF rpt] simp: taskOk_def)
  qed
qed

lemma good_streamAnnounced:
  assumes sys: "systemOk cd (r, ts)" and t: "StreamTask (StreamAnnounced aid p b isActive g a) \<in> set ts"
    and run: "streamStep cd ob r (StreamAnnounced aid p b isActive g a) = Some (t', r')"
  shows "goodStep cd r (StreamTask (StreamAnnounced aid p b isActive g a)) r' (StreamTask t') []"
proof -
  note O = taskOkD [OF system_facts(2) [OF sys t]]
  have p: "p < sessNext r" "aid \<noteq> []" "\<not> retired (sessHeap r p)" using O(2,3) by auto
  obtain rpt where rpt: "registryReporter r = Some rpt" using run by (auto split: option.splits)
  obtain res rpt1 where b: "registerAgentEnd rpt aid g a (ob_registry ob) (ob_now ob) = (res, rpt1)" by fastforce
  show ?thesis
  proof (cases res)
    case None
    with run rpt b p show ?thesis by (auto intro!: good_reported [OF rpt] simp: taskOk_def)
  next
    case (Some e)
    with run rpt b p show ?thesis by (auto intro!: good_unpublished simp: taskOk_def)
  qed
qed

lemma good_streamCommitting:
  assumes sys: "systemOk cd (r, ts)" and t: "StreamTask (StreamCommitting aid p b isActive) \<in> set ts"
    and run: "streamStep cd ob r (StreamCommitting aid p b isActive) = Some (t', r')"
  shows "goodStep cd r (StreamTask (StreamCommitting aid p b isActive)) r' (StreamTask t') []"
proof -
  note S = system_facts [OF sys t]
  have p: "p < sessNext r" "aid \<noteq> []" using taskOkD(2,3) [OF S(2)] by auto
  obtain e s where c: "publicationCommit b isActive (ob_now ob) (sessHeap r p) = (e, s)" by fastforce
  then have s: "s = snd (publicationCommit b isActive (ob_now ob) (sessHeap r p))" by simp
  have step: "relayRun r (putSession p s r)"
    using run_one [OF relayStep.Publish [OF p(1), of b isActive "ob_now ob"]]
    by (simp add: putSession_def updSession_def s)
  have ev: "evolvesAll (StreamTask (StreamCommitting aid p b isActive)) r (putSession p s r)"
    using evolves_bindings(2) [OF S(4) [OF p(1)]] by (intro evolvesAll_put) (auto simp: s)
  have same: "operationGate s = operationGate (sessHeap r p)" "opNext s = opNext (sessHeap r p)"
    by (simp_all add: s)
  have r': "r' = putSession p s r" and t': "t' = StreamLoop aid p b \<or> (\<exists>err. t' = StreamUnpublished aid p b err)"
    using run c by (auto split: option.splits)
  show ?thesis
    unfolding r' using same t' p by (intro good_relay [OF step ev]) (auto simp: taskOk_def)
qed

lemma good_streamLoop:
  assumes sys: "systemOk cd (r, ts)" and t: "StreamTask (StreamLoop aid p b) \<in> set ts"
    and run: "streamStep cd ob r (StreamLoop aid p b) = Some (t', r')"
  shows "goodStep cd r (StreamTask (StreamLoop aid p b)) r' (StreamTask t') []"
proof (cases "\<exists>msg. ob_ctx ob = None \<and> ob_recv ob = RecvMessage msg")
  case True
  with run good_receive [OF sys t] show ?thesis by auto
next
  case False
  with run taskOkD(1,2) [OF system_facts(2) [OF sys t]] show ?thesis
    by (auto intro!: good_still simp: taskOk_def split: option.splits received.splits)
qed

lemma good_streamAcking:
  assumes sys: "systemOk cd (r, ts)" and t: "StreamTask (StreamAcking aid p b ack) \<in> set ts"
    and run: "streamStep cd ob r (StreamAcking aid p b ack) = Some (t', r')"
  shows "goodStep cd r (StreamTask (StreamAcking aid p b ack)) r' (StreamTask t') []"
proof -
  note S = system_facts [OF sys t]
  have p: "p < sessNext r" "aid \<noteq> []" using taskOkD(1,2) [OF S(2)] by auto
  have "goodStep cd r (StreamTask (StreamAcking aid p b ack))
      (putSession p (sendOnStream b (TelemetryAckMsg ack) (sessHeap r p)) r) (StreamTask t') []"
    using run p by (intro good_put [OF S(1) p(1) sessionStep.ackWritten])
      (auto simp: taskOk_def sendOnStream_def evolves_plain split: option.splits)
  with run show ?thesis by auto
qed

lemma good_stream:
  assumes sys: "systemOk cd (r, ts)" and t: "StreamTask t \<in> set ts"
    and run: "streamStep cd ob r t = Some (t', r')"
  shows "goodStep cd r (StreamTask t) r' (StreamTask t') []"
proof -
  note S = system_facts [OF sys t]
  note O = taskOkD [OF S(2)]
  show ?thesis
  proof (cases t)
    case (StreamCalled meta)
    then show ?thesis
      using run streamIdentity_Inr by (auto intro!: good_still simp: taskOk_def split: sum.splits prod.splits)
  next
    case (StreamIdentified aid sid)
    then show ?thesis
      using run O(2) current_session(1) [OF S(1) lookupStreamSession_Some]
      by (auto intro!: good_still simp: taskOk_def split: option.splits)
  next
    case (StreamChecking aid p b)
    with run O(1,2) current_session(2) [OF S(1) publicationCheck_Inr] show ?thesis
      by (auto intro!: good_still simp: taskOk_def split: sum.splits)
  next
    case (StreamUnpublished aid p b e)
    then show ?thesis
      using run O(1,2) good_delete [OF sys t, of p aid "StreamTask (StreamReturned (Some (publicationError e)))"]
      by (auto simp: taskOk_def)
  next
    case (StreamClosing aid p b err)
    then show ?thesis
      using run O(1,2) good_delete [OF sys t, of p aid "StreamTask (StreamReturned err)"]
      by (auto simp: taskOk_def)
  qed (use run sys t good_streamFound good_streamAnnouncing good_streamAnnounced good_streamCommitting
      good_streamLoop good_streamAcking in auto)
qed

section \<open>Every reachable system is in order\<close>

lemma good_task:
  assumes sys: "systemOk cd (r, ts)" and t: "t \<in> set ts" and run: "taskStep cd ob r t = Some (t', r', new)"
  shows "goodStep cd r t r' t' new"
  using assms by (cases t) (auto simp: quiet_def spawning_def intro: good_setContext good_clearContext
      good_aircraft good_aircraftSend good_deploy good_missionSend good_missionWaiter good_reservation
      good_register good_stream)

lemma arriving_ok:
  assumes "arriving t"
  shows "taskOk cd r t" "gateOf t = None" "reservedBy t = []"
  using assms by (cases t rule: arriving.cases; simp add: taskOk_def)+

lemma systemOk_arrive:
  assumes "systemOk cd (r, ts)" "arriving t"
  shows "systemOk cd (r, ts @ [t])"
  using assms arriving_ok [OF assms(2)]
  by (auto simp: systemOk_def gatesOk_def holders_def owned_def)

lemma sysReach_ok: "sysReach cd c \<Longrightarrow> systemOk cd c"
proof (induction rule: sysReach.induct)
  case (Boot reporter authn authz mappings rid routes)
  show ?case
    by (simp add: systemOk_def gatesOk_def owned_def newRelayState_def relayReach.start [unfolded newRelayState_def])
next
  case (Next c c')
  from Next.hyps(2) show ?case
  proof cases
    case (Arrive t r ts)
    with Next.IH show ?thesis by (simp add: systemOk_arrive)
  next
    case (Run i ts r ob t r' new)
    with Next.IH have sys: "systemOk cd (r, ts)" by simp
    have "goodStep cd r (ts ! i) r' t new" by (rule good_task [OF sys nth_mem Run(5)]) (rule Run(3))
    with goodStep_system [OF sys Run(3,4)] Run(2) show ?thesis by simp
  qed
qed

end
