(* ===== verification/MissionProps.thy ===== *)
theory MissionProps
  imports CommandProps
begin

text \<open>
  Properties of mission deployments: the admission window, superseded reservations, what an accepted
  command satisfies and what an applied result proves.
\<close>

section \<open>Missions\<close>




text \<open>A reservation that another one has superseded under the same command ID never becomes a
  delivery: its activation is refused and leaves every deployment as it was.\<close>

theorem superseded_reservation_refused:
  assumes "mget (missionDeployments s) (dm_CommandId c) = Some r" "\<not> md_completed (mdHeap s r)"
    and "mok (missionDeployments s)" "i \<noteq> r"
    and "beginMissionDeployment s c (Some fp) (Some i) e1 e2 now = (res, s')"
  shows "(\<exists>e. res = Inl e) \<and> mdHeap s' = mdHeap s \<and> bindings s' = bindings s"
proof (cases "prepareCommandIDAdmissionLocked s (dm_CommandId c) retainedMissionDeployment now")
  case (Pair e s1)
  then have same: "mdHeap s1 = mdHeap s" "bindings s1 = bindings s"
    "mget (missionDeployments s1) (dm_CommandId c) = Some r"
    using assms(1-3) by (auto simp: prepare_defs Let_def mget_expireCommands expired_def
        simp del: map_of_eq_Some_iff)
  then show ?thesis
    using assms(4,5) Pair by (auto simp: beginMissionDeployment_def Let_def split: option.splits if_splits)
qed

lemma superseded_reservation_refused_witness:
  "\<exists>e s'. beginMissionDeployment exampleDelivered exampleMission (Some []) (Some 5) None None 9 = (Inl e, s')"
proof -
  obtain res s' where b: "beginMissionDeployment exampleDelivered exampleMission (Some []) (Some 5) None None 9 = (res, s')"
    by (cases "beginMissionDeployment exampleDelivered exampleMission (Some []) (Some 5) None None 9")
  have "mget (missionDeployments exampleDelivered) (dm_CommandId exampleMission) = Some 0"
    "\<not> md_completed (mdHeap exampleDelivered 0)" "mok (missionDeployments exampleDelivered)" "(5::nat) \<noteq> 0"
    by simp_all
  from superseded_reservation_refused [OF this b] b show ?thesis by auto
qed

text \<open>C25: The deployment checks accept a command only if every check holds: canonical IDs, positive
  versions, a validity interval, 1 to 200 items in sequence, each a supported navigation item with
  coordinates in range and an altitude ArduPilot stores exactly, and a binding digest equal to the
  digest of the plan.\<close>

theorem accepted_mission:
  assumes "validateDeployMissionCommand digest (Some c) = None"
  shows "\<exists>b plan. dm_Binding c = Some b \<and> dm_Plan c = Some plan \<and>
    dm_CommandId c \<noteq> [] \<and> trimSpace (dm_CommandId c) = dm_CommandId c \<and>
    (\<forall>v \<in> {mb_MissionId b, mb_DeploymentId b, mb_OperatorId b, mb_AircraftId b, mb_FlightId b, mb_IntentId b}.
       v \<noteq> [] \<and> trimSpace v = v) \<and>
    mb_MissionVersion b \<noteq> 0 \<and> mb_IntentVersion b \<noteq> 0 \<and>
    0 < dm_IssuedAtUnixMs c \<and> dm_IssuedAtUnixMs c < dm_ExpiresAtUnixMs c \<and>
    mp_SchemaVersion plan = 1 \<and> 1 \<le> length (mp_Items plan) \<and> length (mp_Items plan) \<le> 200 \<and>
    (\<forall>j < length (mp_Items plan). \<exists>it. mp_Items plan ! j = Some it \<and> acceptableItem j it) \<and>
    digest plan = Inr (mb_MissionDigest b) \<and> length (mb_MissionDigest b) = 64"
proof -
  obtain b plan where bp: "dm_Binding c = Some b" "dm_Plan c = Some plan"
    using assms by (auto simp: validateDeployMissionCommand_def split: option.splits)
  have items: "validateMissionItems 0 (mp_Items plan) = None" "digest plan = Inr (mb_MissionDigest b)"
    using assms by (auto simp: validateDeployMissionCommand_def bp digestMessage_def
        split: if_splits option.splits sum.splits)
  have rest: "dm_CommandId c \<noteq> []" "dm_CommandId c = trimSpace (dm_CommandId c)"
    "list_all canonicalId (bindingValues b)" "mb_MissionVersion b \<noteq> 0" "mb_IntentVersion b \<noteq> 0"
    "length (mb_MissionDigest b) = 64" "0 < dm_IssuedAtUnixMs c" "dm_IssuedAtUnixMs c < dm_ExpiresAtUnixMs c"
    "unat (mp_SchemaVersion plan) = 1" "mp_Items plan \<noteq> []" "length (mp_Items plan) \<le> 200"
    using assms by (auto simp: validateDeployMissionCommand_def bp digestMessage_def
        missionPlanSchemaVersion_def maxMissionItems_def split: if_splits)
  have "unat (mp_SchemaVersion plan) = unat (1 :: 32 word)" using rest(9) by simp
  then have "mp_SchemaVersion plan = 1" by (simp only: word_unat_eq_iff)
  moreover have "\<forall>j < length (mp_Items plan). \<exists>it. mp_Items plan ! j = Some it \<and> acceptableItem j it"
    using items(1) by (simp add: validateMissionItems_None validateMissionItem_ok)
  ultimately show ?thesis
    using bp items(2) rest by (intro exI [of _ b] exI [of _ plan])
      (auto simp: bindingValues_def canonicalId_def Suc_le_eq)
qed

definition examplePlan :: missionPlan where
  "examplePlan = \<lparr>mp_SchemaVersion = 1, mp_Items = [Some \<lparr>mi_Sequence = 0,
     mi_Current = False, mi_Autocontinue = True, mi_Param1 = 0, mi_Param2 = 0, mi_Param3 = 0, mi_Param4 = 0,
     mi_Frame = 0, mi_Command = 16, mi_LatitudeE7 = 418781000, mi_LongitudeE7 = 2, mi_AltitudeM = 0, mi_unknown = []\<rparr>], mp_unknown = []\<rparr>"

lemma zero_altitude: "f32_of_bits 0 = Fin False 0 (- 149)" "altitudeCM 0 = Fin False 0 (- 149)"
  "altitudeReadback 0 = Fin False 0 (- 149)"
proof -
  show z: "f32_of_bits 0 = Fin False 0 (- 149)" by (simp add: f32_of_bits_def Let_def)
  show c: "altitudeCM 0 = Fin False 0 (- 149)"
    by (simp add: altitudeCM_def z f32_100_def roundF32_def Let_def split: prod.split)
  show "altitudeReadback 0 = Fin False 0 (- 149)"
    by (simp add: altitudeReadback_def c f32_001_def f32_of_int_def roundF32_def Let_def split: prod.split)
qed

lemma example_items: "validateMissionItems 0 (mp_Items examplePlan) = None"
proof -
  have "acceptableItem 0 (the (hd (mp_Items examplePlan)))"
    by (simp add: examplePlan_def acceptableItem_def frameGlobal_def cmdNavWaypoint_def zero_altitude)
  then have "validateMissionItem 0 (hd (mp_Items examplePlan)) = None"
    by (simp add: validateMissionItem_ok examplePlan_def)
  then show ?thesis by (simp add: examplePlan_def)
qed

lemma accepted_mission_witness:
  "\<exists>b. dm_Binding (exampleMission\<lparr>dm_Plan := Some examplePlan\<rparr>) = Some b \<and> mb_MissionVersion b \<noteq> 0"
proof -
  have hex: "toLower (replicate n CHR ''a'') = replicate n CHR ''a''" "list_all isHexChar (replicate n CHR ''a'')" for n
    by (simp_all add: toLower_def toLowerChar_def isUpperASCII_def less_eq_char_def list_all_iff isHexChar_def)
  have tr: "trimSpace (replicate 64 CHR ''a'') = replicate 64 CHR ''a''"
    by (rule trimSpace_visible) (simp_all add: visible_def)
  have "validateDeployMissionCommand (\<lambda>p. Inr (replicate 64 CHR ''a''))
      (Some (exampleMission\<lparr>dm_Plan := Some examplePlan\<rparr>)) = None"
    using example_items
    by (simp add: validateDeployMissionCommand_def exampleMission_def exampleBinding_def bindingValues_def
        canonicalId_def trimSpace_visible visible_def hexDecodes_def hex tr missionPlanSchemaVersion_def
        maxMissionItems_def) (simp add: examplePlan_def)
  from accepted_mission [OF this] show ?thesis by blast
qed

text \<open>C23: A deployment that ends through the Agent's result ends as applied only on proof: the result
  is for its command and binding, its onboard digest is the binding's digest, and a newly applied
  mission reports exactly the plan's number of items.  Any other success claim ends it with an error.\<close>

theorem applied_result_is_proved:
  assumes "mget (missionDeployments s) (mr_CommandId x) = Some r" "\<not> md_completed (mdHeap s r)"
    and "md_resultAdmissionOpen (mdHeap s r)" "md_err (mdHeap s r) = None"
    and "mr_Status x = MissionApplied \<or> mr_Status x = MissionAlreadyApplied"
    and "s' = handleMissionDeploymentResult s x now"
  shows "md_completed (mdHeap s' r) \<and>
    (md_err (mdHeap s' r) = None \<longleftrightarrow> (\<exists>c b. md_command (mdHeap s r) = Some c \<and> dm_Binding c = Some b \<and>
        mr_CommandId x = dm_CommandId c \<and> mr_Binding x = Some b \<and> mr_unknown x = [] \<and> mb_unknown b = [] \<and>
        0 < mr_CompletedAtUnixMs x \<and> mr_OnboardMissionDigest x = mb_MissionDigest b \<and>
        unat (mr_UploadedItemCount x) =
          (if mr_Status x = MissionApplied then length (planItems c) else 0)))"
proof -
  have v: "validateMissionDeploymentResult (md_command (mdHeap s r)) x = None \<longleftrightarrow>
      (\<exists>c b. md_command (mdHeap s r) = Some c \<and> dm_Binding c = Some b \<and>
        mr_CommandId x = dm_CommandId c \<and> mr_Binding x = Some b \<and> mr_unknown x = [] \<and> mb_unknown b = [] \<and>
        0 < mr_CompletedAtUnixMs x \<and> mr_OnboardMissionDigest x = mb_MissionDigest b \<and>
        unat (mr_UploadedItemCount x) =
          (if mr_Status x = MissionApplied then length (planItems c) else 0))"
    using assms(5) by (auto simp: validateMissionDeploymentResult_def bindingDigest_def unat_eq_0
        split: option.split)
  show ?thesis
    unfolding v [symmetric] using assms(1-4,6)
    by (auto simp: handleMissionDeploymentResult_def Let_def cancelDelivery_def mdFinish_def split: option.split)
qed

lemma applied_result_is_proved_witness:
  "md_err (mdHeap (handleMissionDeploymentResult exampleDelivered
     \<lparr>mr_CommandId = ''m1'', mr_Binding = Some exampleBinding, mr_Status = MissionAlreadyApplied,
      mr_Message = [], mr_CompletedAtUnixMs = 9, mr_OnboardMissionDigest = ''wrong'',
      mr_UploadedItemCount = 0, mr_unknown = []\<rparr> 9) 0) \<noteq> None"
proof -
  let ?x = "\<lparr>mr_CommandId = ''m1'', mr_Binding = Some exampleBinding, mr_Status = MissionAlreadyApplied,
      mr_Message = [], mr_CompletedAtUnixMs = 9, mr_OnboardMissionDigest = ''wrong'',
      mr_UploadedItemCount = 0, mr_unknown = []\<rparr>"
  have h: "mget (missionDeployments exampleDelivered) (mr_CommandId ?x) = Some 0"
    "\<not> md_completed (mdHeap exampleDelivered 0)" "md_resultAdmissionOpen (mdHeap exampleDelivered 0)"
    "md_err (mdHeap exampleDelivered 0) = None"
    "mr_Status ?x = MissionApplied \<or> mr_Status ?x = MissionAlreadyApplied"
    by (simp_all add: exampleDelivered_def installMission_def zeroMd_def)
  have "md_command (mdHeap exampleDelivered 0) = Some exampleMission"
    by (simp add: exampleDelivered_def installMission_def zeroMd_def)
  with applied_result_is_proved [OF h refl, of 9] show ?thesis
    by (simp add: exampleBinding_def numeral_eq_Suc)
qed

end
