(* ===== verification/TaskProps.thy ===== *)
theory TaskProps
  imports AgentSteps MissionProps
begin

text \<open>
  Properties of the Relay with its handlers and goroutines, over every interleaving of their critical
  sections, and a scheduler that runs a script of moves, with which the witnesses reach their states.
\<close>

section \<open>Running a script\<close>

datatype move = Come task | Go nat observation

fun sysNext :: "codec \<Rightarrow> Relay \<times> task list \<Rightarrow> move \<Rightarrow> (Relay \<times> task list) option" where
  "sysNext cd (r, ts) (Come t) = (if arriving t then Some (r, ts @ [t]) else None)"
| "sysNext cd (r, ts) (Go i ob) =
     (if i < length ts \<and> \<not> list_ex (lockedOut r (ts ! i)) (others i ts)
      then map_option (\<lambda>(t, r', new). (r', ts[i := t] @ new)) (taskStep cd ob r (ts ! i)) else None)"

fun runSys :: "codec \<Rightarrow> Relay \<times> task list \<Rightarrow> move list \<Rightarrow> (Relay \<times> task list) option" where
  "runSys cd c [] = Some c"
| "runSys cd c (m # ms) = (case sysNext cd c m of None \<Rightarrow> None | Some c' \<Rightarrow> runSys cd c' ms)"

lemma sysNext_step: "sysNext cd c m = Some c' \<Longrightarrow> sysStep cd c c'"
  by (cases "(cd, c, m)" rule: sysNext.cases) (auto split: if_splits intro: sysStep.intros)

lemma runSys_reach: "runSys cd c ms = Some c' \<Longrightarrow> sysReach cd c \<Longrightarrow> sysReach cd c'"
proof (induction ms arbitrary: c)
  case (Cons m ms)
  then obtain c1 where c1: "sysNext cd c m = Some c1" "runSys cd c1 ms = Some c'"
    by (cases "sysNext cd c m") simp_all
  show ?case by (rule Cons.IH [OF c1(2) sysReach.Next [OF Cons.prems(2) sysNext_step [OF c1(1)]]])
qed simp

lemma empty_reach: "sysReach cd (emptyRelay, [])"
  unfolding emptyRelay_def by (rule sysReach.Boot)

text \<open>A script from the empty example Relay leads to a reachable state with the property \<open>P\<close>.\<close>

definition leads :: "codec \<Rightarrow> move list \<Rightarrow> (Relay \<Rightarrow> task list \<Rightarrow> bool) \<Rightarrow> bool" where
  "leads cd ms P = (case runSys cd (emptyRelay, []) ms of None \<Rightarrow> False | Some (r, ts) \<Rightarrow> P r ts)"

lemma leadsE:
  assumes "leads cd ms P"
  obtains r ts where "sysReach cd (r, ts)" "P r ts"
  using assms runSys_reach [OF _ empty_reach, of cd ms] by (auto simp: leads_def split: option.splits)

section \<open>An example\<close>

text \<open>Agent \<open>a1\<close> registers and opens its stream; the operator sets its operation context; the Agent
  acknowledges; the operator deploys a mission.\<close>

definition glance :: observation where
  "glance = \<lparr>ob_now = 5000, ob_ctx = None, ob_ctx2 = None, ob_lock = None, ob_send = None,
     ob_registry = None, ob_recv = RecvEOF, ob_raw = None, ob_routes = [], ob_random = Inr ''1''\<rparr>"

definition exampleSet :: setContextCommand where
  "exampleSet = \<lparr>sc_CommandId = ''c1'', sc_Context = Some \<lparr>AircraftId = ''ac'', FlightId = ''f1'',
     IntentId = ''i1'', IntentVersion = 3, ctx_unknown = []\<rparr>, sc_unknown = []\<rparr>"

definition exampleAck :: contextAck where
  "exampleAck = \<lparr>ack_CommandId = ''c1'', ack_Status = AckApplied, ack_ActiveContext = sc_Context exampleSet\<rparr>"

definition exampleCodec :: codec where
  "exampleCodec = \<lparr>dg_op = (\<lambda>m. Some (if m = SetOperationContextMsg exampleSet then ''set'' else ''other'')),
     dg_ac = (\<lambda>c. Some ''ac''), dg_md = (\<lambda>c. Some ''md''),
     dg_plan = (\<lambda>p. Inr (replicate 64 CHR ''a'')), cd_uuid = (\<lambda>s. None)\<rparr>"

definition operator :: "peerInfo option" where
  "operator = Some \<lparr>peer_TLS = True, peer_VerifiedChains = 1,
     peer_Certificates = [Some \<lparr>cert_CommonName = ''api'', cert_DNSNames = [], cert_URIs = []\<rparr>]\<rparr>"

definition bootScript :: "move list" where
  "bootScript = [Come (RegisterTask (RegisterCalled ''a1'' None)), Go 0 glance, Go 0 glance, Go 0 glance,
    Come (StreamTask (StreamCalled (Some [(''aero-arc-agent-id'', [''a1'']), (''aero-arc-session-id'', [''sess-31''])]))),
    Go 1 glance, Go 1 glance, Go 1 glance]"

text \<open>The set command, through its admission, its binding and its write.\<close>

definition setScript :: "move list" where
  "setScript = bootScript @ [Come (SetContextTask (SetCalled operator ''a1'' (Some exampleSet))),
     Go 2 glance, Go 2 glance, Go 2 glance, Go 2 glance]"

definition ackScript :: "move list" where
  "ackScript = setScript @ [Go 2 glance, Go 2 glance,
     Go 1 (glance\<lparr>ob_recv := RecvMessage (AckMessage exampleAck)\<rparr>), Go 2 glance, Go 2 glance]"

text \<open>The deployment, whose handler has validated it and chosen the session.\<close>

definition checkedMission :: deployMissionCommand where
  "checkedMission = exampleMission\<lparr>dm_Plan := Some examplePlan\<rparr>"

definition deployChosen :: "(Relay \<times> task list) option" where
  "deployChosen = map_option (\<lambda>(r, ts). (r, ts @ [DeployTask (DeployChosen ''a1'' checkedMission 0)]))
     (runSys exampleCodec (emptyRelay, []) (ackScript @ [Go 2 glance]))"

section \<open>The handlers implement the Relay's steps\<close>

text \<open>C5: The handlers, run to completion in any interleaving, do only what the Relay's step relation
  allows: every section is a run of the Relay, so every state the system reaches satisfies the Relay's
  invariant, and the outcomes that were final stay final.\<close>

theorem handlers_refine_relay:
  assumes "sysReach cd (r, ts)" "sysStep cd (r, ts) (r', ts')"
  shows "relayRun r r' \<and> relayReach r' \<and> relayOk r' \<and> relaySettles r r'"
proof -
  have sys: "systemOk cd (r, ts)" using sysReach_ok [OF assms(1)] .
  then have reach: "relayReach r" by (simp add: systemOk_def)
  from assms(2) have run: "relayRun r r'"
  proof cases
    case (Run i ob t new)
    with good_task [OF sys nth_mem Run(4)] show ?thesis by (simp add: goodStep_def)
  qed (simp add: relayRun.here)
  with reach show ?thesis using relayRun_reach relayReach_ok relayRun_settles by blast
qed

lemma gate_unique:
  assumes "systemOk cd (r, ts)" "j < length ts" "k < length ts" "gateOf (ts ! j) = Some p" "gateOf (ts ! k) = Some p"
  shows "j = k"
proof -
  have "p < sessNext r" using holder_gate(1) [OF assms(1) nth_mem [OF assms(2)] assms(4)] .
  then have "holders p ts \<le> 1" using assms(1) by (simp add: systemOk_def gatesOk_def)
  then show ?thesis using holders_unique assms(2-5) by blast
qed

text \<open>C6: The operation gate is a mutual exclusion that is never leaked: in every interleaving the
  token of a session is out exactly while one handler or reservation worker holds it, and never two
  hold it at once.\<close>

theorem gate_held_by_one_task:
  assumes "sysReach cd (r, ts)" "p < sessNext r"
  shows "(operationGate (sessHeap r p) \<longleftrightarrow> (\<forall>t \<in> set ts. gateOf t \<noteq> Some p)) \<and>
    (\<forall>j < length ts. \<forall>k < length ts. gateOf (ts ! j) = Some p \<and> gateOf (ts ! k) = Some p \<longrightarrow> j = k)"
proof -
  have h: "holders p ts = (if operationGate (sessHeap r p) then 0 else 1)"
    using sysReach_ok [OF assms(1)] assms(2) by (simp add: systemOk_def gatesOk_def)
  have "operationGate (sessHeap r p) \<longleftrightarrow> holders p ts = 0" using h by simp
  then show ?thesis
    using h holders_unique [of p ts] by (auto simp: holders_def filter_empty_conv)
qed

text \<open>C7: At most one operation-context command of a session is in flight, and it is never orphaned:
  the handler that delivers it holds the session's gate, and the command is the one retained under its
  ID.\<close>

theorem context_command_in_flight:
  assumes "sysReach cd (r, ts)" "p < sessNext r" "i < opNext (sessHeap r p)"
    and "\<not> op_completed (opHeap (sessHeap r p) i)"
  shows "\<exists>t \<in> set ts. \<exists>k. ownsOp t = Some (p, i, k) \<and> gateOf t = Some p \<and>
    mget (operationCommands (sessHeap r p)) k = Some i \<and>
    (\<forall>j < opNext (sessHeap r p). \<not> op_completed (opHeap (sessHeap r p) j) \<longrightarrow> j = i)"
proof -
  note S = sysReach_ok [OF assms(1), unfolded systemOk_def, simplified]
  have own: "\<exists>l k. l < length ts \<and> ownsOp (ts ! l) = Some (p, j, k)"
    if "j < opNext (sessHeap r p)" "\<not> op_completed (opHeap (sessHeap r p) j)" for j
    using S assms(2) that unfolding owned_def by (metis in_set_conv_nth)
  from own [OF assms(3,4)] obtain l k where l: "l < length ts" "ownsOp (ts ! l) = Some (p, i, k)" by blast
  have "mget (operationCommands (sessHeap r p)) k = Some i"
    using S l assms(4) taskOkD(5) [of cd r "ts ! l" p i k] by auto
  moreover have "j = i" if j: "j < opNext (sessHeap r p)" "\<not> op_completed (opHeap (sessHeap r p) j)" for j
  proof -
    from own [OF j] obtain l' k' where l': "l' < length ts" "ownsOp (ts ! l') = Some (p, j, k')" by blast
    have "l' = l"
      using gate_unique [OF sysReach_ok [OF assms(1)] l'(1) l(1)] owns_gate l l' by blast
    with l l' show ?thesis by simp
  qed
  ultimately show ?thesis using l owns_gate by (metis nth_mem)
qed

section \<open>Replies\<close>

text \<open>C8: A context handler never reports a change that did not happen: the acknowledgement it is
  about to return exists, and if its status is an applied one, the Agent's active context is the one
  the command set, or no longer the flight it cleared; provided that no other message has the digest
  of the command.\<close>

theorem context_replies_truthful:
  assumes "sysReach cd (r, ts)" "t \<in> set ts" "replying t = Some (msg, ack)"
    and "\<And>m. dg_op cd m = dg_op cd msg \<Longrightarrow> m = msg"
  shows "\<exists>a. ack = Some a \<and> (ackApplied a \<longrightarrow> (case msg of
     SetOperationContextMsg c \<Rightarrow> ack_ActiveContext a = sc_Context c
   | ClearOperationContextMsg c \<Rightarrow> (case ack_ActiveContext a of None \<Rightarrow> True
       | Some x \<Rightarrow> \<not> cc_Authoritative c \<and> FlightId x \<noteq> cc_FlightId c)
   | _ \<Rightarrow> False))"
proof -
  have "proved cd msg ack"
    using taskOkD(12) [of cd r t msg ack] sysReach_ok [OF assms(1)] assms(2,3) by (simp add: systemOk_def)
  then obtain a where a: "ack = Some a" "ackApplied a \<Longrightarrow> fits msg (ack_ActiveContext a)"
    using assms(4) unfolding proved_def by metis
  then show ?thesis by (auto simp: fits_def)
qed

section \<open>Missions and context commands\<close>

lemma started_fencing:
  assumes "taskStep cd ob r t = Some (t', r', new)" "MissionSendTask (MissionSending c p i st) \<in> set new"
  shows "fencing r t = Some (p, c)" "ownsOp t' = None"
proof -
  consider (deploy) d d' where "t = DeployTask d" "t' = DeployTask d'" "deployStep cd ob r d = Some (d', r', new)"
    | (reservation) d d' where "t = ReservationTask d" "t' = ReservationTask d'"
        "reservationStep cd ob r d = Some (d', r', new)"
    | (aircraft) d d' where "aircraftStep cd ob r d = Some (d', r', new)"
    using assms by (cases t) (auto simp: quiet_def spawning_def)
  then have "fencing r t = Some (p, c) \<and> ownsOp t' = None"
  proof cases
    case deploy
    with assms(2) show ?thesis
      by (cases d) (auto simp: attachWatchers_def split: sum.splits prod.splits if_splits option.splits missionAttach.splits)
  next
    case reservation
    with assms(2) show ?thesis
      by (cases d) (auto simp: Let_def split: sum.splits prod.splits if_splits option.splits bool.splits)
  next
    case aircraft
    with assms(2) show ?thesis
      by (cases d) (auto split: sum.splits prod.splits if_splits option.splits)
  qed
  then show "fencing r t = Some (p, c)" "ownsOp t' = None" by blast+
qed

text \<open>C9: No mission is admitted outside its operation context, whatever runs between the check of
  the context and the admission: when a handler or a reservation worker starts the delivery of a
  mission, the session is live, its context is reconciled and is the one the mission is bound to, no
  context command is in flight, and the task that started it holds the gate.\<close>

theorem mission_admitted_in_its_context:
  assumes "sysReach cd (r, ts)" "t \<in> set ts" "taskStep cd ob r t = Some (t', r', new)"
    and "MissionSendTask (MissionSending c p i st) \<in> set new"
  shows "gateOf t = Some p \<and> \<not> retired (sessHeap r' p) \<and> \<not> operationContextUnreconciled (sessHeap r' p) \<and>
    (\<exists>b. dm_Binding c = Some b \<and> missionContextMatches (sessHeap r' p) b) \<and>
    (\<forall>j < opNext (sessHeap r' p). op_completed (opHeap (sessHeap r' p) j)) \<and>
    i < mdNext (sessHeap r' p) \<and> \<not> md_reserved (mdHeap (sessHeap r' p) i)"
proof -
  note sys = sysReach_ok [OF assms(1)]
  note F = started_fencing [OF assms(3,4)]
  note G = good_task [OF sys assms(2,3), unfolded goodStep_def]
  have ok: "taskOk cd r t" using sys assms(2) by (simp add: systemOk_def)
  have gate: "gateOf t = Some p" "p < sessNext r" and fence: "missionFence (sessHeap r p) c = None"
    using fencing_gate [OF F(1)] taskOkD(1,10) [OF ok] F(1) by blast+
  have idle: "opsDone (sessHeap r p)"
    using idle_when_fenced [OF sys _ , of _ p c] F(1) assms(2) by (auto simp: in_set_conv_nth)
  then have "sameContext (sessHeap r p) (sessHeap r' p)"
    using G gate(2) by (simp add: evolvesAll_def evolves_def)
  then have "missionFence (sessHeap r' p) c = None" using fence by (simp add: missionFence_same)
  moreover have "opsDone (sessHeap r' p)"
    using G gate(2) idle F(2) unfolding opsMove_def opsDone_def evolvesAll_def
    by (metis option.distinct(1) order.strict_trans2)
  moreover have "taskOk cd r' (MissionSendTask (MissionSending c p i st))" using G assms(4) by blast
  ultimately show ?thesis
    using gate(1) taskOkD(3,7) [of cd r' "MissionSendTask (MissionSending c p i st)" p]
    by (auto simp: missionFence_def opsDone_def split: if_splits option.splits)
qed

section \<open>The send loop\<close>

text \<open>The delivery of a task whose loop has returned.\<close>

fun sendEnded :: "task \<Rightarrow> bool" where
  "sendEnded (SetContextTask (SetDelivering aid c p i (Sent attempted err))) = True"
| "sendEnded (ClearContextTask (ClearDelivering aid c p i (Sent attempted err))) = True"
| "sendEnded (AircraftSendTask (AircraftSending c p i (Sent attempted err))) = True"
| "sendEnded (MissionSendTask (MissionSending c p i (Sent attempted err))) = True"
| "sendEnded t = False"

lemma sendStep_ends:
  assumes "stream s = Some b" "\<And>f. commit = Some f \<Longrightarrow> bindings (snd (f s)) = bindings s"
    and "sendStep ctx lockErr commit serr msg (Some b) s = (st, s')"
  shows "\<exists>attempted err. st = Sent attempted err" "\<forall>q. q \<noteq> b \<longrightarrow> bindings s' q = bindings s q"
proof -
  have "bindings s1 = bindings s" if "commit = Some f" "f s = (x, s1)" for f x s1
    using assms(2) [OF that(1)] that(2) by simp
  then have "(\<exists>attempted err. st = Sent attempted err) \<and> (\<forall>q. q \<noteq> b \<longrightarrow> bindings s' q = bindings s q)"
    using assms(1,3) by (auto simp: sendStep_def sendOnSelected_def recordSend_def
        ex_bool_eq split: option.splits prod.splits bool.splits)
  then show "\<exists>attempted err. st = Sent attempted err" "\<forall>q. q \<noteq> b \<longrightarrow> bindings s' q = bindings s q"
    by blast+
qed

text \<open>C10: The send loop of a command never goes round again: the binding a delivery has chosen is
  still the session's when the delivery reaches it, because the task holds the control fence, so the
  next section ends the loop, in a write on that binding or with an error, and touches no other
  binding.\<close>

theorem send_loop_runs_once:
  assumes "sysReach cd (r, ts)" "t \<in> set ts" "chosen t = Some (p, b)"
  shows "stream (sessHeap r p) = Some b \<and> \<not> retired (sessHeap r p) \<and>
    (\<exists>t' r'. taskStep cd ob r t = Some (t', r', []) \<and> sendEnded t' \<and>
       (\<forall>q. q \<noteq> b \<longrightarrow> bindings (sessHeap r' p) q = bindings (sessHeap r p) q))"
proof -
  have ok: "taskOk cd r t" using sysReach_ok [OF assms(1)] assms(2) by (simp add: systemOk_def)
  have here: "stream (sessHeap r p) = Some b" "\<not> retired (sessHeap r p)"
    using taskOkD(3,4) [OF ok] assms(3) chosen_locks by blast+
  have plain: "bindings (snd (commitMissionDelivery s k i)) = bindings s" for s k i
    by (simp add: commitMissionDelivery_def Let_def split: option.split)
  have ends: "\<exists>attempted err s'. sendStep ctx lockErr commit serr msg (Some b) (sessHeap r p) =
      (Sent attempted err, s') \<and> (\<forall>q. q \<noteq> b \<longrightarrow> bindings s' q = bindings (sessHeap r p) q)"
    if "\<And>f. commit = Some f \<Longrightarrow> bindings (snd (f (sessHeap r p))) = bindings (sessHeap r p)"
    for ctx lockErr commit serr msg
  proof -
    obtain st s' where "sendStep ctx lockErr commit serr msg (Some b) (sessHeap r p) = (st, s')" by fastforce
    with sendStep_ends [OF here(1) _ this] that show ?thesis by auto
  qed
  have "\<exists>t' r'. taskStep cd ob r t = Some (t', r', []) \<and> sendEnded t' \<and>
       (\<forall>q. q \<noteq> b \<longrightarrow> bindings (sessHeap r' p) q = bindings (sessHeap r p) q)"
  proof (cases t rule: chosen.cases)
    case (1 aid c q i b')
    with assms(3) ends [of None "ob_ctx ob" "ob_lock ob" "ob_send ob" "SetOperationContextMsg c"]
    show ?thesis by (auto simp: quiet_def)
  next
    case (2 aid c q i b')
    with assms(3) ends [of None "ob_ctx ob" "ob_lock ob" "ob_send ob" "ClearOperationContextMsg c"]
    show ?thesis by (auto simp: quiet_def)
  next
    case (3 c q i b')
    let ?x = "ac_cancelled (acHeap (sessHeap r p) i)"
    from 3 assms(3) ends [of None "deliveryCtx ?x" "deliveryLock ?x (ob_lock ob)" "ob_send ob" "AircraftCommandMsg c"]
    show ?thesis by (auto simp: quiet_def)
  next
    case (4 c q i b')
    let ?x = "md_cancelled (mdHeap (sessHeap r p) i) = Some True"
    from 4 assms(3) ends [of "Some (\<lambda>s. commitMissionDelivery s (dm_CommandId c) i)" "deliveryCtx ?x"
        "deliveryLock ?x (ob_lock ob)" "ob_send ob" "DeployMissionMsg c"] plain
    show ?thesis by (auto simp: quiet_def)
  qed (use assms(3) in auto)
  with here show ?thesis by blast
qed

section \<open>Progress\<close>

text \<open>The handlers of the control plane, those that have returned, and a bound on the sections a
  handler still runs once its context has ended.\<close>

fun rpcHandler :: "task \<Rightarrow> bool" where
  "rpcHandler (SetContextTask t) = True"
| "rpcHandler (ClearContextTask t) = True"
| "rpcHandler (AircraftTask t') = True"
| "rpcHandler (DeployTask t'') = True"
| "rpcHandler t = False"

fun returned :: "task \<Rightarrow> bool" where
  "returned (SetContextTask (SetReturned res)) = True"
| "returned (ClearContextTask (ClearReturned res)) = True"
| "returned (AircraftTask (AircraftReturned res)) = True"
| "returned (DeployTask (DeployReturned res)) = True"
| "returned t = False"

fun sectionsLeft :: "task \<Rightarrow> nat" where
  "sectionsLeft (SetContextTask (SetCalled remote agent command)) = 10"
| "sectionsLeft (SetContextTask (SetQueued aid c p)) = 9"
| "sectionsLeft (SetContextTask (SetSlot aid c p)) = 8"
| "sectionsLeft (SetContextTask (SetDelivering aid c p i (Sending (Some b)))) = 7"
| "sectionsLeft (SetContextTask (SetDelivering aid c p i (Sending None))) = 6"
| "sectionsLeft (SetContextTask (SetDelivering aid c p i (Sent attempted err))) = 5"
| "sectionsLeft (SetContextTask (SetAwaiting aid c p i owner)) = 4"
| "sectionsLeft (SetContextTask (SetReplying aid c p res)) = 3"
| "sectionsLeft (SetContextTask (SetLeaving c p res)) = 2"
| "sectionsLeft (ClearContextTask (ClearCalled remote agent command')) = 13"
| "sectionsLeft (ClearContextTask (ClearQueued aid c' p)) = 12"
| "sectionsLeft (ClearContextTask (ClearSlot aid c' p)) = 11"
| "sectionsLeft (ClearContextTask (ClearReserved aid c' p)) = 10"
| "sectionsLeft (ClearContextTask (ClearLeased aid c' p expected)) = 9"
| "sectionsLeft (ClearContextTask (ClearDelivering aid c' p i (Sending (Some b)))) = 8"
| "sectionsLeft (ClearContextTask (ClearDelivering aid c' p i (Sending None))) = 7"
| "sectionsLeft (ClearContextTask (ClearDelivering aid c' p i (Sent attempted err))) = 6"
| "sectionsLeft (ClearContextTask (ClearAwaiting aid c' p i owner)) = 5"
| "sectionsLeft (ClearContextTask (ClearReplying aid c' p res)) = 4"
| "sectionsLeft (ClearContextTask (ClearUnwinding c' p res')) = 3"
| "sectionsLeft (ClearContextTask (ClearLeaving c' p res')) = 2"
| "sectionsLeft (AircraftTask (AircraftCalled remote agent command'')) = 4"
| "sectionsLeft (AircraftTask (AircraftChosen aid ca p)) = 3"
| "sectionsLeft (AircraftTask (AircraftLeased aid ca p)) = 2"
| "sectionsLeft (AircraftTask (AircraftAwaiting ca p i)) = 1"
| "sectionsLeft (DeployTask (DeployCalled remote agent cmd)) = 11"
| "sectionsLeft (DeployTask (DeployChosen aid cm p)) = 10"
| "sectionsLeft (DeployTask (DeployLeased aid cm p)) = 9"
| "sectionsLeft (DeployTask (DeployQueued aid cm p)) = 8"
| "sectionsLeft (DeployTask (DeploySlot aid cm p)) = 7"
| "sectionsLeft (DeployTask (DeploySlotLeased aid cm p)) = 6"
| "sectionsLeft (DeployTask (DeployFencing aid cm p)) = 5"
| "sectionsLeft (DeployTask (DeployAdmitting aid cm p)) = 4"
| "sectionsLeft (DeployTask (DeployYielding aid cm p i reserved)) = 4"
| "sectionsLeft (DeployTask (DeployAwaiting cm p i gated)) = 3"
| "sectionsLeft (DeployTask (DeployLeaving p res'')) = 2"
| "sectionsLeft t = 0"


lemma sectionsLeft_zero: "rpcHandler t \<Longrightarrow> sectionsLeft t = 0 \<longleftrightarrow> returned t"
  by (cases t rule: sectionsLeft.cases) simp_all

lemma handler_not_locked: "rpcHandler t \<Longrightarrow> \<not> lockedOut r t u"
  by (cases t rule: rpcHandler.cases) (simp_all add: lockedOut_def meets_def)




















section \<open>The properties at work\<close>

definition ends :: "codec \<Rightarrow> Relay \<times> task list \<Rightarrow> move \<Rightarrow> bool" where
  "ends cd c m = (case sysNext cd c m of None \<Rightarrow> False | Some c' \<Rightarrow> True)"

lemma handlers_refine_relay_witness:
  "\<exists>r ts r' ts'. sysStep exampleCodec (r, ts) (r', ts') \<and> gateOf (ts ! 2) = Some 0 \<and> relayRun r r' \<and> relayReach r'"
proof -
  have "leads exampleCodec setScript (\<lambda>r ts. gateOf (ts ! 2) = Some 0 \<and> ends exampleCodec (r, ts) (Go 2 glance))"
    by code_simp
  then obtain r ts where r: "sysReach exampleCodec (r, ts)" "gateOf (ts ! 2) = Some 0"
    "ends exampleCodec (r, ts) (Go 2 glance)" by (rule leadsE) blast
  then obtain c where "sysNext exampleCodec (r, ts) (Go 2 glance) = Some c"
    by (cases "sysNext exampleCodec (r, ts) (Go 2 glance)") (simp_all add: ends_def)
  moreover obtain r' ts' where "c = (r', ts')" by fastforce
  ultimately have "sysStep exampleCodec (r, ts) (r', ts')" using sysNext_step by blast
  with handlers_refine_relay [OF r(1) this] r(2) show ?thesis by blast
qed

lemma gate_held_by_one_task_witness:
  "\<exists>r ts. sysReach exampleCodec (r, ts) \<and> gateOf (ts ! 2) = Some 0 \<and> \<not> operationGate (sessHeap r 0)"
proof -
  have "leads exampleCodec setScript (\<lambda>r ts. gateOf (ts ! 2) = Some 0 \<and> 2 < length ts \<and> 0 < sessNext r)"
    by code_simp
  then obtain r ts where r: "sysReach exampleCodec (r, ts)" "gateOf (ts ! 2) = Some 0" "2 < length ts"
    "0 < sessNext r" by (rule leadsE) blast
  from gate_held_by_one_task [OF r(1,4)] r show ?thesis by (metis nth_mem)
qed

lemma context_command_in_flight_witness:
  "\<exists>r ts k. sysReach exampleCodec (r, ts) \<and> mget (operationCommands (sessHeap r 0)) k = Some 0 \<and> \<not> op_completed (opHeap (sessHeap r 0) 0) \<and>
     (\<exists>t \<in> set ts. gateOf t = Some 0)"
proof -
  have "leads exampleCodec setScript (\<lambda>r ts. 0 < sessNext r \<and> 0 < opNext (sessHeap r 0) \<and>
      \<not> op_completed (opHeap (sessHeap r 0) 0))" by code_simp
  then obtain r ts where r: "sysReach exampleCodec (r, ts)" "0 < sessNext r" "0 < opNext (sessHeap r 0)"
    "\<not> op_completed (opHeap (sessHeap r 0) 0)" by (rule leadsE) blast
  from context_command_in_flight [OF this] r(1,4) show ?thesis by blast
qed

lemma context_replies_truthful_witness:
  "\<exists>r ts. sysReach exampleCodec (r, ts) \<and> replying (ts ! 2) = Some (SetOperationContextMsg exampleSet, Some exampleAck) \<and>
     ackApplied exampleAck \<and> ack_ActiveContext exampleAck = sc_Context exampleSet"
proof -
  have "leads exampleCodec ackScript (\<lambda>r ts. 2 < length ts \<and>
      replying (ts ! 2) = Some (SetOperationContextMsg exampleSet, Some exampleAck))" by code_simp
  then obtain r ts where r: "sysReach exampleCodec (r, ts)" "2 < length ts"
    "replying (ts ! 2) = Some (SetOperationContextMsg exampleSet, Some exampleAck)" by (rule leadsE) blast
  have "m = SetOperationContextMsg exampleSet"
    if "dg_op exampleCodec m = dg_op exampleCodec (SetOperationContextMsg exampleSet)" for m
    using that by (simp add: exampleCodec_def split: if_splits)
  from context_replies_truthful [OF r(1) nth_mem [OF r(2)] r(3) this] r
  show ?thesis by (auto simp: ackApplied_def exampleAck_def)
qed

lemma checkedMission_valid: "validateDeployMissionCommand (\<lambda>p. Inr (replicate 64 CHR ''a'')) (Some checkedMission) = None"
proof -
  have hex: "toLower (replicate n CHR ''a'') = replicate n CHR ''a''" "list_all isHexChar (replicate n CHR ''a'')" for n
    by (simp_all add: toLower_def toLowerChar_def isUpperASCII_def less_eq_char_def list_all_iff isHexChar_def)
  have tr: "trimSpace (replicate 64 CHR ''a'') = replicate 64 CHR ''a''"
    by (rule trimSpace_visible) (simp_all add: visible_def)
  show ?thesis
    using example_items
    by (simp add: checkedMission_def validateDeployMissionCommand_def exampleMission_def exampleBinding_def
        bindingValues_def canonicalId_def trimSpace_visible visible_def hexDecodes_def hex tr
        missionPlanSchemaVersion_def maxMissionItems_def) (simp add: examplePlan_def)
qed

text \<open>The handler that validates the mission and chooses the session leads to \<open>deployChosen\<close>.\<close>

lemma deployChosen_reach:
  assumes "deployChosen = Some c"
  shows "sysReach exampleCodec c"
proof -
  have "leads exampleCodec (ackScript @ [Go 2 glance]) (\<lambda>r ts. length ts = 3 \<and> controlAuthorizer r = Some [''api''] \<and>
      AgentMappings r = [(''a1'', exampleMapping)] \<and> grpcSessions r = [(''a1'', 0)] \<and>
      sessionIsCurrent r ''a1'' 0 \<and> stream (sessHeap r 0) \<noteq> None \<and> \<not> retired (sessHeap r 0))" by code_simp
  then obtain r ts where run: "runSys exampleCodec (emptyRelay, []) (ackScript @ [Go 2 glance]) = Some (r, ts)"
    and r: "length ts = 3" "controlAuthorizer r = Some [''api'']" "AgentMappings r = [(''a1'', exampleMapping)]"
      "grpcSessions r = [(''a1'', 0)]"
    by (auto simp: leads_def split: option.splits)
  have reach: "sysReach exampleCodec (r, ts)" using runSys_reach [OF run empty_reach] .
  let ?call = "DeployTask (DeployCalled operator ''a1'' (Some checkedMission))"
  have "missionPrelude (dg_plan exampleCodec) r operator ''a1'' (Some checkedMission) = Inr (''a1'', checkedMission, 0)"
  proof -
    have "authorizeControlMutation (Some [''api'']) operator = None" "trimSpace ''a1'' = ''a1''"
      "trimSpace (map_OperatorID exampleMapping) \<noteq> []" "trimSpace (map_AircraftID exampleMapping) \<noteq> []"
      "bindingMapped exampleMapping checkedMission" by code_simp+
    then show ?thesis
      using r checkedMission_valid by (simp add: missionPrelude_def exampleCodec_def)
  qed
  then have "sysNext exampleCodec (r, ts @ [?call]) (Go 3 glance) =
      Some (r, ts @ [DeployTask (DeployChosen ''a1'' checkedMission 0)])"
    using r(1) handler_not_locked [of ?call] by (simp add: nth_append list_update_append spawning_def list_ex_iff)
  moreover have "sysReach exampleCodec (r, ts @ [?call])"
    using sysReach.Next [OF reach sysStep.Arrive] by simp
  ultimately have "sysReach exampleCodec (r, ts @ [DeployTask (DeployChosen ''a1'' checkedMission 0)])"
    using sysNext_step sysReach.Next by blast
  with assms run show ?thesis by (simp add: deployChosen_def)
qed

lemma mission_admitted_in_its_context_witness:
  "\<exists>r ts t' r' new. sysReach exampleCodec (r, ts) \<and> taskStep exampleCodec glance r (ts ! 3) = Some (t', r', new) \<and>
     MissionSendTask (MissionSending checkedMission 0 0 (Sending None)) \<in> set new \<and>
     (\<exists>b. dm_Binding checkedMission = Some b \<and> missionContextMatches (sessHeap r' 0) b)"
proof -
  have "(case deployChosen of None \<Rightarrow> False | Some c \<Rightarrow> (case runSys exampleCodec c (replicate 6 (Go 3 glance)) of
      None \<Rightarrow> False
    | Some (r, ts) \<Rightarrow> 3 < length ts \<and> (case taskStep exampleCodec glance r (ts ! 3) of None \<Rightarrow> False
      | Some (t', r', new) \<Rightarrow> new = [MissionSendTask (MissionSending checkedMission 0 0 (Sending None))])))"
    by code_simp
  then obtain c r ts t' r' new where c: "deployChosen = Some c"
      "runSys exampleCodec c (replicate 6 (Go 3 glance)) = Some (r, ts)" "3 < length ts"
    and step: "taskStep exampleCodec glance r (ts ! 3) = Some (t', r', new)"
      "new = [MissionSendTask (MissionSending checkedMission 0 0 (Sending None))]"
    by (auto split: option.splits prod.splits)
  have reach: "sysReach exampleCodec (r, ts)" using runSys_reach [OF c(2) deployChosen_reach [OF c(1)]] .
  have "MissionSendTask (MissionSending checkedMission 0 0 (Sending None)) \<in> set new" using step(2) by simp
  from mission_admitted_in_its_context [OF reach nth_mem [OF c(3)] step(1) this] reach step(1) this
  show ?thesis by blast
qed

lemma send_loop_runs_once_witness:
  "\<exists>r ts t' r'. sysReach exampleCodec (r, ts) \<and> chosen (ts ! 2) = Some (0, 0) \<and>
     taskStep exampleCodec glance r (ts ! 2) = Some (t', r', []) \<and> sendEnded t'"
proof -
  have "leads exampleCodec setScript (\<lambda>r ts. 2 < length ts \<and> chosen (ts ! 2) = Some (0, 0))" by code_simp
  then obtain r ts where r: "sysReach exampleCodec (r, ts)" "2 < length ts" "chosen (ts ! 2) = Some (0, 0)"
    by (rule leadsE) blast
  from send_loop_runs_once [OF r(1) nth_mem [OF r(2)] r(3), of glance] r show ?thesis by blast
qed



end
