(* ===== verification/Float64.thy ===== *)
theory Float64
  imports Float32
begin

text \<open>
  IEEE binary64 values as the normalizers use them (\<open>internal/telemetrynormalize\<close>): the quotient of
  two integers that a float64 holds exactly, \<open>strconv.ParseFloat\<close> on decimal literals, the
  comparison with \<open>math.MaxFloat32\<close>, and \<open>strconv\<close>'s decimal integers.  Hexadecimal literals and
  digit separators, which decimal formatting never prints, are read as syntax errors.
\<close>

section \<open>Values\<close>

text \<open>\<open>Fin64 s m e\<close> is the number \<open>(-1)^s * m * 2^e\<close>.\<close>

datatype f64 = NaN64 | Inf64 bool | Fin64 bool nat int

fun isFinite64 :: "f64 \<Rightarrow> bool" where
  "isFinite64 (Fin64 s m e) = True"
| "isFinite64 _ = False"

text \<open>Division to the nearest integer, ties to even.\<close>

definition roundDiv :: "nat \<Rightarrow> nat \<Rightarrow> nat" where
  "roundDiv n d = (let q = n div d; r = n mod d in
     if 2 * r > d \<or> (2 * r = d \<and> odd q) then q + 1 else q)"

text \<open>The exponent of \<open>n / d\<close>: the largest \<open>e\<close> with \<open>2^e \<le> n / d\<close>.\<close>

definition quotExponent :: "nat \<Rightarrow> nat \<Rightarrow> int" where
  "quotExponent n d =
     (let e = int (bitlen n) - int (bitlen d) in
      if d * 2 ^ nat e \<le> n * 2 ^ nat (- e) then e else e - 1)"

text \<open>The nearest binary64 value to \<open>(-1)^s * n / d\<close>.\<close>

definition quot64 :: "bool \<Rightarrow> nat \<Rightarrow> nat \<Rightarrow> f64" where
  "quot64 s n d =
     (let q = max (- 1074) (quotExponent n d - 52);
          m1 = roundDiv (n * 2 ^ nat (- q)) (d * 2 ^ nat q);
          (m2, q2) = (if m1 = 2 ^ 53 then (2 ^ 52, q + 1) else (m1, q))
      in if n = 0 then Fin64 s 0 (- 1074)
         else if q2 > 971 then Inf64 s else Fin64 s m2 q2)"

text \<open>\<open>float64(v) / float64(d)\<close> for integers both converted exactly.\<close>

definition scaled :: "int \<Rightarrow> nat \<Rightarrow> f64" where
  "scaled v d = quot64 (v < 0) (nat \<bar>v\<bar>) d"

text \<open>\<open>math.Abs(x) <= math.MaxFloat32\<close>, the constant being \<open>(2^24 - 1) * 2^104\<close>.\<close>

fun withinFloat32 :: "f64 \<Rightarrow> bool" where
  "withinFloat32 NaN64 = False"
| "withinFloat32 (Inf64 s) = False"
| "withinFloat32 (Fin64 s m e) = (m * 2 ^ nat (e - 104) \<le> (2 ^ 24 - 1) * 2 ^ nat (104 - e))"

section \<open>Decimal literals\<close>

definition digitVal :: "char \<Rightarrow> nat" where
  "digitVal c = of_char c - 48"

definition decimalValue :: "string \<Rightarrow> nat" where
  "decimalValue s = foldl (\<lambda>n c. 10 * n + digitVal c) 0 s"

definition splitSign :: "string \<Rightarrow> bool \<times> string" where
  "splitSign s = (case s of [] \<Rightarrow> (False, [])
     | c # t \<Rightarrow> if c = CHR ''-'' then (True, t) else if c = CHR ''+'' then (False, t) else (False, s))"

text \<open>\<open>strconv\<close>'s two errors.\<close>

datatype numError = ErrSyntax | ErrRange

definition parseUint :: "string \<Rightarrow> nat \<Rightarrow> numError + nat" where
  "parseUint s width =
     (if s = [] \<or> \<not> list_all isDigitASCII s then Inl ErrSyntax
      else if decimalValue s \<ge> 2 ^ width then Inl ErrRange
      else Inr (decimalValue s))"

definition parseInt64 :: "string \<Rightarrow> numError + int" where
  "parseInt64 s =
     (case splitSign s of (neg, t) \<Rightarrow>
        if t = [] \<or> \<not> list_all isDigitASCII t then Inl ErrSyntax
        else if decimalValue t > (if neg then 2 ^ 63 else 2 ^ 63 - 1) then Inl ErrRange
        else Inr (if neg then - int (decimalValue t) else int (decimalValue t)))"

text \<open>The exponent of a literal, which the scanner stops accumulating at 10000.\<close>

definition exponentValue :: "string \<Rightarrow> nat" where
  "exponentValue s = foldl (\<lambda>n c. if n < 10000 then 10 * n + digitVal c else n) 0 s"

definition parseExponent :: "string \<Rightarrow> int option" where
  "parseExponent s =
     (case s of [] \<Rightarrow> Some 0
      | c # t \<Rightarrow>
          if c \<noteq> CHR ''e'' \<and> c \<noteq> CHR ''E'' then None
          else (case splitSign t of (neg, u) \<Rightarrow>
            if u = [] \<or> \<not> list_all isDigitASCII u then None
            else Some (if neg then - int (exponentValue u) else int (exponentValue u))))"

definition parseDecimal :: "string \<Rightarrow> (nat \<times> int) option" where
  "parseDecimal s =
     (let whole = takeWhile isDigitASCII s; rest = dropWhile isDigitASCII s;
          (frac, tail) = (case rest of
             [] \<Rightarrow> ([], [])
           | c # t \<Rightarrow> if c = CHR ''.'' then (takeWhile isDigitASCII t, dropWhile isDigitASCII t)
                      else ([], rest))
      in if whole @ frac = [] then None
         else map_option (\<lambda>e. (decimalValue (whole @ frac), e - int (length frac))) (parseExponent tail))"

definition parseFloat :: "string \<Rightarrow> numError + f64" where
  "parseFloat s =
     (case splitSign s of (neg, t) \<Rightarrow>
        if toLower s = ''nan'' then Inr NaN64
        else if toLower t = ''inf'' \<or> toLower t = ''infinity'' then Inr (Inf64 neg)
        else case parseDecimal t of
          None \<Rightarrow> Inl ErrSyntax
        | Some (m, e) \<Rightarrow>
            (let x = quot64 neg (m * 10 ^ nat e) (10 ^ nat (- e))
             in if isFinite64 x then Inr x else Inl ErrRange))"

section \<open>Facts\<close>

lemma isFinite64_iff: "isFinite64 x \<longleftrightarrow> (\<exists>s m e. x = Fin64 s m e)"
  by (cases x) auto

lemma bitlen_bounds: "n > 0 \<Longrightarrow> 2 ^ (bitlen n - 1) \<le> n \<and> n < 2 ^ bitlen n \<and> bitlen n > 0"
proof (induction n rule: bitlen.induct)
  case (1 n)
  show ?case
  proof (cases "n div 2 = 0")
    case True
    with 1 have "n = 1" by (simp add: div_eq_0_iff)
    then show ?thesis by (simp add: bitlen.simps)
  next
    case False
    with 1 have IH: "2 ^ (bitlen (n div 2) - 1) \<le> n div 2" "n div 2 < 2 ^ bitlen (n div 2)"
      "bitlen (n div 2) > 0" by auto
    have n: "bitlen n = Suc (bitlen (n div 2))" using 1(2) by (subst bitlen.simps) simp
    have "2 * 2 ^ (bitlen (n div 2) - 1) = (2::nat) ^ bitlen (n div 2)"
      using IH(3) by (cases "bitlen (n div 2)") simp_all
    then show ?thesis using IH n by simp linarith
  qed
qed

lemma bitlen_le: "n < 2 ^ k \<Longrightarrow> bitlen n \<le> k"
proof (cases "n = 0")
  case False
  assume "n < 2 ^ k"
  moreover from False have "0 < n" by (rule neq0_conv [THEN iffD1])
  from bitlen_bounds [OF this] have "2 ^ (bitlen n - 1) \<le> n" by (rule conjunct1)
  ultimately have "2 ^ (bitlen n - 1) < (2::nat) ^ k" by (rule le_less_trans [rotated])
  then have "bitlen n - 1 < k"
    by (metis linorder_not_less one_le_numeral power_increasing)
  then show ?thesis by simp
qed (simp add: bitlen.simps)

text \<open>A quotient of a 64-bit integer is finite.\<close>

lemma quot64_finite: "quotExponent n d \<le> 1000 \<Longrightarrow> isFinite64 (quot64 s n d)"
proof -
  define q where "q = max (- 1074) (quotExponent n d - 52)"
  define m1 where "m1 = roundDiv (n * 2 ^ nat (- q)) (d * 2 ^ nat q)"
  assume "quotExponent n d \<le> 1000"
  then have "q \<le> 970" by (simp add: q_def)
  moreover have "quot64 s n d = (let (m2, q2) = (if m1 = 2 ^ 53 then (2 ^ 52, q + 1) else (m1, q))
      in if n = 0 then Fin64 s 0 (- 1074) else if q2 > 971 then Inf64 s else Fin64 s m2 q2)"
    by (simp only: quot64_def Let_def q_def m1_def)
  ultimately show ?thesis by (cases "m1 = 2 ^ 53") (simp_all only: Let_def if_True if_False split: prod.split, auto)
qed

lemma scaled_finite:
  assumes "\<bar>v\<bar> < 2 ^ 64" "d > 0"
  shows "isFinite64 (scaled v d)"
proof -
  have "nat \<bar>v\<bar> < 2 ^ 64" using assms(1) by (simp add: nat_less_iff)
  then have "bitlen (nat \<bar>v\<bar>) \<le> 64" by (rule bitlen_le)
  then have "quotExponent (nat \<bar>v\<bar>) d \<le> 64" by (simp add: quotExponent_def Let_def)
  then show ?thesis unfolding scaled_def by (intro quot64_finite) simp
qed

text \<open>Rounding is off by at most half a unit.\<close>

lemma roundDiv_near:
  assumes "d > 0"
  shows "\<bar>2 * int (roundDiv n d) * int d - 2 * int n\<bar> \<le> int d"
proof -
  define q where "q = n div d"
  define r where "r = n mod d"
  have n: "n = q * d + r" unfolding q_def r_def by (rule div_mult_mod_eq [symmetric])
  then have n': "int n = int q * int d + int r" by simp
  have r: "r < d" using assms by (simp add: r_def)
  have "roundDiv n d = (if 2 * r > d \<or> (2 * r = d \<and> odd q) then q + 1 else q)"
    by (simp only: roundDiv_def Let_def q_def r_def)
  then show ?thesis using n' r by (auto simp: algebra_simps)
qed

lemma roundDiv_exact: "d > 0 \<Longrightarrow> roundDiv (k * d) d = k"
  by (simp add: roundDiv_def)

lemma parseUint_Inr: "parseUint s w = Inr n \<Longrightarrow> n < 2 ^ w"
  by (auto simp: parseUint_def split: if_splits)

lemma parseInt64_Inr: "parseInt64 s = Inr v \<Longrightarrow> - (2 ^ 63) \<le> v \<and> v < 2 ^ 63"
  by (auto simp: parseInt64_def split: if_splits prod.splits)

lemma parseFloat_Inr: "parseFloat s = Inr x \<Longrightarrow> isFinite64 x \<or> x = NaN64 \<or> (\<exists>n. x = Inf64 n)"
  by (cases x) auto

text \<open>Printing and reading back a natural number.\<close>

lemma digitVal_digitChar: "d < 10 \<Longrightarrow> digitVal (digitChar d) = d \<and> isDigitASCII (digitChar d)"
  by (simp add: digitVal_def digitChar_def isDigitASCII_def less_eq_char_def)

lemma decimalValue_append: "decimalValue (s @ [c]) = 10 * decimalValue s + digitVal c"
  by (simp add: decimalValue_def)

lemma showNat_decimal: "decimalValue (showNat n) = n \<and> list_all isDigitASCII (showNat n)"
proof (induction n rule: showNat.induct)
  case (1 n)
  show ?case
  proof (cases "n < 10")
    case True
    then show ?thesis using digitVal_digitChar [of n] by (subst (1 2) showNat.simps) (simp add: decimalValue_def)
  next
    case False
    then show ?thesis
      using 1 digitVal_digitChar [of "n mod 10"] by (subst (1 2) showNat.simps) (simp add: decimalValue_append)
  qed
qed

lemma decimalValue_showNat [simp]: "decimalValue (showNat n) = n"
  and digits_showNat [simp]: "list_all isDigitASCII (showNat n)"
  using showNat_decimal by blast+

lemma showNat_inj: "showNat m = showNat n \<longleftrightarrow> m = n"
  by (metis decimalValue_showNat)

definition showInt :: "int \<Rightarrow> string" where
  "showInt i = (if i < 0 then ''-'' @ showNat (nat (- i)) else showNat (nat i))"

lemma splitSign_digits: "s \<noteq> [] \<Longrightarrow> list_all isDigitASCII s \<Longrightarrow> splitSign s = (False, s)"
  by (cases s) (auto simp: splitSign_def isDigitASCII_def less_eq_char_def)

lemma parseInt64_showInt:
  assumes "- (2 ^ 63) \<le> i" "i < 2 ^ 63"
  shows "parseInt64 (showInt i) = Inr i"
proof (cases "i < 0")
  case True
  then show ?thesis using assms
    by (simp add: showInt_def parseInt64_def splitSign_def nat_le_iff)
next
  case False
  then show ?thesis using assms
    by (simp add: showInt_def parseInt64_def splitSign_digits nat_less_iff nat_le_iff)
qed

end
