(* ===== verification/Normalize.thy ===== *)
theory Normalize
  imports Gateway Float64
begin

text \<open>
  Normalization of telemetry envelopes (\<open>internal/telemetrynormalize\<close>): reading typed values from the
  frame's text fields, the eight normalizers, the registry of normalizers and the validation of a
  record.  The values of an envelope's field map are strings, as the gateway fills it.  Text is
  ASCII.  A \<open>float64\<close> is its IEEE value; \<open>math.Hypot\<close>, whose last bit depends on the platform,
  stays symbolic.  The parser of UUIDs is a parameter, as in \<open>Gateway\<close>.
\<close>

section \<open>Records\<close>

text \<open>The dynamic types a normalized field may have; \<open>VHypot x y\<close> is \<open>math.Hypot(x, y) / 100\<close>.\<close>

datatype fieldValue = VInt int | VUint nat | VText string | VFloat f64 | VHypot int int

type_synonym Fields = "fieldValue gomap"

definition SchemaVersion :: nat where
  "SchemaVersion = 1"

record IdentityContext =
  id_OperatorID :: string
  id_AircraftID :: string
  id_AgentID :: string
  id_RelayID :: string
  id_SessionID :: string
  id_FlightID :: string
  id_IntentID :: string
  id_IntentVersion :: "32 word"

record SourceContext =
  src_FrameID :: string
  src_WALID :: string
  src_Sequence :: "64 word"
  src_MessageID :: "32 word"
  src_Dialect :: string
  src_SystemID :: "8 word option"
  src_ComponentID :: "8 word option"

record DeviceTime =
  dt_Value :: nat
  dt_Unit :: string
  dt_Basis :: string

record TimingContext =
  tm_EventTime :: "gotime option"
  tm_RelayTime :: "gotime option"
  tm_AgentCaptureTime :: "gotime option"
  tm_DeviceTime :: "DeviceTime option"
  tm_TimestampSource :: string

record Record =
  rec_SchemaVersion :: nat
  rec_Identity :: IdentityContext
  rec_Source :: SourceContext
  rec_Timing :: TimingContext
  rec_MessageName :: string
  rec_Fields :: Fields

definition TimestampSourceAgent :: string where
  "TimestampSourceAgent = ''agent_capture''"

text \<open>The loop over the fields; the types of \<open>fieldValue\<close> are the supported ones.\<close>

fun validateFields :: "Fields \<Rightarrow> goerror option" where
  "validateFields [] = None"
| "validateFields ((name, value) # fs) =
     (if name = [] then Some (OtherError ''normalized field name is empty'')
      else case value of
          VFloat x \<Rightarrow> if isFinite64 x then validateFields fs
                       else Some (OtherError (''field '' @ name @ '' is not finite''))
        | _ \<Rightarrow> validateFields fs)"

text \<open>Parsing of a WAL generation ID; the text of the library's own error is left off.\<close>

definition parseWALID :: "(string \<Rightarrow> string option) \<Rightarrow> string \<Rightarrow> goerror + string" where
  "parseWALID uuidParse w =
     (case uuidParse w of
        None \<Rightarrow> Inl (OtherError ''WAL generation ID is invalid'')
      | Some u \<Rightarrow> if u = nilUUID then Inl (OtherError ''WAL generation ID is invalid: nil UUID'')
                  else Inr u)"

definition Validate :: "(string \<Rightarrow> string option) \<Rightarrow> Record \<Rightarrow> goerror + Record" where
  "Validate uuidParse r =
     (let i = rec_Identity r; s = rec_Source r; t = rec_Timing r;
          wal = (if src_WALID s = [] then Inr [] else parseWALID uuidParse (src_WALID s)) in
      if rec_SchemaVersion r = 0 then Inl (OtherError ''schema version is required'')
      else if id_AgentID i = [] then Inl (OtherError ''agent ID is required'')
      else if id_RelayID i = [] then Inl (OtherError ''relay ID is required'')
      else if id_SessionID i = [] then Inl (OtherError ''session ID is required'')
      else if src_FrameID s = [] then Inl (OtherError ''frame ID is required'')
      else (case wal of
        Inl e \<Rightarrow> Inl e
      | Inr w \<Rightarrow>
          if rec_MessageName r = [] then Inl (OtherError ''message name is required'')
          else if src_Dialect s = [] then Inl (OtherError ''dialect is required'')
          else if tm_EventTime t = None \<or> tm_RelayTime t = None
          then Inl (OtherError ''event and relay times are required'')
          else if tm_TimestampSource t = [] then Inl (OtherError ''timestamp source is required'')
          else case validateFields (rec_Fields r) of
            Some e \<Rightarrow> Inl e
          | None \<Rightarrow> Inr (r\<lparr>rec_Source := s\<lparr>src_WALID := w\<rparr>\<rparr>)))"

section \<open>Reading fields\<close>

definition fieldString :: "string gomap \<Rightarrow> string \<Rightarrow> string option" where
  "fieldString fm name = map_option trimSpace (mget fm name)"

text \<open>A present and non-empty text.\<close>

definition fieldText :: "string gomap \<Rightarrow> string \<Rightarrow> string option" where
  "fieldText fm name = (case fieldString fm name of
     None \<Rightarrow> None | Some t \<Rightarrow> if t = [] then None else Some t)"

fun numErrorText :: "numError \<Rightarrow> string" where
  "numErrorText ErrSyntax = ''invalid syntax''"
| "numErrorText ErrRange = ''value out of range''"

text \<open>The quoting of a text with bytes that are not printable is left to the library.\<close>

definition requiredInt64 :: "string gomap \<Rightarrow> string \<Rightarrow> goerror + int" where
  "requiredInt64 fm name =
     (case fieldText fm name of
        None \<Rightarrow> Inl (OtherError (''required field '' @ name @ '' is missing''))
      | Some t \<Rightarrow>
        (case parseInt64 t of
           Inl e \<Rightarrow> Inl (OtherError (''parse required field '' @ name @ '': strconv.ParseInt: parsing '' @
                      [CHR 0x22] @ t @ [CHR 0x22] @ '': '' @ numErrorText e))
         | Inr v \<Rightarrow> Inr v))"

definition okValue :: "numError + 'a \<Rightarrow> 'a option" where
  "okValue x = (case x of Inl e \<Rightarrow> None | Inr v \<Rightarrow> Some v)"

definition optionalInt64 :: "string gomap \<Rightarrow> string \<Rightarrow> int option" where
  "optionalInt64 fm name =
     (case fieldText fm name of None \<Rightarrow> None | Some t \<Rightarrow> okValue (parseInt64 t))"

definition optionalUint64 :: "string gomap \<Rightarrow> string \<Rightarrow> nat option" where
  "optionalUint64 fm name =
     (case fieldText fm name of None \<Rightarrow> None | Some t \<Rightarrow> okValue (parseUint t 64))"

definition optionalFloat64 :: "string gomap \<Rightarrow> string \<Rightarrow> f64 option" where
  "optionalFloat64 fm name =
     (case fieldText fm name of None \<Rightarrow> None
      | Some t \<Rightarrow> (case okValue (parseFloat t) of None \<Rightarrow> None
        | Some v \<Rightarrow> if isFinite64 v then Some v else None))"

definition optionalEnum :: "string gomap \<Rightarrow> string \<Rightarrow> string option" where
  "optionalEnum fm name = map_option toLower (fieldText fm name)"

text \<open>\<open>strings.Split\<close> at a comma.\<close>

fun splitComma :: "string \<Rightarrow> string list" where
  "splitComma [] = [[]]"
| "splitComma (c # cs) =
     (if c = CHR '','' then [] # splitComma cs
      else (case splitComma cs of [] \<Rightarrow> [[c]] | p # ps \<Rightarrow> (c # p) # ps))"

fun parseAll16 :: "string list \<Rightarrow> nat list option" where
  "parseAll16 [] = Some []"
| "parseAll16 (p # ps) =
     (case parseUint (trimSpace p) 16 of
        Inl e \<Rightarrow> None | Inr v \<Rightarrow> map_option (\<lambda>vs. v # vs) (parseAll16 ps))"

definition optionalUint16Array :: "string gomap \<Rightarrow> string \<Rightarrow> nat list option" where
  "optionalUint16Array fm name =
     (case fieldString fm name of
        None \<Rightarrow> None
      | Some t \<Rightarrow>
          (let text = trimSpace t in
           if length text < 2 \<or> hd text \<noteq> CHR ''['' \<or> last text \<noteq> CHR '']'' then None
           else (let inner = trimSpace (butlast (tl text)) in
             if inner = [] then Some [] else parseAll16 (splitComma inner))))"

section \<open>Storing fields\<close>

text \<open>The statements \<open>if value, ok := optional...; ok && P value { target[output] = f value }\<close>.\<close>

definition setWhen :: "'a option \<Rightarrow> ('a \<Rightarrow> bool) \<Rightarrow> string \<Rightarrow> ('a \<Rightarrow> fieldValue) \<Rightarrow> Fields \<Rightarrow> Fields" where
  "setWhen v P out f target =
     (case v of None \<Rightarrow> target | Some x \<Rightarrow> if P x then mput out (f x) target else target)"

definition copyEnum :: "string gomap \<Rightarrow> string \<Rightarrow> string \<Rightarrow> Fields \<Rightarrow> Fields" where
  "copyEnum fm out input = setWhen (optionalEnum fm input) (\<lambda>v. True) out VText"

definition copyUintAtMost :: "string gomap \<Rightarrow> string \<Rightarrow> string \<Rightarrow> nat \<Rightarrow> Fields \<Rightarrow> Fields" where
  "copyUintAtMost fm out input maximum =
     setWhen (optionalUint64 fm input) (\<lambda>v. v \<le> maximum) out VUint"

definition copyFloat32 :: "string gomap \<Rightarrow> string \<Rightarrow> string \<Rightarrow> Fields \<Rightarrow> Fields" where
  "copyFloat32 fm out input = setWhen (optionalFloat64 fm input) withinFloat32 out VFloat"

definition copyScaledUintAtMost ::
  "string gomap \<Rightarrow> string \<Rightarrow> string \<Rightarrow> nat \<Rightarrow> nat \<Rightarrow> Fields \<Rightarrow> Fields" where
  "copyScaledUintAtMost fm out input maximum divisor =
     setWhen (optionalUint64 fm input) (\<lambda>v. v \<le> maximum) out (\<lambda>v. VFloat (scaled (int v) divisor))"

definition inInt32 :: "int \<Rightarrow> bool" where
  "inInt32 v \<longleftrightarrow> - (2 ^ 31) \<le> v \<and> v \<le> 2 ^ 31 - 1"

definition inInt16 :: "int \<Rightarrow> bool" where
  "inInt16 v \<longleftrightarrow> - (2 ^ 15) \<le> v \<and> v \<le> 2 ^ 15 - 1"

text \<open>A scaled signed value.\<close>

definition setScaled :: "string gomap \<Rightarrow> string \<Rightarrow> string \<Rightarrow> (int \<Rightarrow> bool) \<Rightarrow> nat \<Rightarrow> Fields \<Rightarrow> Fields" where
  "setScaled fm out input P divisor =
     setWhen (optionalInt64 fm input) P out (\<lambda>v. VFloat (scaled v divisor))"

definition sumWhere :: "nat \<Rightarrow> nat list \<Rightarrow> nat" where
  "sumWhere sentinel vs = sum_list (filter (\<lambda>v. v \<noteq> sentinel) vs)"

text \<open>The cells' sum in a 64-bit counter; an array of too many cells is ignored.\<close>

definition batteryMillivolts :: "string gomap \<Rightarrow> 64 word" where
  "batteryMillivolts fm =
     (let cells = (\<lambda>name most sentinel. case optionalUint16Array fm name of None \<Rightarrow> 0
        | Some vs \<Rightarrow> if length vs \<le> most then of_nat (sumWhere sentinel vs) else 0)
      in cells ''Voltages'' 10 (2 ^ 16 - 1) + cells ''VoltagesExt'' 4 0)"

definition batteryVoltage :: "string gomap \<Rightarrow> f64 option" where
  "batteryVoltage fm =
     (if batteryMillivolts fm = 0 then None
      else Some (scaled (uint (batteryMillivolts fm)) 1000))"

section \<open>The base record\<close>

definition frameIDV1 :: "string \<Rightarrow> gotime \<Rightarrow> 64 word \<Rightarrow> string" where
  "frameIDV1 aid agentCaptureTime walSequence =
     showNat (length aid) @ '':'' @ aid @ '':'' @ showInt agentCaptureTime @ '':'' @
       showNat (unat walSequence)"

definition baseRecord ::
  "(string \<Rightarrow> string option) \<Rightarrow> TelemetryEnvelope \<Rightarrow> string \<Rightarrow> goerror + Record" where
  "baseRecord uuidParse env canonicalName =
     (case env_TimestampRelay env of
        None \<Rightarrow> Inl (OtherError ''relay time is required'')
      | Some relayTime \<Rightarrow>
        (case env_TimestampAgent env of
           None \<Rightarrow> Inl (OtherError ''agent capture time is required'')
         | Some agentTime \<Rightarrow>
           (let d = toLower (trimSpace (env_Dialect env));
                dialect = (if d = [] then ''common'' else d);
                wal = trimSpace (env_WALID env) in
            if trimSpace (env_AgentID env) = [] then Inl (OtherError ''agent ID is required'')
            else if wal = [] then Inl (OtherError ''WAL generation ID is required'')
            else case parseWALID uuidParse wal of
              Inl e \<Rightarrow> Inl e
            | Inr u \<Rightarrow> Inr
                \<lparr>rec_SchemaVersion = SchemaVersion,
                 rec_Identity = \<lparr>id_OperatorID = env_OperatorID env, id_AircraftID = env_AircraftID env,
                   id_AgentID = env_AgentID env, id_RelayID = env_RelayID env,
                   id_SessionID = env_SessionID env, id_FlightID = env_FlightID env,
                   id_IntentID = env_IntentID env, id_IntentVersion = env_IntentVersion env\<rparr>,
                 rec_Source = \<lparr>src_FrameID = frameIDV1 (env_AgentID env) agentTime (env_WALSequence env),
                   src_WALID = u, src_Sequence = env_WALSequence env, src_MessageID = env_MsgID env,
                   src_Dialect = dialect, src_SystemID = None, src_ComponentID = None\<rparr>,
                 rec_Timing = \<lparr>tm_EventTime = Some agentTime, tm_RelayTime = Some relayTime,
                   tm_AgentCaptureTime = Some agentTime, tm_DeviceTime = None,
                   tm_TimestampSource = TimestampSourceAgent\<rparr>,
                 rec_MessageName = canonicalName, rec_Fields = []\<rparr>)))"

section \<open>The normalizers\<close>

text \<open>\<open>validated\<close>, with the fields and the device time set by a normalizer.\<close>

definition validated ::
  "(string \<Rightarrow> string option) \<Rightarrow> Record \<Rightarrow> Fields \<Rightarrow> DeviceTime option \<Rightarrow> goerror + Record" where
  "validated uuidParse r fs dt = Validate uuidParse
     (r\<lparr>rec_Fields := fs, rec_Timing := (rec_Timing r)\<lparr>tm_DeviceTime := dt\<rparr>\<rparr>)"

definition velocity :: "string gomap \<Rightarrow> string \<Rightarrow> int option" where
  "velocity fm name = (case optionalInt64 fm name of None \<Rightarrow> None
     | Some v \<Rightarrow> if inInt16 v then Some v else None)"

text \<open>The assignments of \<open>normalizeGlobalPositionInt\<close> in the order of the code.\<close>

definition positionFields :: "string gomap \<Rightarrow> int \<Rightarrow> int \<Rightarrow> Fields" where
  "positionFields fm lat lon =
     (let vx = velocity fm ''Vx''; vy = velocity fm ''Vy'' in
      setWhen (optionalUint64 fm ''Hdg'') (\<lambda>v. v \<noteq> 2 ^ 16 - 1 \<and> v \<le> 35999) ''heading_deg''
        (\<lambda>v. VFloat (scaled (int v) 100))
      (setWhen (case (vx, vy) of (Some x, Some y) \<Rightarrow> Some (x, y) | _ \<Rightarrow> None) (\<lambda>p. True)
        ''groundspeed_mps'' (\<lambda>(x, y). VHypot x y)
      (setScaled fm ''velocity_down_mps'' ''Vz'' inInt16 100
      (setWhen vy (\<lambda>v. True) ''velocity_east_mps'' (\<lambda>v. VFloat (scaled v 100))
      (setWhen vx (\<lambda>v. True) ''velocity_north_mps'' (\<lambda>v. VFloat (scaled v 100))
      (setScaled fm ''relative_altitude_m'' ''RelativeAlt'' inInt32 1000
      (setScaled fm ''altitude_msl_m'' ''Alt'' inInt32 1000
      (copyUintAtMost fm ''device_boot_time_ms'' ''TimeBootMs'' (2 ^ 32 - 1)
        [(''latitude_deg'', VFloat (scaled lat (10 ^ 7))),
         (''longitude_deg'', VFloat (scaled lon (10 ^ 7)))]))))))))"

definition bootDeviceTime :: "string gomap \<Rightarrow> DeviceTime option" where
  "bootDeviceTime fm = (case optionalUint64 fm ''TimeBootMs'' of None \<Rightarrow> None
     | Some v \<Rightarrow> if v \<le> 2 ^ 32 - 1
         then Some \<lparr>dt_Value = v, dt_Unit = ''milliseconds'', dt_Basis = ''system_boot''\<rparr> else None)"

definition normalizeGlobalPositionInt ::
  "(string \<Rightarrow> string option) \<Rightarrow> TelemetryEnvelope \<Rightarrow> goerror + Record" where
  "normalizeGlobalPositionInt uuidParse env =
     (case baseRecord uuidParse env ''global_position_int'' of
        Inl e \<Rightarrow> Inl e
      | Inr r \<Rightarrow>
        (case requiredInt64 (env_Fields env) ''Lat'' of
           Inl e \<Rightarrow> Inl e
         | Inr lat \<Rightarrow>
           (case requiredInt64 (env_Fields env) ''Lon'' of
              Inl e \<Rightarrow> Inl e
            | Inr lon \<Rightarrow>
                if lat < -900000000 \<or> lat > 900000000 \<or> lon < -1800000000 \<or> lon > 1800000000
                then Inl (OtherError ''latitude or longitude outside valid range'')
                else validated uuidParse r (positionFields (env_Fields env) lat lon)
                       (bootDeviceTime (env_Fields env)))))"

definition batteryFields :: "string gomap \<Rightarrow> int \<Rightarrow> Fields" where
  "batteryFields fm bid =
     setWhen (optionalInt64 fm ''TimeRemaining'') (\<lambda>v. 0 < v \<and> v \<le> 2 ^ 31 - 1)
       ''battery_time_remaining_s'' VInt
     (setScaled fm ''battery_remaining_pct'' ''BatteryRemaining'' (\<lambda>v. 0 \<le> v \<and> v \<le> 100) 1
     (setScaled fm ''battery_consumed_wh'' ''EnergyConsumed'' (\<lambda>v. 0 \<le> v \<and> v \<le> 2 ^ 31 - 1) 36
     (setWhen (optionalInt64 fm ''CurrentConsumed'') (\<lambda>v. 0 \<le> v \<and> v \<le> 2 ^ 31 - 1)
       ''battery_consumed_mah'' VInt
     (setScaled fm ''battery_current_a'' ''CurrentBattery'' (\<lambda>v. inInt16 v \<and> v \<noteq> -1) 100
     (setWhen (batteryVoltage fm) (\<lambda>v. True) ''battery_voltage_v'' VFloat
     (setScaled fm ''battery_temperature_c'' ''Temperature''
       (\<lambda>v. - (2 ^ 15) \<le> v \<and> v < 2 ^ 15 - 1) 100
     (copyEnum fm ''battery_mode'' ''Mode''
     (copyEnum fm ''battery_charge_state'' ''ChargeState''
     (copyEnum fm ''battery_type'' ''Type''
     (copyEnum fm ''battery_function'' ''BatteryFunction''
       [(''battery_id'', VUint (nat bid))]))))))))))"

definition normalizeBatteryStatus ::
  "(string \<Rightarrow> string option) \<Rightarrow> TelemetryEnvelope \<Rightarrow> goerror + Record" where
  "normalizeBatteryStatus uuidParse env =
     (case baseRecord uuidParse env ''battery_status'' of
        Inl e \<Rightarrow> Inl e
      | Inr r \<Rightarrow>
        (case requiredInt64 (env_Fields env) ''Id'' of
           Inl e \<Rightarrow> Inl (OtherError ''battery ID is invalid'')
         | Inr bid \<Rightarrow>
             if bid < 0 \<or> bid > 255 then Inl (OtherError ''battery ID is invalid'')
             else validated uuidParse r (batteryFields (env_Fields env) bid) None))"

definition heartbeatFields :: "string gomap \<Rightarrow> Fields" where
  "heartbeatFields fm =
     copyUintAtMost fm ''mavlink_version'' ''MavlinkVersion'' 255
     (copyUintAtMost fm ''custom_mode'' ''CustomMode'' (2 ^ 32 - 1)
     (copyEnum fm ''system_status'' ''SystemStatus''
     (copyEnum fm ''base_mode'' ''BaseMode''
     (copyEnum fm ''autopilot_type'' ''Autopilot''
     (copyEnum fm ''vehicle_type'' ''Type'' [])))))"

text \<open>The shape of a normalizer without required fields.\<close>

definition normalizeWith ::
  "string \<Rightarrow> (string gomap \<Rightarrow> Fields) \<Rightarrow> (string gomap \<Rightarrow> DeviceTime option) \<Rightarrow>
    (string \<Rightarrow> string option) \<Rightarrow> TelemetryEnvelope \<Rightarrow> goerror + Record" where
  "normalizeWith name fs dt uuidParse env =
     (case baseRecord uuidParse env name of
        Inl e \<Rightarrow> Inl e
      | Inr r \<Rightarrow> validated uuidParse r (fs (env_Fields env)) (dt (env_Fields env)))"

definition noDeviceTime :: "string gomap \<Rightarrow> DeviceTime option" where
  "noDeviceTime fm = None"

definition normalizeHeartbeat ::
  "(string \<Rightarrow> string option) \<Rightarrow> TelemetryEnvelope \<Rightarrow> goerror + Record" where
  "normalizeHeartbeat = normalizeWith ''heartbeat'' heartbeatFields noDeviceTime"

definition sysStatusFields :: "string gomap \<Rightarrow> Fields" where
  "sysStatusFields fm =
     copyEnum fm ''sensors_health_extended'' ''OnboardControlSensorsHealthExtended''
     (copyEnum fm ''sensors_enabled_extended'' ''OnboardControlSensorsEnabledExtended''
     (copyEnum fm ''sensors_present_extended'' ''OnboardControlSensorsPresentExtended''
     (copyEnum fm ''sensors_health'' ''OnboardControlSensorsHealth''
     (copyEnum fm ''sensors_enabled'' ''OnboardControlSensorsEnabled''
     (copyEnum fm ''sensors_present'' ''OnboardControlSensorsPresent''
     (copyUintAtMost fm ''autopilot_error_count_4'' ''ErrorsCount4'' (2 ^ 16 - 1)
     (copyUintAtMost fm ''autopilot_error_count_3'' ''ErrorsCount3'' (2 ^ 16 - 1)
     (copyUintAtMost fm ''autopilot_error_count_2'' ''ErrorsCount2'' (2 ^ 16 - 1)
     (copyUintAtMost fm ''autopilot_error_count_1'' ''ErrorsCount1'' (2 ^ 16 - 1)
     (copyUintAtMost fm ''communication_error_count'' ''ErrorsComm'' (2 ^ 16 - 1)
     (copyScaledUintAtMost fm ''communication_drop_rate_pct'' ''DropRateComm'' 10000 100
     (copyScaledUintAtMost fm ''mainloop_load_pct'' ''Load'' 1000 10 []))))))))))))"

definition normalizeSysStatus ::
  "(string \<Rightarrow> string option) \<Rightarrow> TelemetryEnvelope \<Rightarrow> goerror + Record" where
  "normalizeSysStatus = normalizeWith ''sys_status'' sysStatusFields noDeviceTime"

definition vfrHudFields :: "string gomap \<Rightarrow> Fields" where
  "vfrHudFields fm =
     copyFloat32 fm ''climb_rate_mps'' ''Climb''
     (copyFloat32 fm ''altitude_msl_m'' ''Alt''
     (copyScaledUintAtMost fm ''throttle_pct'' ''Throttle'' 100 1
     (setScaled fm ''heading_deg'' ''Heading'' (\<lambda>v. 0 \<le> v \<and> v \<le> 360) 1
     (copyFloat32 fm ''groundspeed_mps'' ''Groundspeed''
     (copyFloat32 fm ''airspeed_mps'' ''Airspeed'' [])))))"

definition normalizeVFRHUD ::
  "(string \<Rightarrow> string option) \<Rightarrow> TelemetryEnvelope \<Rightarrow> goerror + Record" where
  "normalizeVFRHUD = normalizeWith ''vfr_hud'' vfrHudFields noDeviceTime"

definition extendedSysStateFields :: "string gomap \<Rightarrow> Fields" where
  "extendedSysStateFields fm =
     copyEnum fm ''landed_state'' ''LandedState'' (copyEnum fm ''vtol_state'' ''VtolState'' [])"

definition normalizeExtendedSysState ::
  "(string \<Rightarrow> string option) \<Rightarrow> TelemetryEnvelope \<Rightarrow> goerror + Record" where
  "normalizeExtendedSysState = normalizeWith ''extended_sys_state'' extendedSysStateFields noDeviceTime"

definition gpsRawIntFields :: "string gomap \<Rightarrow> Fields" where
  "gpsRawIntFields fm =
     setWhen (optionalUint64 fm ''Yaw'') (\<lambda>v. v \<noteq> 0 \<and> v \<noteq> 2 ^ 16 - 1 \<and> v \<le> 36000)
       ''gps_yaw_deg'' (\<lambda>v. VFloat (scaled (int v) 100))
     (copyScaledUintAtMost fm ''gps_heading_accuracy_deg'' ''HdgAcc'' (2 ^ 32 - 2) (10 ^ 5)
     (copyScaledUintAtMost fm ''gps_speed_accuracy_mps'' ''VelAcc'' (2 ^ 32 - 2) 1000
     (copyScaledUintAtMost fm ''gps_vertical_accuracy_m'' ''VAcc'' (2 ^ 32 - 2) 1000
     (copyScaledUintAtMost fm ''gps_horizontal_accuracy_m'' ''HAcc'' (2 ^ 32 - 2) 1000
     (setWhen (optionalUint64 fm ''SatellitesVisible'') (\<lambda>v. v < 255) ''gps_satellites_visible'' VUint
     (copyScaledUintAtMost fm ''gps_course_over_ground_deg'' ''Cog'' 35999 100
     (copyScaledUintAtMost fm ''gps_groundspeed_mps'' ''Vel'' (2 ^ 16 - 2) 100
     (copyScaledUintAtMost fm ''gps_vdop'' ''Epv'' (2 ^ 16 - 2) 100
     (copyScaledUintAtMost fm ''gps_hdop'' ''Eph'' (2 ^ 16 - 2) 100
     (setScaled fm ''gps_altitude_ellipsoid_m'' ''AltEllipsoid'' inInt32 1000
     (setScaled fm ''gps_altitude_msl_m'' ''Alt'' inInt32 1000
     (setScaled fm ''gps_longitude_deg'' ''Lon'' (\<lambda>v. -1800000000 \<le> v \<and> v \<le> 1800000000) (10 ^ 7)
     (setScaled fm ''gps_latitude_deg'' ''Lat'' (\<lambda>v. -900000000 \<le> v \<and> v \<le> 900000000) (10 ^ 7)
     (copyEnum fm ''gps_fix_type'' ''FixType''
     (setWhen (optionalUint64 fm ''TimeUsec'') (\<lambda>v. True) ''device_time_usec'' VUint [])))))))))))))))"

definition usecDeviceTime :: "string gomap \<Rightarrow> DeviceTime option" where
  "usecDeviceTime fm = map_option
     (\<lambda>v. \<lparr>dt_Value = v, dt_Unit = ''microseconds'', dt_Basis = ''unknown''\<rparr>)
     (optionalUint64 fm ''TimeUsec'')"

definition normalizeGPSRawInt ::
  "(string \<Rightarrow> string option) \<Rightarrow> TelemetryEnvelope \<Rightarrow> goerror + Record" where
  "normalizeGPSRawInt = normalizeWith ''gps_raw_int'' gpsRawIntFields usecDeviceTime"

definition systemTimeFields :: "string gomap \<Rightarrow> Fields" where
  "systemTimeFields fm =
     copyUintAtMost fm ''device_boot_time_ms'' ''TimeBootMs'' (2 ^ 32 - 1)
     (setWhen (optionalUint64 fm ''TimeUnixUsec'') (\<lambda>v. v \<noteq> 0) ''device_unix_time_usec'' VUint [])"

definition normalizeSystemTime ::
  "(string \<Rightarrow> string option) \<Rightarrow> TelemetryEnvelope \<Rightarrow> goerror + Record" where
  "normalizeSystemTime = normalizeWith ''system_time'' systemTimeFields noDeviceTime"

section \<open>The registry\<close>

type_synonym normalizer = "(string \<Rightarrow> string option) \<Rightarrow> TelemetryEnvelope \<Rightarrow> goerror + Record"

definition RegisterNormalizer :: "string \<Rightarrow> normalizer \<Rightarrow> normalizer gomap \<Rightarrow> normalizer gomap" where
  "RegisterNormalizer messageName n registry =
     (let name = NormalizeMessageName messageName in
      if name \<noteq> [] \<and> name \<noteq> wildcardMessage then mput name n registry else registry)"

definition NewRegistry :: "normalizer gomap" where
  "NewRegistry = fold (\<lambda>(name, n). RegisterNormalizer name n)
     [(''global_position_int'', normalizeGlobalPositionInt), (''battery_status'', normalizeBatteryStatus),
      (''heartbeat'', normalizeHeartbeat), (''sys_status'', normalizeSysStatus),
      (''vfr_hud'', normalizeVFRHUD), (''extended_sys_state'', normalizeExtendedSysState),
      (''gps_raw_int'', normalizeGPSRawInt), (''system_time'', normalizeSystemTime)] []"

definition Lookup :: "normalizer gomap \<Rightarrow> string \<Rightarrow> normalizer option" where
  "Lookup registry messageName = mget registry (NormalizeMessageName messageName)"

end
