(* ===== verification/NormalizeProofs.thy ===== *)
theory NormalizeProofs
  imports Normalize Examples
begin

text \<open>
  Facts about normalization: frame identities are injective, stored floats are finite and correctly
  rounded, the writer's filter and the registry name the same messages, and every normalizer
  succeeds exactly on the envelopes it should, with a valid record attributed to the envelope.
\<close>

section \<open>Facts\<close>

subsection \<open>Frame identities\<close>

lemma digit_not_colon: "list_all isDigitASCII s \<Longrightarrow> CHR '':'' \<notin> set s"
  by (auto simp: list_all_iff isDigitASCII_def less_eq_char_def)

lemma colon_split:
  assumes "CHR '':'' \<notin> set a" "CHR '':'' \<notin> set b" "a @ CHR '':'' # u = b @ CHR '':'' # v"
  shows "a = b \<and> u = v"
  using assms by (induction a arbitrary: b) (case_tac b; auto)+

lemma showInt_no_colon: "CHR '':'' \<notin> set (showInt i)"
  using digit_not_colon [OF digits_showNat] by (simp add: showInt_def)

lemma showInt_inj: "showInt i = showInt j \<longleftrightarrow> i = j"
proof -
  have minus: "showNat n \<noteq> CHR ''-'' # s" for n s
    using digits_showNat [of n] by (cases "showNat n") (auto simp: isDigitASCII_def less_eq_char_def)
  then show ?thesis
    by (auto simp: showInt_def showNat_inj minus [symmetric] nat_eq_iff2 split: if_splits)
qed

lemma frameIDV1_eq_iff:
  "frameIDV1 a t n = frameIDV1 b u m \<longleftrightarrow> a = b \<and> t = u \<and> n = m"
proof
  assume "frameIDV1 a t n = frameIDV1 b u m"
  then have eq: "showNat (length a) @ CHR '':'' # (a @ CHR '':'' # showInt t @ CHR '':'' # showNat (unat n)) =
      showNat (length b) @ CHR '':'' # (b @ CHR '':'' # showInt u @ CHR '':'' # showNat (unat m))"
    by (simp add: frameIDV1_def)
  note s1 = colon_split [OF digit_not_colon [OF digits_showNat] digit_not_colon [OF digits_showNat] eq]
  then have "length a = length b" by (simp add: showNat_inj)
  with s1 have "a = b" and eq2: "showInt t @ CHR '':'' # showNat (unat n) = showInt u @ CHR '':'' # showNat (unat m)"
    by auto
  note s2 = colon_split [OF showInt_no_colon showInt_no_colon eq2]
  with \<open>a = b\<close> show "a = b \<and> t = u \<and> n = m"
    by (simp add: showInt_inj showNat_inj word_unat_eq_iff)
qed simp

lemma splitSign_minus: "splitSign (CHR ''-'' # s) = (True, s)"
  by (simp add: splitSign_def)

lemma less_nat_iff: "(k < nat i) = (int k < i)"
  by auto

lemma showInt_visible: "showInt i \<noteq> [] \<and> visible (hd (showInt i)) \<and> visible (last (showInt i))"
proof -
  have d: "isDigitASCII c \<Longrightarrow> visible c" for c
    by (simp add: isDigitASCII_def visible_def less_eq_char_def)
  have n: "visible (hd (showNat k))" "visible (last (showNat k))" for k
    using digits_showNat [of k] by (auto simp: list_all_iff intro!: d)
  show ?thesis by (simp add: showInt_def n) (simp add: visible_def)
qed

lemma trimSpace_showInt [simp]: "trimSpace (showInt i) = showInt i"
  using showInt_visible [of i] by (intro trimSpace_visible) blast+

lemma requiredInt64_showInt:
  assumes "- (2 ^ 63) \<le> i" "i < 2 ^ 63" "mget fm k = Some text" "trimSpace text = showInt i"
  shows "requiredInt64 fm k = Inr i"
  using assms(3,4) parseInt64_showInt [OF assms(1,2)] showInt_visible [of i]
  by (simp add: requiredInt64_def fieldText_def fieldString_def)

subsection \<open>Stored fields\<close>

text \<open>Named fields whose floats are finite: what \<open>Validate\<close> asks of a record's fields.\<close>

definition storable :: "fieldValue \<Rightarrow> bool" where
  "storable v \<longleftrightarrow> (case v of VFloat x \<Rightarrow> isFinite64 x | _ \<Rightarrow> True)"

definition fieldsOk :: "Fields \<Rightarrow> bool" where
  "fieldsOk fs \<longleftrightarrow> (\<forall>(name, v) \<in> set fs. name \<noteq> [] \<and> storable v)"

lemma storable_simps [simp]:
  "storable (VInt i)" "storable (VUint n)" "storable (VText t)" "storable (VHypot vx vy)"
  "storable (VFloat x) = isFinite64 x"
  by (simp_all add: storable_def)

lemma validateFields_None: "validateFields fs = None \<longleftrightarrow> fieldsOk fs"
  by (induction fs rule: validateFields.induct)
    (auto simp: fieldsOk_def storable_def split: fieldValue.splits)

lemma fieldsOk_Nil [simp]: "fieldsOk []"
  and fieldsOk_Cons [simp]: "fieldsOk ((n, v) # fs) \<longleftrightarrow> n \<noteq> [] \<and> storable v \<and> fieldsOk fs"
  by (auto simp: fieldsOk_def)

lemma fieldsOk_mput: "fieldsOk fs \<Longrightarrow> n \<noteq> [] \<Longrightarrow> storable v \<Longrightarrow> fieldsOk (mput n v fs)"
  using set_mput_subset [of n v fs] unfolding fieldsOk_def by fastforce

lemma fieldsOk_setWhen [inv_intros]:
  assumes "fieldsOk fs" "out \<noteq> []" "\<And>x. v = Some x \<Longrightarrow> P x \<Longrightarrow> storable (f x)"
  shows "fieldsOk (setWhen v P out f fs)"
  using assms by (auto simp: setWhen_def intro: fieldsOk_mput split: option.split)

lemma scaled_int_finite: "\<bar>v\<bar> < 2 ^ 64 \<Longrightarrow> 0 < d \<Longrightarrow> storable (VFloat (scaled v d))"
  by (simp add: scaled_finite)

lemma optionalInt64_bound: "optionalInt64 fm n = Some v \<Longrightarrow> - (2 ^ 63) \<le> v \<and> v < 2 ^ 63"
  by (auto simp: optionalInt64_def okValue_def dest: parseInt64_Inr split: option.splits sum.splits)

lemma optionalUint64_bound: "optionalUint64 fm n = Some v \<Longrightarrow> v < 2 ^ 64"
  by (auto simp: optionalUint64_def okValue_def dest: parseUint_Inr split: option.splits sum.splits)

lemma storable_optionalUint64:
  "optionalUint64 fm n = Some v \<Longrightarrow> 0 < d \<Longrightarrow> storable (VFloat (scaled (int v) d))"
  using optionalUint64_bound [of fm n v] by (intro scaled_int_finite) auto

lemma storable_optionalInt64:
  "optionalInt64 fm n = Some v \<Longrightarrow> 0 < d \<Longrightarrow> storable (VFloat (scaled v d))"
  using optionalInt64_bound [of fm n v] by (intro scaled_int_finite) auto

lemma fieldsOk_copyEnum [inv_intros]: "fieldsOk fs \<Longrightarrow> out \<noteq> [] \<Longrightarrow> fieldsOk (copyEnum fm out i fs)"
  unfolding copyEnum_def by (intro inv_intros) simp_all

lemma fieldsOk_copyUint [inv_intros]:
  "fieldsOk fs \<Longrightarrow> out \<noteq> [] \<Longrightarrow> fieldsOk (copyUintAtMost fm out i k fs)"
  unfolding copyUintAtMost_def by (intro inv_intros) simp_all

lemma withinFloat32_finite: "withinFloat32 x \<Longrightarrow> isFinite64 x"
  by (cases x) auto

lemma fieldsOk_copyFloat [inv_intros]: "fieldsOk fs \<Longrightarrow> out \<noteq> [] \<Longrightarrow> fieldsOk (copyFloat32 fm out i fs)"
  unfolding copyFloat32_def by (intro inv_intros) (simp_all add: withinFloat32_finite)

lemma fieldsOk_copyScaled [inv_intros]:
  "fieldsOk fs \<Longrightarrow> out \<noteq> [] \<Longrightarrow> 0 < d \<Longrightarrow> fieldsOk (copyScaledUintAtMost fm out i k d fs)"
  unfolding copyScaledUintAtMost_def by (intro inv_intros storable_optionalUint64) simp_all

lemma fieldsOk_setScaled [inv_intros]:
  "fieldsOk fs \<Longrightarrow> out \<noteq> [] \<Longrightarrow> 0 < d \<Longrightarrow> fieldsOk (setScaled fm out i P d fs)"
  unfolding setScaled_def by (intro inv_intros storable_optionalInt64) simp_all

lemma velocity_bound: "velocity fm n = Some v \<Longrightarrow> \<bar>v\<bar> < 2 ^ 64"
  by (auto simp: velocity_def inInt16_def split: option.splits if_splits)

lemma batteryVoltage_finite: "batteryVoltage fm = Some x \<Longrightarrow> isFinite64 x"
proof -
  have "\<bar>uint w\<bar> < 2 ^ 64" for w :: "64 word"
    using uint_lt2p [of w] by simp
  then show "batteryVoltage fm = Some x \<Longrightarrow> isFinite64 x"
    by (auto simp: batteryVoltage_def scaled_finite split: if_splits)
qed

lemma fieldsOk_heartbeat: "fieldsOk (heartbeatFields fm)"
  unfolding heartbeatFields_def by (intro inv_intros fieldsOk_Nil) simp_all

lemma fieldsOk_sysStatus: "fieldsOk (sysStatusFields fm)"
  unfolding sysStatusFields_def by (intro inv_intros fieldsOk_Nil) simp_all

lemma fieldsOk_vfrHud: "fieldsOk (vfrHudFields fm)"
  unfolding vfrHudFields_def by (intro inv_intros fieldsOk_Nil) simp_all

lemma fieldsOk_extendedSysState: "fieldsOk (extendedSysStateFields fm)"
  unfolding extendedSysStateFields_def by (intro inv_intros fieldsOk_Nil) simp_all

lemma fieldsOk_gpsRawInt: "fieldsOk (gpsRawIntFields fm)"
  unfolding gpsRawIntFields_def
  by (intro inv_intros fieldsOk_Nil storable_optionalUint64) simp_all

lemma fieldsOk_systemTime: "fieldsOk (systemTimeFields fm)"
  unfolding systemTimeFields_def by (intro inv_intros fieldsOk_Nil) simp_all

lemma fieldsOk_battery: "fieldsOk (batteryFields fm i)"
  unfolding batteryFields_def
  by (intro inv_intros) (simp_all add: batteryVoltage_finite)

lemma fieldsOk_position: "\<bar>lat\<bar> < 2 ^ 64 \<Longrightarrow> \<bar>lon\<bar> < 2 ^ 64 \<Longrightarrow> fieldsOk (positionFields fm lat lon)"
  unfolding positionFields_def Let_def
  by (intro inv_intros storable_optionalUint64)
    (auto simp: scaled_finite intro!: scaled_finite dest: velocity_bound split: prod.split)

subsection \<open>Records\<close>

text \<open>What the UUID package documents of the canonical text \<open>UUID.String\<close> writes: it is 36
  hexadecimal digits and hyphens, so it is not blank and has no space around it, and it parses to
  itself.\<close>

definition uuidLaw :: "(string \<Rightarrow> string option) \<Rightarrow> bool" where
  "uuidLaw uuidParse \<longleftrightarrow>
     (\<forall>s u. uuidParse s = Some u \<longrightarrow> u \<noteq> [] \<and> trimSpace u = u \<and> uuidParse u = Some u)"

lemma parseWALID_Inr:
  "uuidLaw uuidParse \<Longrightarrow> parseWALID uuidParse w = Inr u \<Longrightarrow>
    u \<noteq> [] \<and> trimSpace u = u \<and> parseWALID uuidParse u = Inr u"
  by (auto simp: uuidLaw_def parseWALID_def split: option.splits if_splits)

lemma frameIDV1_not_Nil [simp]: "frameIDV1 a t n \<noteq> []"
  by (simp add: frameIDV1_def)

text \<open>The attribution a record takes from its envelope.\<close>

definition attributed :: "TelemetryEnvelope \<Rightarrow> string \<Rightarrow> Record \<Rightarrow> bool" where
  "attributed env name r \<longleftrightarrow>
     id_AgentID (rec_Identity r) = env_AgentID env \<and> id_RelayID (rec_Identity r) = env_RelayID env \<and>
     id_SessionID (rec_Identity r) = env_SessionID env \<and>
     id_AircraftID (rec_Identity r) = env_AircraftID env \<and>
     id_OperatorID (rec_Identity r) = env_OperatorID env \<and>
     id_FlightID (rec_Identity r) = env_FlightID env \<and>
     id_IntentID (rec_Identity r) = env_IntentID env \<and>
     id_IntentVersion (rec_Identity r) = env_IntentVersion env \<and>
     src_Sequence (rec_Source r) = env_WALSequence env \<and>
     src_MessageID (rec_Source r) = env_MsgID env \<and> rec_MessageName r = name \<and>
     rec_SchemaVersion r = SchemaVersion \<and>
     tm_EventTime (rec_Timing r) = env_TimestampAgent env \<and>
     tm_RelayTime (rec_Timing r) = env_TimestampRelay env \<and>
     (\<exists>t. env_TimestampAgent env = Some t \<and>
        src_FrameID (rec_Source r) = frameIDV1 (env_AgentID env) t (env_WALSequence env))"

text \<open>When the base of a record can be built.\<close>

definition baseReady :: "(string \<Rightarrow> string option) \<Rightarrow> TelemetryEnvelope \<Rightarrow> bool" where
  "baseReady uuidParse env \<longleftrightarrow> env_TimestampRelay env \<noteq> None \<and> env_TimestampAgent env \<noteq> None \<and>
     trimSpace (env_AgentID env) \<noteq> [] \<and> trimSpace (env_WALID env) \<noteq> [] \<and>
     (\<exists>u. parseWALID uuidParse (trimSpace (env_WALID env)) = Inr u)"

lemma baseRecord_ready: "(\<exists>r. baseRecord uuidParse env name = Inr r) \<longleftrightarrow> baseReady uuidParse env"
  by (cases "env_TimestampRelay env"; cases "env_TimestampAgent env";
      cases "parseWALID uuidParse (trimSpace (env_WALID env))")
    (simp_all add: baseRecord_def baseReady_def Let_def)

lemma baseRecord_Inr:
  assumes "baseRecord uuidParse env name = Inr r" "uuidLaw uuidParse"
  shows "attributed env name r \<and> rec_SchemaVersion r = 1 \<and> rec_Fields r = [] \<and>
    src_Dialect (rec_Source r) \<noteq> [] \<and> src_WALID (rec_Source r) \<noteq> [] \<and>
    parseWALID uuidParse (src_WALID (rec_Source r)) = Inr (src_WALID (rec_Source r)) \<and>
    id_AgentID (rec_Identity r) \<noteq> [] \<and> tm_TimestampSource (rec_Timing r) = TimestampSourceAgent"
  using assms parseWALID_Inr [OF assms(2)]
  by (auto simp: baseRecord_def attributed_def SchemaVersion_def Let_def split: option.splits if_splits sum.splits)

lemma sameWALID [simp]:
  "r\<lparr>rec_Source := (rec_Source r)\<lparr>src_WALID := src_WALID (rec_Source r)\<rparr>\<rparr> = r"
  by (cases r; cases "rec_Source r") simp

text \<open>The outcome of \<open>validated\<close> on a base record.\<close>

lemma validated_base:
  assumes "baseRecord uuidParse env name = Inr r" "uuidLaw uuidParse" "name \<noteq> []"
    "env_RelayID env \<noteq> []" "env_SessionID env \<noteq> []" "fieldsOk fs"
  shows "validated uuidParse r fs dt =
    Inr (r\<lparr>rec_Fields := fs, rec_Timing := (rec_Timing r)\<lparr>tm_DeviceTime := dt\<rparr>\<rparr>)"
proof -
  note base = baseRecord_Inr [OF assms(1,2)]
  have ready: "baseReady uuidParse env" using assms(1) baseRecord_ready by blast
  have vf: "validateFields fs = None" using assms(6) by (simp add: validateFields_None)
  let ?r = "r\<lparr>rec_Fields := fs, rec_Timing := (rec_Timing r)\<lparr>tm_DeviceTime := dt\<rparr>\<rparr>"
  have "Validate uuidParse ?r = Inr (?r\<lparr>rec_Source := (rec_Source ?r)\<lparr>src_WALID := src_WALID (rec_Source ?r)\<rparr>\<rparr>)"
    using base assms(3-5) ready
    by (simp add: Validate_def attributed_def vf baseReady_def TimestampSourceAgent_def Let_def del: sameWALID)
      (clarsimp simp del: sameWALID)
  then show ?thesis by (simp only: validated_def sameWALID)
qed

lemma Validate_Inr:
  assumes "Validate uuidParse r = Inr r'" "uuidLaw uuidParse"
  shows "Validate uuidParse r' = Inr r' \<and> fieldsOk (rec_Fields r') \<and>
    rec_Fields r' = rec_Fields r \<and> rec_Identity r' = rec_Identity r \<and>
    rec_Timing r' = rec_Timing r \<and> rec_MessageName r' = rec_MessageName r \<and>
    rec_SchemaVersion r' = rec_SchemaVersion r \<and>
    (\<exists>w. rec_Source r' = (rec_Source r)\<lparr>src_WALID := w\<rparr>)"
proof -
  obtain w where w: "(if src_WALID (rec_Source r) = [] then Inr [] else parseWALID uuidParse (src_WALID (rec_Source r))) = Inr w"
    "r' = r\<lparr>rec_Source := (rec_Source r)\<lparr>src_WALID := w\<rparr>\<rparr>" "validateFields (rec_Fields r) = None"
    using assms(1) by (auto simp: Validate_def Let_def split: if_splits sum.splits option.splits)
  then have "w = [] \<or> parseWALID uuidParse w = Inr w"
    using parseWALID_Inr [OF assms(2)] by (auto split: if_splits)
  then show ?thesis
    using assms(1) w validateFields_None [of "rec_Fields r"]
    by (auto simp: Validate_def Let_def split: if_splits sum.splits option.splits)
qed

subsection \<open>The registry\<close>

definition supportedMessages :: "string list" where
  "supportedMessages = [''global_position_int'', ''battery_status'', ''heartbeat'', ''sys_status'',
     ''vfr_hud'', ''extended_sys_state'', ''gps_raw_int'', ''system_time'']"

lemma supported_canonical: "map NormalizeMessageName supportedMessages = supportedMessages"
  by code_simp

lemma telemetryFilter_canonical:
  "set (map NormalizeMessageName (Include telemetryMessageFilter)) = set supportedMessages"
  by code_simp

lemma NewRegistry_eq:
  "NewRegistry = [(''global_position_int'', normalizeGlobalPositionInt),
     (''battery_status'', normalizeBatteryStatus), (''heartbeat'', normalizeHeartbeat),
     (''sys_status'', normalizeSysStatus), (''vfr_hud'', normalizeVFRHUD),
     (''extended_sys_state'', normalizeExtendedSysState), (''gps_raw_int'', normalizeGPSRawInt),
     (''system_time'', normalizeSystemTime)]"
  using supported_canonical
  by (simp add: NewRegistry_def RegisterNormalizer_def supportedMessages_def wildcardMessage_def)

lemma Lookup_supported: "Lookup NewRegistry n \<noteq> None \<longleftrightarrow> NormalizeMessageName n \<in> set supportedMessages"
  by (auto simp: Lookup_def NewRegistry_eq supportedMessages_def)

lemma entryMatches_telemetry:
  "(\<exists>m \<in> set (Include telemetryMessageFilter). entryMatches m n) \<longleftrightarrow>
    NormalizeMessageName n \<in> set supportedMessages"
proof -
  have "(\<exists>m \<in> set (Include telemetryMessageFilter). entryMatches m n) \<longleftrightarrow>
      (\<exists>c \<in> set (map NormalizeMessageName (Include telemetryMessageFilter)).
        c \<noteq> [] \<and> (c = wildcardMessage \<or> c = NormalizeMessageName n))"
    by (simp add: entryMatches_def)
  also have "\<dots> \<longleftrightarrow> NormalizeMessageName n \<in> set supportedMessages"
    unfolding telemetryFilter_canonical by (auto simp: supportedMessages_def wildcardMessage_def)
  finally show ?thesis .
qed

lemma tf_exclude: "Exclude telemetryMessageFilter = []"
  by (simp add: telemetryMessageFilter_def)

text \<open>What a message asks of its fields beyond the base record.\<close>

definition coordinatesOk :: "string gomap \<Rightarrow> bool" where
  "coordinatesOk fm \<longleftrightarrow> (case (requiredInt64 fm ''Lat'', requiredInt64 fm ''Lon'') of
     (Inr lat, Inr lon) \<Rightarrow> \<bar>lat\<bar> \<le> 900000000 \<and> \<bar>lon\<bar> \<le> 1800000000 | _ \<Rightarrow> False)"

definition batteryIdOk :: "string gomap \<Rightarrow> bool" where
  "batteryIdOk fm \<longleftrightarrow>
     (case requiredInt64 fm ''Id'' of Inl e \<Rightarrow> False | Inr i \<Rightarrow> 0 \<le> i \<and> i \<le> 255)"

definition requiredFields :: "string \<Rightarrow> string gomap \<Rightarrow> bool" where
  "requiredFields name fm \<longleftrightarrow> (name = ''global_position_int'' \<longrightarrow> coordinatesOk fm) \<and>
     (name = ''battery_status'' \<longrightarrow> batteryIdOk fm)"

text \<open>Every normalizer: it succeeds exactly when the base and the required fields are there, and its
  record is valid and attributed to the envelope.\<close>

definition normalizerOk :: "(string \<Rightarrow> string option) \<Rightarrow> TelemetryEnvelope \<Rightarrow> string \<Rightarrow> normalizer \<Rightarrow> bool" where
  "normalizerOk uuidParse env name n \<longleftrightarrow>
     ((\<exists>r. n uuidParse env = Inr r) \<longleftrightarrow> baseReady uuidParse env \<and> requiredFields name (env_Fields env)) \<and>
     (\<forall>r. n uuidParse env = Inr r \<longrightarrow> Validate uuidParse r = Inr r \<and> attributed env name r)"

lemma validated_attributed:
  assumes "baseRecord uuidParse env name = Inr b" "uuidLaw uuidParse"
    "validated uuidParse b fs dt = Inr r"
  shows "Validate uuidParse r = Inr r \<and> attributed env name r"
proof -
  note V = Validate_Inr [OF assms(3) [unfolded validated_def] assms(2)]
  then obtain w where "rec_Source r = (rec_Source b)\<lparr>src_WALID := w\<rparr>" by auto
  with V baseRecord_Inr [OF assms(1,2)] show ?thesis by (auto simp: attributed_def)
qed

lemma validated_ok:
  assumes "baseRecord uuidParse env name = Inr b" "uuidLaw uuidParse" "name \<noteq> []"
    "env_RelayID env \<noteq> []" "env_SessionID env \<noteq> []" "fieldsOk fs"
  obtains r where "validated uuidParse b fs dt = Inr r" "Validate uuidParse r = Inr r"
    "attributed env name r"
  using validated_base [OF assms] validated_attributed [OF assms(1,2)] by blast

lemma normalizeWith_ok:
  assumes "uuidLaw uuidParse" "env_RelayID env \<noteq> []" "env_SessionID env \<noteq> []" "name \<noteq> []"
    "\<And>fm. fieldsOk (fs fm)" "\<And>fm. requiredFields name fm"
  shows "normalizerOk uuidParse env name (normalizeWith name fs dt)"
proof (cases "baseRecord uuidParse env name")
  case (Inl e)
  then show ?thesis
    using baseRecord_ready [of uuidParse env name] by (simp add: normalizerOk_def normalizeWith_def)
next
  case (Inr b)
  then have "baseReady uuidParse env" using baseRecord_ready by blast
  moreover obtain r where "validated uuidParse b (fs (env_Fields env)) (dt (env_Fields env)) = Inr r"
    "Validate uuidParse r = Inr r" "attributed env name r"
    using validated_ok [OF Inr assms(1,4,2,3) assms(5)] .
  ultimately show ?thesis using Inr assms(6) by (simp add: normalizerOk_def normalizeWith_def)
qed

lemma position_ok:
  assumes "uuidLaw uuidParse" "env_RelayID env \<noteq> []" "env_SessionID env \<noteq> []"
  shows "normalizerOk uuidParse env ''global_position_int'' normalizeGlobalPositionInt"
proof (cases "baseRecord uuidParse env ''global_position_int''")
  case (Inl e)
  then show ?thesis
    using baseRecord_ready [of uuidParse env "''global_position_int''"]
    by (simp add: normalizerOk_def normalizeGlobalPositionInt_def)
next
  case (Inr b)
  then have ready: "baseReady uuidParse env" using baseRecord_ready by blast
  let ?fm = "env_Fields env"
  show ?thesis
  proof (cases "coordinatesOk ?fm")
    case False
    then show ?thesis
      using Inr by (auto simp: normalizerOk_def normalizeGlobalPositionInt_def requiredFields_def
        coordinatesOk_def abs_le_iff split: sum.splits if_splits)
  next
    case True
    then obtain lat lon where c: "requiredInt64 ?fm ''Lat'' = Inr lat" "requiredInt64 ?fm ''Lon'' = Inr lon"
      "\<bar>lat\<bar> \<le> 900000000" "\<bar>lon\<bar> \<le> 1800000000" by (auto simp: coordinatesOk_def split: sum.splits)
    obtain r where r: "validated uuidParse b (positionFields ?fm lat lon) (bootDeviceTime ?fm) = Inr r"
      "Validate uuidParse r = Inr r" "attributed env ''global_position_int'' r"
      by (rule validated_ok [OF Inr assms(1) _ assms(2,3), where fs = "positionFields ?fm lat lon"])
        (use c in \<open>simp_all add: fieldsOk_position\<close>)
    show ?thesis using Inr ready c r True
      by (simp add: normalizerOk_def normalizeGlobalPositionInt_def requiredFields_def abs_le_iff)
  qed
qed

lemma battery_ok:
  assumes "uuidLaw uuidParse" "env_RelayID env \<noteq> []" "env_SessionID env \<noteq> []"
  shows "normalizerOk uuidParse env ''battery_status'' normalizeBatteryStatus"
proof (cases "baseRecord uuidParse env ''battery_status''")
  case (Inl e)
  then show ?thesis
    using baseRecord_ready [of uuidParse env "''battery_status''"]
    by (simp add: normalizerOk_def normalizeBatteryStatus_def)
next
  case (Inr b)
  then have ready: "baseReady uuidParse env" using baseRecord_ready by blast
  let ?fm = "env_Fields env"
  show ?thesis
  proof (cases "batteryIdOk ?fm")
    case False
    then show ?thesis
      using Inr by (auto simp: normalizerOk_def normalizeBatteryStatus_def requiredFields_def
        batteryIdOk_def split: sum.splits if_splits)
  next
    case True
    then obtain i where c: "requiredInt64 ?fm ''Id'' = Inr i" "0 \<le> i" "i \<le> 255"
      by (auto simp: batteryIdOk_def split: sum.splits)
    obtain r where r: "validated uuidParse b (batteryFields ?fm i) None = Inr r"
      "Validate uuidParse r = Inr r" "attributed env ''battery_status'' r"
      by (rule validated_ok [OF Inr assms(1) _ assms(2,3) fieldsOk_battery]) simp_all
    show ?thesis using Inr ready c r True
      by (simp add: normalizerOk_def normalizeBatteryStatus_def requiredFields_def)
  qed
qed

lemma registry_ok:
  assumes "uuidLaw uuidParse" "env_RelayID env \<noteq> []" "env_SessionID env \<noteq> []"
    "Lookup NewRegistry m = Some n"
  shows "normalizerOk uuidParse env (NormalizeMessageName m) n"
proof -
  note with' = normalizeWith_ok [OF assms(1-3)]
  have "normalizerOk uuidParse env ''heartbeat'' normalizeHeartbeat"
    "normalizerOk uuidParse env ''sys_status'' normalizeSysStatus"
    "normalizerOk uuidParse env ''vfr_hud'' normalizeVFRHUD"
    "normalizerOk uuidParse env ''extended_sys_state'' normalizeExtendedSysState"
    "normalizerOk uuidParse env ''gps_raw_int'' normalizeGPSRawInt"
    "normalizerOk uuidParse env ''system_time'' normalizeSystemTime"
    unfolding normalizeHeartbeat_def normalizeSysStatus_def normalizeVFRHUD_def
      normalizeExtendedSysState_def normalizeGPSRawInt_def normalizeSystemTime_def
    by (intro with' fieldsOk_heartbeat fieldsOk_sysStatus fieldsOk_vfrHud fieldsOk_extendedSysState
        fieldsOk_gpsRawInt fieldsOk_systemTime; simp add: requiredFields_def)+
  then show ?thesis
    using assms(4) position_ok [OF assms(1-3)] battery_ok [OF assms(1-3)]
    by (auto simp: Lookup_def NewRegistry_eq split: if_splits)
qed
subsection \<open>Rounding of quotients\<close>

lemma quot64_sign: "quot64 sg n d = Fin64 s m e \<Longrightarrow> s = sg"
proof -
  define q where "q = max (- 1074) (quotExponent n d - 52)"
  define m1 where "m1 = roundDiv (n * 2 ^ nat (- q)) (d * 2 ^ nat q)"
  assume "quot64 sg n d = Fin64 s m e"
  moreover have "quot64 sg n d = (let (m2, q2) = (if m1 = 2 ^ 53 then (2 ^ 52, q + 1) else (m1, q))
      in if n = 0 then Fin64 sg 0 (- 1074) else if q2 > 971 then Inf64 sg else Fin64 sg m2 q2)"
    by (simp only: quot64_def Let_def q_def m1_def)
  ultimately show ?thesis by (cases "m1 = 2 ^ 53"; cases "n = 0"; cases "q > 970"; cases "q > 971") simp_all
qed

lemma quot64_near:
  assumes "quot64 sg n d = Fin64 s m e" "n > 0" "d > 0"
  shows "\<bar>2 * (int m * int d * 2 ^ nat e) - 2 * (int n * 2 ^ nat (- e))\<bar> \<le> int d * 2 ^ nat e"
proof -
  define q where "q = max (- 1074) (quotExponent n d - 52)"
  define N where "N = n * 2 ^ nat (- q)"
  define D where "D = d * 2 ^ nat q"
  define m1 where "m1 = roundDiv N D"
  have near: "\<bar>2 * int m1 * int D - 2 * int N\<bar> \<le> int D"
    unfolding m1_def by (rule roundDiv_near) (simp add: D_def assms(3))
  have Fin: "(if m1 = 2 ^ 53 then (2 ^ 52, q + 1) else (m1, q)) = (m, e)"
    using assms(1,2) unfolding quot64_def Let_def q_def [symmetric] N_def [symmetric] D_def [symmetric]
      m1_def [symmetric] by (auto split: if_splits)
  show ?thesis
  proof (cases "m1 = 2 ^ 53")
    case False
    with Fin have "m = m1" "e = q" by simp_all
    with near show ?thesis by (simp add: N_def D_def algebra_simps)
  next
    case True
    with Fin have m: "m = 2 ^ 52" and e: "e = q + 1" by simp_all
    show ?thesis
    proof (cases "q \<ge> 0")
      case True
      then have "nat e = Suc (nat q)" "nat (- e) = 0" "nat (- q) = 0" by (simp_all add: e)
      with near \<open>m1 = 2 ^ 53\<close> m show ?thesis by (simp add: N_def D_def algebra_simps)
    next
      case False
      then have ee: "nat e = 0" "nat q = 0" "nat (- q) = Suc (nat (- e))" by (simp_all add: e)
      then have "int N = 2 * (int n * 2 ^ nat (- e))" "int D = int d" by (simp_all add: N_def D_def)
      with near \<open>m1 = 2 ^ 53\<close> m ee show ?thesis by simp
    qed
  qed
qed

section \<open>Properties\<close>

text \<open>Two frames get the same frame identity exactly when they come from the same Agent, at the
  same capture instant, with the same WAL sequence number: Agent IDs may hold any characters, the
  separators included, without two sources colliding.\<close>

theorem frame_identity_injective:
  "frameIDV1 a t n = frameIDV1 b u m \<longleftrightarrow> a = b \<and> t = u \<and> n = m"
  by (rule frameIDV1_eq_iff)

text \<open>C40: The filter the Relay puts before the normalized-telemetry writer lets a message through
  exactly when the writer's registry has a normalizer for it: no supported message is filtered out
  and none that reaches the writer is dropped as unsupported.\<close>

theorem writer_filter_matches_registry:
  "Allows telemetryMessageFilter name \<longleftrightarrow> (\<exists>n. Lookup NewRegistry name = Some n)"
  using Lookup_supported [of name]
    tf_exclude
  by (simp only: Allows_iff entryMatches_telemetry) simp

text \<open>Storing the decimal text of an integer in a frame's field and reading the field as a
  required \<open>int64\<close> gives that integer when 64 bits hold it, and an error naming the field
  otherwise: no number is silently wrapped or truncated.\<close>

theorem required_int64_roundtrip:
  "requiredInt64 (mput k (showInt i) fm) k =
     (if - (2 ^ 63) \<le> i \<and> i < 2 ^ 63 then Inr i
      else Inl (OtherError (''parse required field '' @ k @ '': strconv.ParseInt: parsing '' @
        [CHR 0x22] @ showInt i @ [CHR 0x22] @ '': value out of range'')))"
proof (cases "- (2 ^ 63) \<le> i \<and> i < 2 ^ 63")
  case True
  then show ?thesis
    using requiredInt64_showInt [of i "mput k (showInt i) fm" k "showInt i"] by (simp add: mget_mput)
next
  case False
  then have "parseInt64 (showInt i) = Inl ErrRange"
    by (cases "i < 0") (simp_all add: parseInt64_def showInt_def splitSign_digits splitSign_minus less_nat_iff)
  with False show ?thesis
    using showInt_visible [of i]
    by (auto simp: requiredInt64_def fieldText_def fieldString_def mget_mput)
qed


definition exampleUUID :: string where
  "exampleUUID = ''6ba7b810-9dad-41d1-80b4-00c04fd430c8''"

definition exampleParse :: "string \<Rightarrow> string option" where
  "exampleParse s = (if s = exampleUUID then Some exampleUUID else None)"

lemma exampleParse_law: "uuidLaw exampleParse"
  by (simp add: uuidLaw_def exampleParse_def exampleUUID_def trimSpace_visible visible_def)


text \<open>C16: From the stream to the record: on a Relay in order, for a stream whose identity was
  authenticated, the envelope of a frame the gateway admits meets every condition of its
  normalizer except the message's own required fields; the record then names the stream's Agent
  and session.\<close>

theorem admitted_frame_normalizes:
  assumes "uuidLaw uuidParse" "relayOk r" "RelayID r \<noteq> []"
    and stream: "streamIdentity r meta = Inr (aid, sid)" "lookupStreamSession r aid sid = Some p"
    and admitted: "admitTelemetryFrame uuidParse r aid p frame = AdmitFrame u"
    and normalizer: "Lookup NewRegistry (fr_MsgName frame) = Some n"
  shows "\<exists>ack env r'. processFrame uuidParse r aid p frame raw errs now = (ack, Some env, r') \<and>
    ((\<exists>rec. n uuidParse env = Inr rec) \<longleftrightarrow>
       requiredFields (NormalizeMessageName (fr_MsgName frame)) (fr_Fields frame)) \<and>
    (\<forall>rec. n uuidParse env = Inr rec \<longrightarrow> id_AgentID (rec_Identity rec) = aid \<and>
       id_SessionID (rec_Identity rec) = sid)"
proof -
  have grpc: "mget (grpcSessions r) aid = Some p" "SessionID (sessHeap r p) = sid"
    using stream(2) by (auto simp: lookupStreamSession_def split: option.splits if_splits)
  have ids: "agentID (sessHeap r p) = aid"
    using relayOkD(3) [OF assms(2) grpc(1)] by simp
  have aid: "aid \<noteq> [] \<and> trimSpace aid = aid \<and> sid \<noteq> []"
    using stream(1) by (auto simp: streamIdentity_def Let_def split: option.splits list.splits if_splits)
  have adm: "uuidParse (trimSpace (fr_WalId frame)) = Some u" "u \<noteq> nilUUID" "fr_SentAtUnixNs frame > 0"
    using admitted by (auto simp: admitTelemetryFrame_def Let_def split: if_splits option.splits)
  then have u: "u \<noteq> []" "trimSpace u = u" "uuidParse u = Some u"
    using assms(1) by (auto simp: uuidLaw_def)
  define r1 where "r1 = updSession p (touchHeartbeat now) r"
  define env where "env = buildTelemetryFrameEnvelope r1 (sessHeap r1 p) (frame\<lparr>fr_WalId := u\<rparr>) raw now"
  have s1: "agentID (sessHeap r1 p) = aid" "SessionID (sessHeap r1 p) = sid" "RelayID r1 = RelayID r"
    by (simp_all add: r1_def updSession_def touchHeartbeat_def ids grpc)
  have env: "env_AgentID env = aid" "env_SessionID env = sid" "env_RelayID env = RelayID r"
    "env_WALID env = u" "env_TimestampRelay env = Some now" "env_TimestampAgent env = Some (fr_SentAtUnixNs frame)"
    "env_Fields env = fr_Fields frame"
    using s1 adm(3) by (simp_all add: env_def buildTelemetryFrameEnvelope_def Let_def)
  have ready: "baseReady uuidParse env"
    using aid u adm(2) by (simp add: baseReady_def env parseWALID_def)
  have run: "processFrame uuidParse r aid p frame raw errs now =
      (frameAck frame (AdmitFrame u) (handleTelemetryMessage errs), Some env, r1)"
    by (simp add: processFrame_def admitted Let_def env_def r1_def)
  have ok: "normalizerOk uuidParse env (NormalizeMessageName (fr_MsgName frame)) n"
    using registry_ok [OF assms(1) _ _ normalizer, of env] env aid assms(3) by simp
  then have spec: "(\<exists>rec. n uuidParse env = Inr rec) \<longleftrightarrow>
      requiredFields (NormalizeMessageName (fr_MsgName frame)) (fr_Fields frame)"
    using ready env by (simp add: normalizerOk_def)
  have att: "id_AgentID (rec_Identity rec) = aid \<and> id_SessionID (rec_Identity rec) = sid"
    if "n uuidParse env = Inr rec" for rec
    using ok that env by (simp add: normalizerOk_def attributed_def)
  show ?thesis using run spec att by blast
qed

definition exampleFrame :: TelemetryFrame where
  "exampleFrame = \<lparr>fr_AgentId = ''a1'', fr_SessionId = ''s1'', fr_WalId = exampleUUID, fr_Seq = 7,
     fr_MsgName = ''Heartbeat'', fr_MsgId = 0, fr_Dialect = ''common'', fr_SentAtUnixNs = 5,
     fr_DeviceTimestampSec = 0, fr_Fields = [(''CustomMode'', ''4'')]\<rparr>"

definition exampleMetadata :: metadata where
  "exampleMetadata = [(''aero-arc-agent-id'', [''a1'']), (''aero-arc-session-id'', [''s1''])]"

lemma example_stream:
  "streamIdentity exampleRelay (Some exampleMetadata) = Inr (''a1'', ''s1'')"
  "lookupStreamSession exampleRelay ''a1'' ''s1'' = Some 0"
  by (simp_all add: streamIdentity_def exampleMetadata_def metaGet_def trimSpace_visible visible_def
      authenticateAgent_def lookupStreamSession_def)

lemma example_admitted:
  "admitTelemetryFrame exampleParse exampleRelay ''a1'' 0 exampleFrame = AdmitFrame exampleUUID"
  by (simp add: admitTelemetryFrame_def exampleFrame_def exampleUUID_def exampleParse_def nilUUID_def
      trimSpace_visible visible_def requiresOperationContextReconciliation_def)

lemma Heartbeat_canonical: "NormalizeMessageName ''Heartbeat'' = ''heartbeat''"
  by code_simp

lemma admitted_frame_normalizes_witness:
  "\<exists>env rec. normalizeHeartbeat exampleParse env = Inr rec \<and> id_AgentID (rec_Identity rec) = ''a1''"
proof -
  have look: "Lookup NewRegistry (fr_MsgName exampleFrame) = Some normalizeHeartbeat"
    by (simp add: Lookup_def NewRegistry_eq exampleFrame_def Heartbeat_canonical)
  have "RelayID exampleRelay \<noteq> []" by simp
  note admitted_frame_normalizes [OF exampleParse_law exampleRelay_ok this example_stream example_admitted look]
  moreover have "requiredFields (NormalizeMessageName (fr_MsgName exampleFrame)) fm" for fm
    by (simp add: requiredFields_def exampleFrame_def Heartbeat_canonical)
  ultimately show ?thesis by blast
qed

lemma mget_setWhen: "out \<noteq> k \<Longrightarrow> mget (setWhen v P out f fs) k = mget fs k"
  by (simp add: setWhen_def mget_mput split: option.split)

lemma latitude_position:
  "mget (positionFields fm lat lon) ''latitude_deg'' = Some (VFloat (scaled lat (10 ^ 7)))"
  by (simp add: positionFields_def Let_def setScaled_def copyUintAtMost_def mget_setWhen)

text \<open>The latitude a position record stores is the correctly rounded binary64 quotient of the
  frame's integer by ten million: it is finite, has its sign, and lies within half a unit in the
  last place.\<close>

theorem latitude_correctly_rounded:
  assumes "normalizeGlobalPositionInt uuidParse env = Inr r"
    and "requiredInt64 (env_Fields env) ''Lat'' = Inr lat" "lat \<noteq> 0"
  shows "\<exists>sg m e. mget (rec_Fields r) ''latitude_deg'' = Some (VFloat (Fin64 sg m e)) \<and> sg = (lat < 0) \<and>
    \<bar>2 * (int m * 10 ^ 7 * 2 ^ nat e) - 2 * (\<bar>lat\<bar> * 2 ^ nat (- e))\<bar> \<le> 10 ^ 7 * 2 ^ nat e"
proof -
  obtain b lon where v: "validated uuidParse b (positionFields (env_Fields env) lat lon)
      (bootDeviceTime (env_Fields env)) = Inr r" "\<bar>lat\<bar> \<le> 900000000"
    using assms(1,2) by (auto simp: normalizeGlobalPositionInt_def abs_le_iff split: sum.splits if_splits)
  then have "rec_Fields r = positionFields (env_Fields env) lat lon"
    by (auto simp: validated_def Validate_def Let_def split: if_splits sum.splits option.splits)
  then have field: "mget (rec_Fields r) ''latitude_deg'' = Some (VFloat (scaled lat (10 ^ 7)))"
    by (simp only: latitude_position)
  have "isFinite64 (scaled lat (10 ^ 7))" using v(2) by (intro scaled_finite) simp_all
  then obtain sg m e where x: "scaled lat (10 ^ 7) = Fin64 sg m e" by (auto simp: isFinite64_iff)
  have sg: "sg = (lat < 0)"
    using x unfolding scaled_def by (rule quot64_sign)
  have "\<bar>2 * (int m * int (10 ^ 7) * 2 ^ nat e) - 2 * (int (nat \<bar>lat\<bar>) * 2 ^ nat (- e))\<bar>
      \<le> int (10 ^ 7) * 2 ^ nat e"
    using assms(3) by (intro quot64_near [OF x [unfolded scaled_def]]) simp_all
  with field x sg show ?thesis by simp
qed

lemma latitude_correctly_rounded_witness:
  "\<exists>r sg m e. normalizeGlobalPositionInt exampleParse (exampleEnvelope\<lparr>env_WALID := exampleUUID,
      env_Fields := [(''Lat'', ''-15''), (''Lon'', ''2'')]\<rparr>) = Inr r \<and>
    mget (rec_Fields r) ''latitude_deg'' = Some (VFloat (Fin64 sg m e)) \<and> sg"
proof -
  let ?env = "exampleEnvelope\<lparr>env_WALID := exampleUUID, env_Fields := [(''Lat'', ''-15''), (''Lon'', ''2'')]\<rparr>"
  have lat: "requiredInt64 (env_Fields ?env) ''Lat'' = Inr (-15)"
    and lon: "requiredInt64 (env_Fields ?env) ''Lon'' = Inr 2"
    by (simp_all add: requiredInt64_def fieldText_def fieldString_def trimSpace_visible visible_def
        parseInt64_def splitSign_def isDigitASCII_def less_eq_char_def decimalValue_def digitVal_def)
  have "normalizerOk exampleParse ?env ''global_position_int'' normalizeGlobalPositionInt"
    by (intro position_ok exampleParse_law) (simp_all add: exampleEnvelope_def)
  moreover have "baseReady exampleParse ?env"
    by (simp add: baseReady_def exampleEnvelope_def exampleUUID_def parseWALID_def exampleParse_def
        trimSpace_visible visible_def nilUUID_def)
  moreover have "requiredFields ''global_position_int'' (env_Fields ?env)"
    unfolding requiredFields_def coordinatesOk_def lat lon by simp
  ultimately obtain r where r: "normalizeGlobalPositionInt exampleParse ?env = Inr r"
    unfolding normalizerOk_def by blast
  show ?thesis using r latitude_correctly_rounded [OF r lat] by auto
qed

end
