(* ===== verification/RelayProps.thy ===== *)
theory RelayProps
  imports Runs NormalizeProofs
begin

text \<open>
  Properties of registration, of the retained contexts, of telemetry frames and of the writes to
  an Agent's stream.
\<close>

section \<open>Registration and the operation context\<close>



text \<open>The context retained for a disconnected Agent is handed out at most once and only within
  five minutes: after it was retained, the Agent's next authenticated registration takes it exactly if
  fewer than five minutes have passed; once taken, and until it is retained again, no later
  registration gets one, whatever is retained and taken for other Agents in between.\<close>

theorem context_handed_out_once:
  assumes "cacheOk m" "\<forall>op \<in> set ops. ctxCache.about op \<noteq> [] \<and> (ctxCache.isRetain op \<longrightarrow> ctxCache.about op \<noteq> k)"
  shows "fst (takeDisconnectedOperationContextLocked k later
        (retainDisconnectedOperationContextLocked k snap now m)) =
      (if later - now < 5 * minute then Some snap else None) \<and>
    fst (takeDisconnectedOperationContextLocked k later
      (fold ctxCache.runOp ops (snd (takeDisconnectedOperationContextLocked k now m)))) = None"
  using ctxCache.take_retained [OF assms(1)] ctxCache.taken_once [OF assms]
  by (simp add: disconnectedOperationContextTTL_def)

definition exampleSnapshot :: operationContextSnapshot where
  "exampleSnapshot = \<lparr>snap_aircraftID = ''ac'', snap_flightID = ''f1'', snap_intentID = ''i1'',
     snap_intentVersion = 3, snap_unreconciled = False, snap_emptyContextCommandID = []\<rparr>"

lemma context_handed_out_once_witness:
  "fst (takeDisconnectedOperationContextLocked ''a1'' 6
     (retainDisconnectedOperationContextLocked ''a1'' exampleSnapshot 5
       [(''a1'', \<lparr>ret_snapshot = exampleSnapshot, ret_expiresAt = 9\<rparr>)])) = Some exampleSnapshot \<and>
   fst (takeDisconnectedOperationContextLocked ''a1'' 6 (fold ctxCache.runOp
     [Retain ''a2'' exampleSnapshot 3, Take ''a1'' 4]
     (snd (takeDisconnectedOperationContextLocked ''a1'' 5
       [(''a1'', \<lparr>ret_snapshot = exampleSnapshot, ret_expiresAt = 9\<rparr>)])))) = None"
proof -
  have "cacheOk [(''a1'', \<lparr>ret_snapshot = exampleSnapshot, ret_expiresAt = 9\<rparr>)]"
    by (simp add: cacheOk_def maxDisconnectedOperationContextCount_def)
  from context_handed_out_once [OF this, of "[Retain ''a2'' exampleSnapshot 3, Take ''a1'' 4]" "''a1''" 6 exampleSnapshot 5]
  show ?thesis by simp
qed

section \<open>Telemetry\<close>

definition frameValid :: "(string \<Rightarrow> string option) \<Rightarrow> Relay \<Rightarrow> string \<Rightarrow> nat \<Rightarrow> TelemetryFrame \<Rightarrow> bool" where
  "frameValid uuidParse r aid p frame \<longleftrightarrow> trimSpace (fr_AgentId frame) = aid \<and>
     mget (grpcSessions r) aid = Some p \<and> \<not> retired (sessHeap r p) \<and>
     fr_SessionId frame = SessionID (sessHeap r p) \<and> trimSpace (fr_MsgName frame) \<noteq> [] \<and>
     0 < fr_SentAtUnixNs frame \<and> trimSpace (fr_WalId frame) \<noteq> [] \<and>
     (\<exists>u. uuidParse (trimSpace (fr_WalId frame)) = Some u \<and> u \<noteq> nilUUID)"

text \<open>A telemetry frame is admitted exactly when it names the stream's own Agent and the session
  that still owns that Agent, carries a message name, a capture time and a parseable, non-nil WAL
  generation, and the session's operation context is reconciled.  A frame that fails only the last
  condition is the only one refused with a retry status, so the Agent keeps it.\<close>

theorem frame_admission:
  "((\<exists>u. admitTelemetryFrame uuidParse r aid p frame = AdmitFrame u) \<longleftrightarrow>
      frameValid uuidParse r aid p frame \<and> \<not> operationContextUnreconciled (sessHeap r p)) \<and>
    ((\<exists>m. admitTelemetryFrame uuidParse r aid p frame = RejectFrame AckRetryWithBackoff m) \<longleftrightarrow>
      frameValid uuidParse r aid p frame \<and> operationContextUnreconciled (sessHeap r p))"
  by (auto simp: admitTelemetryFrame_def frameValid_def requiresOperationContextReconciliation_def Let_def
      split: option.split if_splits)

text \<open>The acknowledgement of a frame: success only for an admitted frame whose routing reported no
  error; a frame that can never be normalized, or that is malformed or misattributed, is refused for
  good; every other routing failure asks the Agent to retry.  The sequence number is the frame's.\<close>

theorem frame_ack_status:
  "ta_Seq (frameAck frame verdict err) = fr_Seq frame \<and>
   (ta_Status (frameAck frame verdict err) = AckOK \<longleftrightarrow>
     (\<exists>u. verdict = AdmitFrame u) \<and> err = None \<or> (\<exists>m. verdict = RejectFrame AckOK m)) \<and>
   (\<forall>u e. verdict = AdmitFrame u \<and> err = Some e \<longrightarrow>
     ta_Status (frameAck frame verdict err) =
       (if errorIs e ''normalize telemetry envelope'' then AckPermanentError else AckRetryWithBackoff))"
  by (cases verdict; cases err) (simp_all add: frameAck_def)

lemma frame_ack_status_witness:
  "\<forall>fr u. ta_Status (frameAck fr (AdmitFrame u) (Some (Sentinel ''normalize telemetry envelope'' []))) =
       AckPermanentError \<and>
     ta_Status (frameAck fr (AdmitFrame u) (Some (CtxError CtxCanceled))) = AckRetryWithBackoff"
proof (intro allI)
  fix fr u
  show "ta_Status (frameAck fr (AdmitFrame u) (Some (Sentinel ''normalize telemetry envelope'' []))) =
       AckPermanentError \<and>
     ta_Status (frameAck fr (AdmitFrame u) (Some (CtxError CtxCanceled))) = AckRetryWithBackoff"
    using frame_ack_status [of fr "AdmitFrame u" "Some (Sentinel ''normalize telemetry envelope'' [])"]
      frame_ack_status [of fr "AdmitFrame u" "Some (CtxError CtxCanceled)"] by simp
qed

text \<open>Evidence received on a binding that is not the session's open current one, an
  acknowledgement, an aircraft result or a mission result, changes nothing.\<close>

theorem stale_evidence_ignored:
  assumes "\<not> bindingCurrent s b"
  shows "handleOperationContextCommandAckFrom s b ack now = s \<and>
    handleAircraftCommandResultFrom s b ares now = s \<and> handleMissionDeploymentResultFrom s b mres now = s"
  using assms by (simp add: handleOperationContextCommandAckFrom_def handleAircraftCommandResultFrom_def
      handleMissionDeploymentResultFrom_def)

lemma stale_evidence_ignored_witness:
  "handleOperationContextCommandAckFrom exampleSession 1
     \<lparr>ack_CommandId = ''c1'', ack_Status = AckApplied, ack_ActiveContext = None\<rparr> 7 = exampleSession"
  by (rule stale_evidence_ignored [THEN conjunct1])
    (simp add: bindingCurrent_def)

text \<open>A message is written only on the session's current binding, at most once, and, for a
  mission, only if its delivery was committed immediately before: then its state is retained, live
  and open to results.  When the write is not attempted, nothing was sent.\<close>

theorem send_only_on_current_binding:
  assumes "sendOnSelected b lockErr e2 commit err msg s = (SendReturned attempted res, s')"
    and "\<And>f t. commit = Some f \<Longrightarrow> bindings (snd (f t)) = bindings t"
  shows "if attempted
    then stream s = Some b \<and> res = err \<and> bindings s' = (bindings s)(b := (bindings s b)\<lparr>bd_sent :=
           bd_sent (bindings s b) @ [msg]\<rparr>) \<and> (\<forall>f. commit = Some f \<longrightarrow> fst (f s))
    else bindings s' = bindings s \<and> res \<noteq> None"
  using assms by (auto simp: sendOnSelected_def recordSend_def split: option.splits if_splits prod.splits bool.splits)
    (metis fst_conv snd_conv)+

lemma send_only_on_current_binding_witness:
  "bd_sent (bindings (snd (sendOnSelected 0 None None None None
     (TelemetryAckMsg \<lparr>ta_Seq = 1, ta_Status = AckOK, ta_Error = []\<rparr>) exampleSession)) 0) =
   [TelemetryAckMsg \<lparr>ta_Seq = 1, ta_Status = AckOK, ta_Error = []\<rparr>]"
proof -
  let ?m = "TelemetryAckMsg \<lparr>ta_Seq = 1, ta_Status = AckOK, ta_Error = []\<rparr>"
  obtain s' where s': "sendOnSelected 0 None None None None ?m exampleSession = (SendReturned True None, s')"
    by (simp add: sendOnSelected_def)
  from send_only_on_current_binding [OF this]
  have "bindings s' 0 = (bindings exampleSession 0)\<lparr>bd_sent := bd_sent (bindings exampleSession 0) @ [?m]\<rparr>"
    by simp
  then have "bd_sent (bindings s' 0) = [?m]" by (simp add: exampleSession_def zeroBinding_def)
  then show ?thesis by (simp only: s' snd_conv)
qed

end
