(* ===== verification/Writer.thy ===== *)
theory Writer
  imports Normalize "HOL-Library.Multiset"
begin

text \<open>
  The normalized-telemetry writer (\<open>internal/telemetrywriter/writer.go\<close>): the admission of an
  envelope to the bounded queue, the workers that collect batches and hand them to the backend with
  retries, and the shutdown that drains them.  \<open>WriteEnvelope\<close> holds the read lock of \<open>stateMu\<close>
  from the check of \<open>closed\<close> to its return: the calls between are the list \<open>wr_senders\<close>, and
  \<open>Close\<close>, which takes the write lock, waits until it is empty.  What \<open>errors.Join\<close> returns is
  the list of the errors it joins, empty for nil.  The backend is a parameter: what each of its calls
  returns, and what the wait after each failed call observes of the context.
\<close>

section \<open>Configuration\<close>

record writerConfig =
  wc_QueueCapacity :: int
  wc_Workers :: int
  wc_BatchSize :: int
  wc_FlushInterval :: int
  wc_EnqueueTimeout :: int
  wc_WriteTimeout :: int
  wc_MaxRetries :: int
  wc_RetryBackoff :: int

definition withDefaults :: "writerConfig \<Rightarrow> writerConfig" where
  "withDefaults c = \<lparr>
     wc_QueueCapacity = (if wc_QueueCapacity c \<le> 0 then 10000 else wc_QueueCapacity c),
     wc_Workers = (if wc_Workers c \<le> 0 then 2 else wc_Workers c),
     wc_BatchSize = (if wc_BatchSize c \<le> 0 then 500 else wc_BatchSize c),
     wc_FlushInterval = (if wc_FlushInterval c \<le> 0 then second else wc_FlushInterval c),
     wc_EnqueueTimeout = (if wc_EnqueueTimeout c \<le> 0 then 100 * millisecond else wc_EnqueueTimeout c),
     wc_WriteTimeout = (if wc_WriteTimeout c \<le> 0 then 5 * second else wc_WriteTimeout c),
     wc_MaxRetries = (if wc_MaxRetries c < 0 then 0 else wc_MaxRetries c),
     wc_RetryBackoff = (if wc_RetryBackoff c \<le> 0 then 200 * millisecond else wc_RetryBackoff c)\<rparr>"

lemma withDefaults_pos [simp]:
  "0 < wc_QueueCapacity (withDefaults c)" "0 < wc_Workers (withDefaults c)"
  "0 < wc_BatchSize (withDefaults c)" "0 \<le> wc_MaxRetries (withDefaults c)"
  "0 < wc_RetryBackoff (withDefaults c)" "0 \<le> wc_QueueCapacity (withDefaults c)"
  "\<not> wc_Workers (withDefaults c) \<le> 0"
  by (simp_all add: withDefaults_def)

section \<open>Errors\<close>

definition ErrQueueFull :: goerror where
  "ErrQueueFull = Sentinel ''normalized telemetry queue is full'' []"

definition ErrClosed :: goerror where
  "ErrClosed = Sentinel ''normalized telemetry writer is closed'' []"

definition ErrNormalize :: "goerror \<Rightarrow> goerror" where
  "ErrNormalize e = Sentinel ''normalize telemetry envelope'' ('': '' @ errText e)"

type_synonym joinedError = "goerror list"

definition joinOf :: "goerror option \<Rightarrow> joinedError" where
  "joinOf e = (case e of None \<Rightarrow> [] | Some err \<Rightarrow> [err])"

lemma joinOf_simps [simp]: "joinOf None = []" "joinOf (Some e) = [e]" "joinOf x = [] \<longleftrightarrow> x = None"
  by (simp_all add: joinOf_def split: option.split)

section \<open>Writing a batch\<close>

text \<open>\<open>RetryBackoff * time.Duration(1 << attempt)\<close> in 64 bits: the shift gives 0 from 64 on, and
  the product wraps.\<close>

definition retryDelay :: "writerConfig \<Rightarrow> int \<Rightarrow> int" where
  "retryDelay c attempt =
     sint ((word_of_int (wc_RetryBackoff c) :: 64 word) * push_bit (nat attempt) 1)"

text \<open>The loop of \<open>writeBatch\<close> from \<open>attempt\<close> on: \<open>backend i\<close> is what call number \<open>i\<close> returns,
  \<open>waited i\<close> whether the context ended during the wait after it.  The result is the error, the
  calls made and the waits begun.\<close>

function writeLoop :: "writerConfig \<Rightarrow> (int \<Rightarrow> goerror option) \<Rightarrow> (int \<Rightarrow> ctxErr option) \<Rightarrow> int \<Rightarrow>
    joinedError \<Rightarrow> joinedError \<times> int list \<times> int list" where
  "writeLoop c backend waited attempt err =
     (if attempt > wc_MaxRetries c then (err, [], [])
      else if backend attempt = None \<or> attempt = wc_MaxRetries c
      then (joinOf (backend attempt), [attempt], [])
      else case waited attempt of
          Some e \<Rightarrow> (joinOf (backend attempt) @ [CtxError e], [attempt], [retryDelay c attempt])
        | None \<Rightarrow>
          (let (r, calls, delays) = writeLoop c backend waited (attempt + 1) (joinOf (backend attempt))
           in (r, attempt # calls, retryDelay c attempt # delays)))"
  by pat_completeness auto
termination
  by (relation "measure (\<lambda>(c, b, w, attempt, e). nat (wc_MaxRetries c + 1 - attempt))") auto

declare writeLoop.simps [simp del]

definition writeBatch :: "writerConfig \<Rightarrow> (int \<Rightarrow> goerror option) \<Rightarrow> (int \<Rightarrow> ctxErr option) \<Rightarrow>
    joinedError \<times> int list \<times> int list" where
  "writeBatch c backend waited = writeLoop c backend waited 0 []"

section \<open>State\<close>

record worker =
  wk_batch :: "Record list"
  wk_running :: bool

text \<open>\<open>wr_closed\<close> also says that the queue's channel is closed: both change under the write lock.
  \<open>wr_cancelled\<close> says whether \<open>workerCtx\<close> is done.  Two histories are kept beside the state of the
  code: the records sent on the queue, and the finished \<open>writeBatch\<close> calls with their errors.\<close>

record writer =
  wr_config :: writerConfig
  wr_registry :: "normalizer gomap"
  wr_queue :: "Record list"
  wr_senders :: "Record list"
  wr_closed :: bool
  wr_cancelled :: bool
  wr_workers :: "worker list"
  wr_backendErr :: joinedError
  wr_accepted :: "Record list"
  wr_batches :: "(Record list \<times> joinedError) list"

definition idleWorker :: worker where
  "idleWorker = \<lparr>wk_batch = [], wk_running = True\<rparr>"

definition NewWriter :: "writerConfig \<Rightarrow> bool \<Rightarrow> normalizer gomap option \<Rightarrow> goerror + writer" where
  "NewWriter config backendPresent registry =
     (if \<not> backendPresent then Inl (OtherError ''normalized telemetry backend is required'')
      else Inr \<lparr>wr_config = withDefaults config,
        wr_registry = (case registry of None \<Rightarrow> NewRegistry | Some m \<Rightarrow> m),
        wr_queue = [], wr_senders = [], wr_closed = False, wr_cancelled = False,
        wr_workers = replicate (nat (wc_Workers (withDefaults config))) idleWorker,
        wr_backendErr = [], wr_accepted = [], wr_batches = []\<rparr>)"

section \<open>Admission\<close>

text \<open>\<open>WriteEnvelope\<close> up to the \<open>select\<close>: it returns, or waits in the \<open>select\<close> with the record.\<close>

datatype admission = Returned "goerror option" | Offering Record

definition writeEnvelopeBegin ::
  "(string \<Rightarrow> string option) \<Rightarrow> TelemetryEnvelope \<Rightarrow> writer \<Rightarrow> admission \<times> writer" where
  "writeEnvelopeBegin uuidParse env w =
     (case Lookup (wr_registry w) (env_MsgName env) of
        None \<Rightarrow> (Returned None, w)
      | Some normalizer \<Rightarrow>
        (case normalizer uuidParse env of
           Inl e \<Rightarrow> (Returned (Some (ErrNormalize e)), w)
         | Inr r \<Rightarrow> if wr_closed w then (Returned (Some ErrClosed), w)
                    else (Offering r, w\<lparr>wr_senders := r # wr_senders w\<rparr>)))"

text \<open>The cases of the \<open>select\<close>.  The send is ready only when the queue has room; the others may be
  ready at any time, and of several ready cases Go takes any.\<close>

datatype selectCase = SendRecord | ContextDone ctxErr | TimerFired

fun selectReady :: "selectCase \<Rightarrow> writer \<Rightarrow> bool" where
  "selectReady SendRecord w \<longleftrightarrow> int (length (wr_queue w)) < wc_QueueCapacity (wr_config w)"
| "selectReady (ContextDone e) w \<longleftrightarrow> True"
| "selectReady TimerFired w \<longleftrightarrow> True"

fun writeEnvelopeSelect :: "selectCase \<Rightarrow> Record \<Rightarrow> writer \<Rightarrow> goerror option \<times> writer" where
  "writeEnvelopeSelect SendRecord r w =
     (None, w\<lparr>wr_senders := remove1 r (wr_senders w), wr_queue := wr_queue w @ [r],
        wr_accepted := wr_accepted w @ [r]\<rparr>)"
| "writeEnvelopeSelect (ContextDone e) r w =
     (Some (CtxError e), w\<lparr>wr_senders := remove1 r (wr_senders w)\<rparr>)"
| "writeEnvelopeSelect TimerFired r w =
     (Some ErrQueueFull, w\<lparr>wr_senders := remove1 r (wr_senders w)\<rparr>)"

section \<open>Workers\<close>

definition updWorker :: "nat \<Rightarrow> (worker \<Rightarrow> worker) \<Rightarrow> writer \<Rightarrow> writer" where
  "updWorker i f w = w\<lparr>wr_workers := (wr_workers w)[i := f (wr_workers w ! i)]\<rparr>"

text \<open>\<open>flush\<close>, with the outcome of its \<open>writeBatch\<close>; a failure replaces the one recorded before.\<close>

definition flush :: "nat \<Rightarrow> (int \<Rightarrow> goerror option) \<Rightarrow> (int \<Rightarrow> ctxErr option) \<Rightarrow> writer \<Rightarrow> writer" where
  "flush i backend waited w =
     (let batch = wk_batch (wr_workers w ! i); err = fst (writeBatch (wr_config w) backend waited) in
      if batch = [] then w
      else (updWorker i (\<lambda>k. k\<lparr>wk_batch := []\<rparr>) w)\<lparr>
        wr_backendErr := (if err \<noteq> [] then err else wr_backendErr w),
        wr_batches := wr_batches w @ [(batch, err)]\<rparr>)"

text \<open>A record received, the ticker, and the end of the worker on a closed and empty queue or a
  cancelled context.\<close>

definition workerReceive ::
  "nat \<Rightarrow> (int \<Rightarrow> goerror option) \<Rightarrow> (int \<Rightarrow> ctxErr option) \<Rightarrow> writer \<Rightarrow> writer" where
  "workerReceive i backend waited w =
     (case wr_queue w of
        [] \<Rightarrow> w
      | r # rest \<Rightarrow>
        (let w1 = updWorker i (\<lambda>k. k\<lparr>wk_batch := wk_batch k @ [r]\<rparr>) (w\<lparr>wr_queue := rest\<rparr>) in
         if int (length (wk_batch (wr_workers w1 ! i))) \<ge> wc_BatchSize (wr_config w)
         then flush i backend waited w1 else w1))"

definition workerStop ::
  "nat \<Rightarrow> (int \<Rightarrow> goerror option) \<Rightarrow> (int \<Rightarrow> ctxErr option) \<Rightarrow> writer \<Rightarrow> writer" where
  "workerStop i backend waited w =
     updWorker i (\<lambda>k. k\<lparr>wk_running := False\<rparr>) (flush i backend waited w)"

definition runs :: "nat \<Rightarrow> writer \<Rightarrow> bool" where
  "runs i w \<longleftrightarrow> i < length (wr_workers w) \<and> wk_running (wr_workers w ! i)"

definition stopped :: "writer \<Rightarrow> bool" where
  "stopped w \<longleftrightarrow> (\<forall>k \<in> set (wr_workers w). \<not> wk_running k)"

section \<open>Close\<close>

definition closeBegin :: "writer \<Rightarrow> writer" where
  "closeBegin w = w\<lparr>wr_closed := True\<rparr>"

definition cancelWorkers :: "writer \<Rightarrow> writer" where
  "cancelWorkers w = w\<lparr>wr_cancelled := True\<rparr>"

text \<open>What \<open>Close\<close> returns once the workers ended: \<open>ended\<close> is the error of its context if that
  ended first, \<open>closeErr\<close> what closing the backend returned.\<close>

definition closeEnd :: "ctxErr option \<Rightarrow> goerror option \<Rightarrow> writer \<Rightarrow> joinedError \<times> writer" where
  "closeEnd ended closeErr w =
     ((case ended of None \<Rightarrow> []
        | Some e \<Rightarrow> [OtherError (''drain normalized telemetry writer: '' @ errText (CtxError e))]) @
      (case closeErr of None \<Rightarrow> []
        | Some e \<Rightarrow> [OtherError (''close normalized telemetry backend: '' @ errText e)]) @
      wr_backendErr w, cancelWorkers w)"

section \<open>Runs\<close>

inductive writerStep :: "(string \<Rightarrow> string option) \<Rightarrow> writer \<Rightarrow> writer \<Rightarrow> bool"
  for uuidParse where
  begin_write: "writerStep uuidParse w (snd (writeEnvelopeBegin uuidParse env w))"
| end_write: "r \<in> set (wr_senders w) \<Longrightarrow> selectReady sc w \<Longrightarrow>
    writerStep uuidParse w (snd (writeEnvelopeSelect sc r w))"
| receive: "runs i w \<Longrightarrow> wr_queue w \<noteq> [] \<Longrightarrow>
    writerStep uuidParse w (workerReceive i backend waited w)"
| tick: "runs i w \<Longrightarrow> writerStep uuidParse w (flush i backend waited w)"
| stop: "runs i w \<Longrightarrow> wr_closed w \<and> wr_queue w = [] \<or> wr_cancelled w \<Longrightarrow>
    writerStep uuidParse w (workerStop i backend waited w)"
| close_begin: "wr_senders w = [] \<or> wr_closed w \<Longrightarrow> writerStep uuidParse w (closeBegin w)"
| close_cancel: "wr_closed w \<Longrightarrow> writerStep uuidParse w (cancelWorkers w)"
| close_end: "wr_closed w \<Longrightarrow> stopped w \<Longrightarrow> writerStep uuidParse w (snd (closeEnd ended closeErr w))"

inductive writerReach :: "(string \<Rightarrow> string option) \<Rightarrow> writer \<Rightarrow> bool" for uuidParse where
  created: "NewWriter config True registry = Inr w \<Longrightarrow> writerReach uuidParse w"
| stepped: "writerReach uuidParse w \<Longrightarrow> writerStep uuidParse w w' \<Longrightarrow> writerReach uuidParse w'"

section \<open>The retry loop\<close>

lemma writeLoop_stop:
  "attempt = wc_MaxRetries c \<or> attempt < wc_MaxRetries c \<and> backend attempt = None \<Longrightarrow>
    writeLoop c backend waited attempt err = (joinOf (backend attempt), [attempt], [])"
  by (subst writeLoop.simps) auto

lemma writeLoop_ended:
  "attempt < wc_MaxRetries c \<Longrightarrow> backend attempt = Some e \<Longrightarrow> waited attempt = Some x \<Longrightarrow>
    writeLoop c backend waited attempt err = ([e, CtxError x], [attempt], [retryDelay c attempt])"
  by (subst writeLoop.simps) simp

lemma writeLoop_again:
  "attempt < wc_MaxRetries c \<Longrightarrow> backend attempt = Some e \<Longrightarrow> waited attempt = None \<Longrightarrow>
    writeLoop c backend waited attempt err =
      (case writeLoop c backend waited (attempt + 1) [e] of (r, calls, delays) \<Rightarrow>
        (r, attempt # calls, retryDelay c attempt # delays))"
  by (subst writeLoop.simps) simp

lemma upto_Cons: "i \<le> j \<Longrightarrow> [i..j] = i # [i + 1..j]"
  by (simp add: upto_rec1)

text \<open>The loop calls the backend from \<open>attempt\<close> up to some \<open>k\<close> and waits between the calls.\<close>

lemma writeLoop_runs:
  assumes "attempt \<le> wc_MaxRetries c"
  shows "\<exists>k w r. attempt \<le> k \<and> k \<le> wc_MaxRetries c \<and>
    (\<forall>j \<in> {attempt..<k}. backend j \<noteq> None \<and> waited j = None) \<and>
    writeLoop c backend waited attempt err = (r, [attempt..k], map (retryDelay c) [attempt..w]) \<and>
    ((backend k = None \<or> k = wc_MaxRetries c) \<and> w = k - 1 \<and> r = joinOf (backend k)
     \<or> (\<exists>e x. k < wc_MaxRetries c \<and> w = k \<and> backend k = Some e \<and> waited k = Some x \<and> r = [e, CtxError x]))"
  using assms
proof (induction "nat (wc_MaxRetries c - attempt)" arbitrary: attempt err)
  case 0
  then show ?case by (intro exI [of _ attempt] exI [of _ "attempt - 1"]) (simp add: writeLoop_stop)
next
  case (Suc n)
  then have lt: "attempt < wc_MaxRetries c" by linarith
  consider (done') "backend attempt = None" | (cancelled) e x where "backend attempt = Some e" "waited attempt = Some x"
    | (retried) e where "backend attempt = Some e" "waited attempt = None" by fastforce
  then show ?case
  proof cases
    case done'
    with lt show ?thesis by (intro exI [of _ attempt] exI [of _ "attempt - 1"]) (simp add: writeLoop_stop)
  next
    case (cancelled e x)
    with lt show ?thesis by (intro exI [of _ attempt]) (simp add: writeLoop_ended)
  next
    case (retried e)
    have n: "n = nat (wc_MaxRetries c - (attempt + 1))" "attempt + 1 \<le> wc_MaxRetries c"
      using Suc.hyps(2) lt by linarith+
    obtain k w r where k: "attempt + 1 \<le> k" "k \<le> wc_MaxRetries c"
      "\<forall>j \<in> {attempt + 1..<k}. backend j \<noteq> None \<and> waited j = None"
      "writeLoop c backend waited (attempt + 1) [e] = (r, [attempt + 1..k], map (retryDelay c) [attempt + 1..w])"
      and how: "(backend k = None \<or> k = wc_MaxRetries c) \<and> w = k - 1 \<and> r = joinOf (backend k)
       \<or> (\<exists>e x. k < wc_MaxRetries c \<and> w = k \<and> backend k = Some e \<and> waited k = Some x \<and> r = [e, CtxError x])"
      using Suc.hyps(1) [OF n, of "[e]"] by blast
    have "attempt \<le> w" using how k(1) by auto
    then have "[attempt..k] = attempt # [attempt + 1..k]" "[attempt..w] = attempt # [attempt + 1..w]"
      using k(1) by (simp_all add: upto_rec1 [of attempt])
    then have "writeLoop c backend waited attempt err = (r, [attempt..k], map (retryDelay c) [attempt..w])"
      using k(4) by (simp add: writeLoop_again [where backend = backend and waited = waited, OF lt retried])
    moreover have "\<forall>j \<in> {attempt..<k}. backend j \<noteq> None \<and> waited j = None"
      using k(3) retried by (metis atLeastLessThan_iff le_less option.distinct(1) zle_add1_eq_le add1_zle_eq)
    ultimately show ?thesis using k(1,2) how by (intro exI [of _ k] exI [of _ w] exI [of _ r]) simp
  qed
qed

lemma writeLoop_calls:
  assumes "attempt \<le> wc_MaxRetries c"
  shows "\<exists>k r. attempt \<le> k \<and> k \<le> wc_MaxRetries c \<and>
    (\<forall>j \<in> {attempt..<k}. backend j \<noteq> None \<and> waited j = None) \<and>
    ((backend k = None \<or> k = wc_MaxRetries c) \<and> r = joinOf (backend k) \<and>
       writeLoop c backend waited attempt err = (r, [attempt..k], map (retryDelay c) [attempt..k - 1])
     \<or> (\<exists>e x. k < wc_MaxRetries c \<and> backend k = Some e \<and> waited k = Some x \<and> r = [e, CtxError x] \<and>
       writeLoop c backend waited attempt err = (r, [attempt..k], map (retryDelay c) [attempt..k])))"
  using writeLoop_runs [OF assms, of backend waited err] by blast

lemma retryDelay_exact:
  assumes "0 < wc_RetryBackoff c" "0 \<le> k" "wc_RetryBackoff c * 2 ^ nat k < 2 ^ 63"
  shows "retryDelay c k = wc_RetryBackoff c * 2 ^ nat k"
proof -
  have "retryDelay c k = sint (word_of_int (wc_RetryBackoff c * 2 ^ nat k) :: 64 word)"
    by (simp add: retryDelay_def push_bit_eq_mult)
  also have "\<dots> = wc_RetryBackoff c * 2 ^ nat k"
  proof -
    have "0 \<le> wc_RetryBackoff c * 2 ^ nat k" using assms(1) by simp
    then have "- (2 ^ 63) \<le> wc_RetryBackoff c * 2 ^ nat k" by (rule order_trans [rotated]) simp
    with assms(3) show ?thesis
      by (simp only: signed_of_int) (simp add: signed_take_bit_int_eq_self)
  qed
  finally show ?thesis .
qed


section \<open>The invariant\<close>

text \<open>Every record sent on the queue is in the queue, in one worker's batch or in one finished
  batch; the queue and the batches keep their bounds; a closed writer has no call in its \<open>select\<close>, so
  nothing is sent on the closed channel; the recorded error is that of the last failed batch; and a
  worker ends uncancelled only on a closed and empty queue.\<close>

definition batched :: "writer \<Rightarrow> Record multiset" where
  "batched w = sum_list (map (mset \<circ> wk_batch) (wr_workers w))"

definition finished :: "writer \<Rightarrow> Record multiset" where
  "finished w = mset (concat (map fst (wr_batches w)))"

definition lastFailure :: "joinedError list \<Rightarrow> joinedError" where
  "lastFailure es = foldl (\<lambda>kept e. if e \<noteq> [] then e else kept) [] es"

definition batchesOk :: "writer \<Rightarrow> bool" where
  "batchesOk w \<longleftrightarrow> (\<forall>(b, e) \<in> set (wr_batches w). b \<noteq> [] \<and> int (length b) \<le> wc_BatchSize (wr_config w))"

definition workersOk :: "writer \<Rightarrow> bool" where
  "workersOk w \<longleftrightarrow> wr_workers w \<noteq> [] \<and> (\<forall>k \<in> set (wr_workers w).
     int (length (wk_batch k)) < wc_BatchSize (wr_config w) \<and> (\<not> wk_running k \<longrightarrow> wk_batch k = []))"

definition endedOk :: "writer \<Rightarrow> bool" where
  "endedOk w \<longleftrightarrow> (\<exists>k \<in> set (wr_workers w). \<not> wk_running k) \<longrightarrow>
     wr_cancelled w \<or> wr_closed w \<and> wr_queue w = []"

definition writerOk :: "writer \<Rightarrow> bool" where
  "writerOk w \<longleftrightarrow> (\<exists>c. wr_config w = withDefaults c) \<and>
     int (length (wr_queue w)) \<le> wc_QueueCapacity (wr_config w) \<and>
     workersOk w \<and> batchesOk w \<and> endedOk w \<and>
     mset (wr_accepted w) = mset (wr_queue w) + batched w + finished w \<and>
     (wr_closed w \<longrightarrow> wr_senders w = []) \<and>
     wr_backendErr w = lastFailure (map snd (wr_batches w))"

lemma lastFailure_snoc [simp]:
  "lastFailure (es @ [e]) = (if e \<noteq> [] then e else lastFailure es)"
  by (simp add: lastFailure_def)

lemma lastFailure_Nil [simp]: "lastFailure [] = []"
  by (simp add: lastFailure_def)

lemma sum_batches_upd:
  "i < length ks \<Longrightarrow> sum_list (map (mset \<circ> wk_batch) (ks[i := k])) + mset (wk_batch (ks ! i)) =
    sum_list (map (mset \<circ> wk_batch) ks) + mset (wk_batch k)"
proof (induction ks arbitrary: i)
  case (Cons a ks)
  then show ?case by (cases i) (auto simp: ac_simps)
qed simp

lemma updWorker_simps [simp]:
  "wr_config (updWorker i f w) = wr_config w" "wr_registry (updWorker i f w) = wr_registry w"
  "wr_queue (updWorker i f w) = wr_queue w" "wr_senders (updWorker i f w) = wr_senders w"
  "wr_closed (updWorker i f w) = wr_closed w" "wr_cancelled (updWorker i f w) = wr_cancelled w"
  "wr_workers (updWorker i f w) = (wr_workers w)[i := f (wr_workers w ! i)]"
  "wr_backendErr (updWorker i f w) = wr_backendErr w" "wr_accepted (updWorker i f w) = wr_accepted w"
  "wr_batches (updWorker i f w) = wr_batches w"
  by (simp_all add: updWorker_def)

lemma flush_simps [simp]:
  "wr_config (flush i b v w) = wr_config w" "wr_registry (flush i b v w) = wr_registry w"
  "wr_queue (flush i b v w) = wr_queue w"
  "wr_senders (flush i b v w) = wr_senders w" "wr_closed (flush i b v w) = wr_closed w"
  "wr_cancelled (flush i b v w) = wr_cancelled w" "wr_accepted (flush i b v w) = wr_accepted w"
  "wr_workers (flush i b v w) = (wr_workers w)[i := (wr_workers w ! i)\<lparr>wk_batch := []\<rparr>]"
proof -
  have "(wr_workers w)[i := (wr_workers w ! i)\<lparr>wk_batch := []\<rparr>] = wr_workers w"
    if "wk_batch (wr_workers w ! i) = []"
  proof -
    have "(wr_workers w ! i)\<lparr>wk_batch := []\<rparr> = wr_workers w ! i" using that by simp
    then show ?thesis by simp
  qed
  then show "wr_workers (flush i b v w) = (wr_workers w)[i := (wr_workers w ! i)\<lparr>wk_batch := []\<rparr>]"
    by (simp add: flush_def Let_def)
qed (simp_all add: flush_def Let_def)

text \<open>A flush moves one worker's batch to the finished ones.\<close>

lemma flush_moves:
  assumes "i < length (wr_workers w)"
  shows "batched (flush i b v w) + finished (flush i b v w) = batched w + finished w"
proof (cases "wk_batch (wr_workers w ! i) = []")
  case False
  have "finished (flush i b v w) = finished w + mset (wk_batch (wr_workers w ! i))"
    using False by (simp add: finished_def flush_def Let_def)
  moreover have "batched (flush i b v w) + mset (wk_batch (wr_workers w ! i)) = batched w"
    using sum_batches_upd [OF assms, of "(wr_workers w ! i)\<lparr>wk_batch := []\<rparr>"] by (simp add: batched_def)
  ultimately show ?thesis by (simp add: ac_simps)
qed (simp add: flush_def)

lemma flush_batchesOk:
  assumes "batchesOk w" "int (length (wk_batch (wr_workers w ! i))) \<le> wc_BatchSize (wr_config w)"
  shows "batchesOk (flush i b v w)"
  using assms by (auto simp: batchesOk_def flush_def Let_def)

lemma flush_backendErr:
  "wr_backendErr w = lastFailure (map snd (wr_batches w)) \<Longrightarrow>
    wr_backendErr (flush i b v w) = lastFailure (map snd (wr_batches (flush i b v w)))"
  by (simp add: flush_def Let_def)

text \<open>The flush of a batch of at most \<open>BatchSize\<close> records keeps the invariant, where the other
  conjuncts hold.\<close>

lemma writerOk_flush_any:
  assumes "i < length (wr_workers w)"
    and "int (length (wk_batch (wr_workers w ! i))) \<le> wc_BatchSize (wr_config w)"
    and "\<forall>j < length (wr_workers w). j \<noteq> i \<longrightarrow> int (length (wk_batch (wr_workers w ! j))) < wc_BatchSize (wr_config w)"
    and "\<forall>k \<in> set (wr_workers w). \<not> wk_running k \<longrightarrow> wk_batch k = []"
    and "\<exists>c. wr_config w = withDefaults c" "int (length (wr_queue w)) \<le> wc_QueueCapacity (wr_config w)"
    and "batchesOk w" "endedOk w" "mset (wr_accepted w) = mset (wr_queue w) + batched w + finished w"
    and "wr_closed w \<longrightarrow> wr_senders w = []" "wr_backendErr w = lastFailure (map snd (wr_batches w))"
  shows "writerOk (flush i b v w)"
proof -
  let ?w = "flush i b v w"
  have pos: "0 < wc_BatchSize (wr_config w)" using assms(5) by auto
  have "workersOk ?w"
    unfolding workersOk_def all_set_conv_all_nth using assms(1-4) pos
    by (auto simp: nth_list_update all_set_conv_all_nth)
  moreover have "endedOk ?w"
  proof -
    have "(\<exists>k \<in> set (wr_workers ?w). \<not> wk_running k) \<longrightarrow> (\<exists>k \<in> set (wr_workers w). \<not> wk_running k)"
      using assms(1) by (auto simp: Bex_def in_set_conv_nth nth_list_update split: if_splits)
    with assms(8) show ?thesis by (simp add: endedOk_def)
  qed
  moreover have "mset (wr_accepted ?w) = mset (wr_queue ?w) + batched ?w + finished ?w"
    using assms(9) flush_moves [OF assms(1)] by (simp add: ac_simps)
  ultimately show ?thesis
    using assms(5,6,10,11) flush_batchesOk [OF assms(7,2)] flush_backendErr
    by (simp add: writerOk_def)
qed


lemma writerOkD:
  assumes "writerOk w"
  shows "\<exists>c. wr_config w = withDefaults c"
    "int (length (wr_queue w)) \<le> wc_QueueCapacity (wr_config w)" "workersOk w" "batchesOk w" "endedOk w"
    "mset (wr_accepted w) = mset (wr_queue w) + batched w + finished w"
    "wr_closed w \<Longrightarrow> wr_senders w = []" "wr_backendErr w = lastFailure (map snd (wr_batches w))"
  using assms by (simp_all add: writerOk_def)

lemma writerOk_workers:
  assumes "writerOk w" "i < length (wr_workers w)"
  shows "int (length (wk_batch (wr_workers w ! i))) < wc_BatchSize (wr_config w)"
    "\<not> wk_running (wr_workers w ! i) \<Longrightarrow> wk_batch (wr_workers w ! i) = []"
  using assms by (auto simp: writerOk_def workersOk_def)

lemma writerOk_flush: "writerOk w \<Longrightarrow> i < length (wr_workers w) \<Longrightarrow> writerOk (flush i b v w)"
  by (rule writerOk_flush_any) (auto simp: writerOk_def workersOk_def less_imp_le)

lemma writerOk_receive:
  assumes "writerOk w" "runs i w" "wr_queue w \<noteq> []"
  shows "writerOk (workerReceive i b v w)"
proof -
  obtain r rest where q: "wr_queue w = r # rest" using assms(3) by (cases "wr_queue w") auto
  have i: "i < length (wr_workers w)" "wk_running (wr_workers w ! i)" using assms(2) by (auto simp: runs_def)
  define w1 where "w1 = updWorker i (\<lambda>k. k\<lparr>wk_batch := wk_batch k @ [r]\<rparr>) (w\<lparr>wr_queue := rest\<rparr>)"
  let ?k = "(wr_workers w ! i)\<lparr>wk_batch := wk_batch (wr_workers w ! i) @ [r]\<rparr>"
  have w1: "wr_config w1 = wr_config w" "wr_workers w1 = (wr_workers w)[i := ?k]" "wr_queue w1 = rest"
    "wr_accepted w1 = wr_accepted w" "wr_batches w1 = wr_batches w" "wr_closed w1 = wr_closed w"
    "wr_senders w1 = wr_senders w" "wr_backendErr w1 = wr_backendErr w" "wr_cancelled w1 = wr_cancelled w"
    by (simp_all add: w1_def updWorker_def)
  have "batched w1 = batched w + {#r#}"
    using sum_batches_upd [OF i(1), of ?k] by (simp add: batched_def w1)
  then have acc: "mset (wr_accepted w1) = mset (wr_queue w1) + batched w1 + finished w1"
    using assms(1) by (simp add: writerOk_def finished_def w1 q)
  have size: "int (length (wk_batch (wr_workers w1 ! i))) \<le> wc_BatchSize (wr_config w1)"
    using writerOk_workers(1) [OF assms(1) i(1)] i(1) by (simp add: w1)
  have others: "\<forall>j < length (wr_workers w1). j \<noteq> i \<longrightarrow>
      int (length (wk_batch (wr_workers w1 ! j))) < wc_BatchSize (wr_config w1)"
    using writerOk_workers(1) [OF assms(1)] by (simp add: w1)
  have idle: "\<forall>k \<in> set (wr_workers w1). \<not> wk_running k \<longrightarrow> wk_batch k = []"
    using writerOk_workers(2) [OF assms(1)] i
    by (auto simp: w1 in_set_conv_nth nth_list_update split: if_splits)
  have ended: "endedOk w1"
    using assms(1,3) i by (auto simp: writerOk_def endedOk_def w1 Bex_def in_set_conv_nth nth_list_update
        split: if_splits)
  have rest: "\<exists>c. wr_config w1 = withDefaults c" "int (length (wr_queue w1)) \<le> wc_QueueCapacity (wr_config w1)"
    "batchesOk w1" "wr_closed w1 \<longrightarrow> wr_senders w1 = []" "wr_backendErr w1 = lastFailure (map snd (wr_batches w1))"
    using writerOkD [OF assms(1)] by (simp_all add: batchesOk_def w1 q)
  have flushed: "writerOk (flush i b v w1)"
    by (rule writerOk_flush_any) (use i size others idle ended acc rest in \<open>simp_all add: w1\<close>)
  have kept: "writerOk w1" if "int (length (wk_batch (wr_workers w1 ! i))) < wc_BatchSize (wr_config w1)"
  proof -
    have "\<forall>k \<in> set (wr_workers w1). int (length (wk_batch k)) < wc_BatchSize (wr_config w1)"
      unfolding all_set_conv_all_nth using others that by blast
    moreover have "wr_workers w1 \<noteq> []" using i(1) by (auto simp: w1)
    ultimately have "workersOk w1" using idle by (simp add: workersOk_def)
    then show ?thesis using ended acc rest by (simp add: writerOk_def)
  qed
  have "workerReceive i b v w = (if int (length (wk_batch (wr_workers w1 ! i))) \<ge> wc_BatchSize (wr_config w)
      then flush i b v w1 else w1)"
    by (simp only: workerReceive_def q list.case Let_def w1_def)
  with flushed kept show ?thesis by (simp add: w1(1) not_le)
qed

lemma writerOk_stop:
  assumes "writerOk w" "runs i w" "wr_closed w \<and> wr_queue w = [] \<or> wr_cancelled w"
  shows "writerOk (workerStop i b v w)"
proof -
  have i: "i < length (wr_workers w)" using assms(2) by (simp add: runs_def)
  define w1 where "w1 = flush i b v w"
  have w1: "writerOk w1" "length (wr_workers w1) = length (wr_workers w)" "wk_batch (wr_workers w1 ! i) = []"
    using writerOk_flush [OF assms(1) i] i by (simp_all add: w1_def)
  let ?w = "updWorker i (\<lambda>k. k\<lparr>wk_running := False\<rparr>) w1"
  have "batched ?w = batched w1"
    using sum_batches_upd [of i "wr_workers w1" "(wr_workers w1 ! i)\<lparr>wk_running := False\<rparr>"] i w1(2)
    by (simp add: batched_def)
  moreover have "workersOk ?w"
    using w1 i writerOk_workers(1) [OF w1(1), of i]
    by (auto simp: writerOk_def workersOk_def dest!: set_update_subset_insert [THEN subsetD])
  moreover have "endedOk ?w" using assms(3) by (auto simp: endedOk_def w1_def)
  ultimately have "writerOk ?w" using w1(1) by (simp add: writerOk_def finished_def batchesOk_def)
  then show ?thesis by (simp add: workerStop_def w1_def)
qed

lemma writerOk_step: "writerStep uuidParse w w' \<Longrightarrow> writerOk w \<Longrightarrow> writerOk w'"
proof (induction rule: writerStep.induct)
  case (begin_write w env)
  then show ?case
    by (auto simp: writeEnvelopeBegin_def writerOk_def workersOk_def batchesOk_def endedOk_def batched_def
        finished_def split: option.split sum.split)
next
  case (end_write r w sc)
  then have "\<not> wr_closed w" by (auto simp: writerOk_def)
  with end_write show ?case
    by (cases sc) (auto simp: writerOk_def workersOk_def batchesOk_def endedOk_def batched_def finished_def)
next
  case (receive i w backend waited)
  then show ?case by (simp add: writerOk_receive)
next
  case (tick i w backend waited)
  then show ?case by (simp add: writerOk_flush runs_def)
next
  case (stop i w backend waited)
  then show ?case by (simp add: writerOk_stop)
qed (auto simp: writerOk_def workersOk_def batchesOk_def endedOk_def batched_def finished_def
    closeBegin_def cancelWorkers_def closeEnd_def)

lemma writerOk_new:
  assumes "NewWriter config True registry = Inr w"
  shows "writerOk w"
proof -
  have idle: "sum_list (replicate n {#}) = ({#} :: Record multiset)" for n by (induction n) simp_all
  show ?thesis
    using assms by (auto simp: NewWriter_def writerOk_def workersOk_def batchesOk_def endedOk_def batched_def
        finished_def idleWorker_def o_def idle)
qed

lemma writerReach_ok: "writerReach uuidParse w \<Longrightarrow> writerOk w"
  by (induction rule: writerReach.induct) (auto intro: writerOk_new writerOk_step)


section \<open>Draining\<close>

text \<open>One step of a shutdown: the first worker still running takes a record, or ends when the queue
  is empty.\<close>

definition drainStep :: "(int \<Rightarrow> goerror option) \<Rightarrow> (int \<Rightarrow> ctxErr option) \<Rightarrow> writer \<Rightarrow> writer" where
  "drainStep backend waited w =
     (case find (\<lambda>i. wk_running (wr_workers w ! i)) [0..<length (wr_workers w)] of
        None \<Rightarrow> w
      | Some i \<Rightarrow> if wr_queue w = [] then workerStop i backend waited w
                  else workerReceive i backend waited w)"

definition toDrain :: "writer \<Rightarrow> nat" where
  "toDrain w = length (wr_queue w) + length (filter wk_running (wr_workers w))"

lemma running_upd:
  "i < length ks \<Longrightarrow> wk_running (ks ! i) \<Longrightarrow>
    length (filter wk_running (ks[i := k])) = length (filter wk_running ks) - (if wk_running k then 0 else 1)"
proof (induction ks arbitrary: i)
  case (Cons a ks)
  show ?case
  proof (cases i)
    case (Suc j)
    with Cons.prems have "ks ! j \<in> set (filter wk_running ks)" by simp
    then have "filter wk_running ks \<noteq> []" by force
    with Suc Cons show ?thesis by (auto simp: Suc_diff_le Suc_le_eq)
  qed (use Cons.prems in auto)
qed simp

lemma find_running:
  "(case find (\<lambda>i. wk_running (wr_workers w ! i)) [0..<length (wr_workers w)] of
      None \<Rightarrow> stopped w | Some i \<Rightarrow> runs i w)"
proof (cases "find (\<lambda>i. wk_running (wr_workers w ! i)) [0..<length (wr_workers w)]")
  case None
  then have "stopped w" by (auto simp: find_None_iff stopped_def in_set_conv_nth)
  with None show ?thesis by simp
next
  case (Some i)
  then have "runs i w" by (auto simp: find_Some_iff runs_def)
  with Some show ?thesis by simp
qed

lemma toDrain_receive:
  assumes "runs i w" "wr_queue w \<noteq> []"
  shows "toDrain (workerReceive i b v w) = toDrain w - 1 \<and> toDrain w > 0"
  using assms running_upd [of i "wr_workers w"]
  by (cases "wr_queue w") (auto simp: toDrain_def workerReceive_def Let_def runs_def)

lemma toDrain_stop:
  assumes "runs i w" "wr_queue w = []"
  shows "toDrain (workerStop i b v w) = toDrain w - 1 \<and> toDrain w > 0"
proof -
  have "wr_workers w ! i \<in> set (filter wk_running (wr_workers w))" using assms(1) by (simp add: runs_def)
  then have "filter wk_running (wr_workers w) \<noteq> []" by force
  then show ?thesis
    using assms running_upd [of i "wr_workers w"] by (auto simp: toDrain_def workerStop_def runs_def)
qed

lemma drainStep_step:
  assumes "wr_closed w" "\<not> stopped w"
  shows "writerStep uuidParse w (drainStep b v w) \<and> toDrain (drainStep b v w) < toDrain w \<and> wr_closed (drainStep b v w)"
proof -
  obtain i where i: "find (\<lambda>i. wk_running (wr_workers w ! i)) [0..<length (wr_workers w)] = Some i" "runs i w"
    using find_running [of w] assms(2) by (auto split: option.splits)
  show ?thesis
  proof (cases "wr_queue w = []")
    case True
    then show ?thesis
      using i assms(1) toDrain_stop [OF i(2) True, of b v] writerStep.stop [where uuidParse = uuidParse and backend = b and waited = v, OF i(2)]
      by (simp add: drainStep_def workerStop_def)
  next
    case False
    then show ?thesis
      using i assms(1) toDrain_receive [OF i(2) False, of b v] writerStep.receive [where uuidParse = uuidParse and backend = b and waited = v, OF i(2) False]
      by (auto simp: drainStep_def workerReceive_def Let_def split: list.split)
  qed
qed

lemma drainStep_stopped: "stopped w \<Longrightarrow> drainStep b v w = w"
  using find_running [of w] by (auto simp: drainStep_def stopped_def runs_def split: option.splits)

lemma drain_reaches:
  assumes "writerReach uuidParse w" "wr_closed w" "toDrain w \<le> n"
  shows "writerReach uuidParse ((drainStep b v ^^ n) w) \<and> stopped ((drainStep b v ^^ n) w)"
  using assms
proof (induction n arbitrary: w)
  case 0
  then show ?case by (auto simp: toDrain_def stopped_def filter_empty_conv)
next
  case (Suc n)
  show ?case
  proof (cases "stopped w")
    case True
    then have "(drainStep b v ^^ m) w = w" for m by (induction m) (simp_all add: drainStep_stopped)
    with True Suc.prems show ?thesis by metis
  next
    case False
    note d = drainStep_step [OF Suc.prems(2) False, of uuidParse b v]
    then have "writerReach uuidParse (drainStep b v w)" using Suc.prems(1) writerReach.stepped by blast
    from Suc.IH [OF this] d Suc.prems(3) show ?thesis
      by (simp add: funpow_Suc_right del: funpow.simps)
  qed
qed

lemma drainStep_frame [simp]:
  "wr_accepted (drainStep b v w) = wr_accepted w" "wr_cancelled (drainStep b v w) = wr_cancelled w"
  by (simp_all add: drainStep_def workerStop_def workerReceive_def Let_def split: option.split list.split)

lemma drain_frame:
  "wr_accepted ((drainStep b v ^^ n) w) = wr_accepted w" "wr_cancelled ((drainStep b v ^^ n) w) = wr_cancelled w"
  by (induction n) simp_all

lemma stopped_finished:
  assumes "writerReach uuidParse w" "stopped w" "\<not> wr_cancelled w"
  shows "mset (wr_accepted w) = finished w \<and> wr_queue w = []"
proof -
  have ok: "writerOk w" using writerReach_ok [OF assms(1)] .
  then have ne: "wr_workers w \<noteq> []" by (simp add: writerOk_def workersOk_def)
  then have "\<exists>k \<in> set (wr_workers w). \<not> wk_running k" using assms(2) by (auto simp: stopped_def neq_Nil_conv)
  then have q: "wr_queue w = []" using writerOkD(5) [OF ok] assms(3) by (simp add: endedOk_def)
  have idle: "sum_list (map (mset \<circ> wk_batch) ks) = {#}" if "\<forall>k \<in> set ks. wk_batch k = []" for ks
    using that by (induction ks) auto
  have "\<forall>k \<in> set (wr_workers w). wk_batch k = []"
    using writerOkD(3) [OF ok] assms(2) by (simp add: workersOk_def stopped_def)
  then have "batched w = {#}" by (simp add: batched_def idle)
  with q show ?thesis using writerOkD(6) [OF ok] by simp
qed

end
