(* ===== verification/Influx.thy ===== *)
theory Influx
  imports Normalize
begin

text \<open>
  The InfluxDB 3 backend of the writer (\<open>internal/telemetrywriter/influx/backend.go\<close> and
  \<open>point.go\<close>): the conversion of a record to a point and the write of a batch.  The client library
  is a parameter: what creating the client, \<open>WritePoints\<close> and \<open>Close\<close> return.  A point is what
  \<open>influxdb3.NewPoint\<close> is given.
\<close>

section \<open>Configuration\<close>

record influxConfig =
  ic_Host :: string
  ic_Token :: string
  ic_Database :: string
  ic_Timeout :: int

text \<open>\<open>New\<close>; \<open>clientErr\<close> is what creating the client returns.\<close>

definition newBackend :: "influxConfig \<Rightarrow> goerror option \<Rightarrow> goerror option" where
  "newBackend config clientErr =
     (if ic_Host config = [] \<or> ic_Token config = [] \<or> ic_Database config = []
      then Some (OtherError ''InfluxDB 3 host, token, and database are required'')
      else (case clientErr of
          Some e \<Rightarrow> Some (OtherError (''create InfluxDB 3 client: '' @ errText e))
        | None \<Rightarrow> None))"

section \<open>Points\<close>

record point =
  pt_Measurement :: string
  pt_Tags :: "string gomap"
  pt_Fields :: Fields
  pt_Time :: "gotime option"

definition AircraftTelemetryMeasurement :: string where
  "AircraftTelemetryMeasurement = ''aircraft_telemetry''"

definition optionalField :: "string \<Rightarrow> string \<Rightarrow> Fields \<Rightarrow> Fields" where
  "optionalField name v fs = (if v \<noteq> [] then mput name (VText v) fs else fs)"

text \<open>The nanoseconds of a time; \<open>Validate\<close> has refused the zero time.\<close>

definition unixNano :: "gotime option \<Rightarrow> fieldValue" where
  "unixNano t = VInt (case t of None \<Rightarrow> 0 | Some n \<Rightarrow> n)"

definition pointTags :: "Record \<Rightarrow> string gomap" where
  "pointTags r = [(''agent_id'', id_AgentID (rec_Identity r)), (''frame_id'', src_FrameID (rec_Source r)),
     (''message_name'', rec_MessageName r), (''schema_version'', showNat (rec_SchemaVersion r))]"

text \<open>The assignments in the order of the code, each applied to the map built so far.\<close>

definition attributionFields :: "Record \<Rightarrow> Fields \<Rightarrow> Fields" where
  "attributionFields r fs0 =
     (let i = rec_Identity r;
          fs1 = mput ''relay_id'' (VText (id_RelayID i)) fs0;
          fs2 = optionalField ''operator_id'' (id_OperatorID i) fs1;
          fs3 = optionalField ''aircraft_id'' (id_AircraftID i) fs2;
          fs4 = optionalField ''flight_id'' (id_FlightID i) fs3;
          fs5 = optionalField ''intent_id'' (id_IntentID i) fs4
      in if id_IntentVersion i \<noteq> 0 then mput ''intent_version'' (VUint (unat (id_IntentVersion i))) fs5 else fs5)"

definition sourceFields :: "Record \<Rightarrow> Fields \<Rightarrow> Fields" where
  "sourceFields r fs0 =
     (let s = rec_Source r; t = rec_Timing r; i = rec_Identity r;
          fs1 = mput ''wal_sequence'' (VUint (unat (src_Sequence s))) fs0;
          fs2 = optionalField ''wal_id'' (src_WALID s) fs1;
          fs3 = mput ''message_id'' (VUint (unat (src_MessageID s))) fs2;
          fs4 = mput ''dialect'' (VText (src_Dialect s)) fs3;
          fs5 = mput ''timestamp_source'' (VText (tm_TimestampSource t)) fs4;
          fs6 = mput ''relay_time_ns'' (unixNano (tm_RelayTime t)) fs5
      in if id_SessionID i \<noteq> [] then mput ''session_id'' (VText (id_SessionID i)) fs6 else fs6)"

definition timingFields :: "Record \<Rightarrow> Fields \<Rightarrow> Fields" where
  "timingFields r fs0 =
     (let t = rec_Timing r;
          fs1 = (if tm_AgentCaptureTime t \<noteq> None
                 then mput ''agent_capture_time_ns'' (unixNano (tm_AgentCaptureTime t)) fs0 else fs0)
      in case tm_DeviceTime t of
           None \<Rightarrow> fs1
         | Some d \<Rightarrow> mput ''device_time_basis'' (VText (dt_Basis d))
             (mput ''device_time_unit'' (VText (dt_Unit d))
             (mput ''device_time_value'' (VUint (dt_Value d)) fs1)))"

definition componentFields :: "Record \<Rightarrow> Fields \<Rightarrow> Fields" where
  "componentFields r fs0 =
     (let s = rec_Source r;
          fs1 = (case src_SystemID s of None \<Rightarrow> fs0
                 | Some v \<Rightarrow> mput ''mavlink_system_id'' (VUint (unat v)) fs0)
      in case src_ComponentID s of None \<Rightarrow> fs1
         | Some v \<Rightarrow> mput ''mavlink_component_id'' (VUint (unat v)) fs1)"

definition recordToPoint :: "(string \<Rightarrow> string option) \<Rightarrow> Record \<Rightarrow> goerror + point" where
  "recordToPoint uuidParse record =
     (case Validate uuidParse record of
        Inl e \<Rightarrow> Inl (OtherError (''invalid normalized record: '' @ errText e))
      | Inr r \<Rightarrow> Inr \<lparr>pt_Measurement = AircraftTelemetryMeasurement, pt_Tags = pointTags r,
          pt_Fields = componentFields r (timingFields r (sourceFields r (attributionFields r
            (fold (\<lambda>(name, v). mput name v) (rec_Fields r) [])))),
          pt_Time = tm_EventTime (rec_Timing r)\<rparr>)"

section \<open>Batches\<close>

fun recordsToPoints :: "(string \<Rightarrow> string option) \<Rightarrow> Record list \<Rightarrow> goerror + point list" where
  "recordsToPoints uuidParse [] = Inr []"
| "recordsToPoints uuidParse (r # rs) =
     (case recordToPoint uuidParse r of
        Inl e \<Rightarrow> Inl e
      | Inr p \<Rightarrow> (case recordsToPoints uuidParse rs of Inl e \<Rightarrow> Inl e | Inr ps \<Rightarrow> Inr (p # ps)))"

text \<open>\<open>WriteBatch\<close>: its error and the points the client was given, if it was called; \<open>clientErr\<close> is
  what \<open>WritePoints\<close> returns.\<close>

definition WriteBatch :: "(string \<Rightarrow> string option) \<Rightarrow> Record list \<Rightarrow> goerror option \<Rightarrow>
    goerror option \<times> point list option" where
  "WriteBatch uuidParse records clientErr =
     (if records = [] then (None, None)
      else (case recordsToPoints uuidParse records of
          Inl e \<Rightarrow> (Some e, None)
        | Inr ps \<Rightarrow> (map_option (\<lambda>e. OtherError (''write InfluxDB 3 points: '' @ errText e)) clientErr, Some ps)))"

definition closeBackend :: "goerror option \<Rightarrow> goerror option" where
  "closeBackend clientErr =
     map_option (\<lambda>e. OtherError (''close InfluxDB 3 client: '' @ errText e)) clientErr"

section \<open>Facts\<close>

lemma recordsToPoints_valid:
  assumes "\<forall>r \<in> set rs. Validate uuidParse r = Inr r"
  shows "\<exists>ps. recordsToPoints uuidParse rs = Inr ps \<and> length ps = length rs \<and>
    map pt_Tags ps = map pointTags rs"
  using assms by (induction rs) (auto simp: recordToPoint_def)

lemma WriteBatch_valid:
  assumes "\<forall>r \<in> set rs. Validate uuidParse r = Inr r" "rs \<noteq> []"
  shows "\<exists>ps. WriteBatch uuidParse rs clientErr =
      (map_option (\<lambda>e. OtherError (''write InfluxDB 3 points: '' @ errText e)) clientErr, Some ps) \<and>
    map pt_Tags ps = map pointTags rs"
  using recordsToPoints_valid [OF assms(1)] assms(2) by (auto simp: WriteBatch_def)

end
