(* ===== verification/WriterProps.thy ===== *)
theory WriterProps
  imports NormalizeProofs Writer Gateway Influx
begin

text \<open>
  Properties of the normalized-telemetry writer and of its InfluxDB backend, from the envelope to the
  points.
\<close>

section \<open>Records of the registry's normalizers\<close>

text \<open>The names \<open>recordToPoint\<close> itself assigns.\<close>

definition identityNames :: "string list" where
  "identityNames = [''relay_id'', ''operator_id'', ''aircraft_id'', ''flight_id'', ''intent_id'', ''intent_version'']"

definition sourceNames :: "string list" where
  "sourceNames = [''wal_sequence'', ''wal_id'', ''message_id'', ''dialect'', ''timestamp_source'',
     ''relay_time_ns'', ''session_id'']"

definition timingNames :: "string list" where
  "timingNames = [''agent_capture_time_ns'', ''device_time_value'', ''device_time_unit'', ''device_time_basis'']"

definition componentNames :: "string list" where
  "componentNames = [''mavlink_system_id'', ''mavlink_component_id'']"

definition attributionNames :: "string list" where
  "attributionNames = identityNames @ sourceNames @ timingNames @ componentNames"

lemmas names_defs = attributionNames_def identityNames_def sourceNames_def timingNames_def componentNames_def

definition namesOk :: "Fields \<Rightarrow> bool" where
  "namesOk fs \<longleftrightarrow> mok fs \<and> mkeys fs \<inter> set attributionNames = {}"

named_theorems names_intros \<open>normalized fields whose names no attribution takes\<close>

lemma namesOk_Nil [names_intros]: "namesOk []"
  by (simp add: namesOk_def)

lemma namesOk_Cons [names_intros]:
  "namesOk fs \<Longrightarrow> n \<notin> mkeys fs \<Longrightarrow> n \<notin> set attributionNames \<Longrightarrow> namesOk ((n, v) # fs)"
  by (simp add: namesOk_def)

lemma namesOk_setWhen [names_intros]:
  "namesOk fs \<Longrightarrow> n \<notin> set attributionNames \<Longrightarrow> namesOk (setWhen v P n f fs)"
  by (auto simp: namesOk_def setWhen_def mkeys_mput split: option.split)

lemma namesOk_copies [names_intros]:
  assumes "namesOk fs" "n \<notin> set attributionNames"
  shows "namesOk (copyEnum fm n i fs)" "namesOk (copyUintAtMost fm n i m fs)"
    "namesOk (copyFloat32 fm n i fs)" "namesOk (copyScaledUintAtMost fm n i m d fs)"
    "namesOk (setScaled fm n i P d fs)"
  by (simp_all add: copyEnum_def copyUintAtMost_def copyFloat32_def copyScaledUintAtMost_def setScaled_def
      namesOk_setWhen assms)

lemma namesOk_fields:
  "namesOk (heartbeatFields fm)" "namesOk (sysStatusFields fm)" "namesOk (vfrHudFields fm)"
  "namesOk (extendedSysStateFields fm)" "namesOk (gpsRawIntFields fm)" "namesOk (systemTimeFields fm)"
  "namesOk (positionFields fm lat lon)" "namesOk (batteryFields fm bid)"
  unfolding heartbeatFields_def sysStatusFields_def vfrHudFields_def extendedSysStateFields_def
    gpsRawIntFields_def systemTimeFields_def positionFields_def batteryFields_def Let_def
  by (intro names_intros; simp add: names_defs)+

lemma validated_names:
  assumes "validated uuidParse b fs dt = Inr r" "uuidLaw uuidParse" "namesOk fs"
  shows "namesOk (rec_Fields r)"
  using Validate_Inr [OF assms(1) [unfolded validated_def] assms(2)] assms(3) by simp

definition normalized :: "(string \<Rightarrow> string option) \<Rightarrow> TelemetryEnvelope \<Rightarrow> string \<Rightarrow> Record \<Rightarrow> bool" where
  "normalized uuidParse env name r \<longleftrightarrow>
     Validate uuidParse r = Inr r \<and> attributed env name r \<and> namesOk (rec_Fields r)"

lemma normalizeWith_normalized:
  assumes "normalizeWith name fs dt uuidParse env = Inr r" "uuidLaw uuidParse" "\<And>fm. namesOk (fs fm)"
  shows "normalized uuidParse env name r"
proof -
  obtain b where b: "baseRecord uuidParse env name = Inr b"
    "validated uuidParse b (fs (env_Fields env)) (dt (env_Fields env)) = Inr r"
    using assms(1) by (auto simp: normalizeWith_def split: sum.splits)
  show ?thesis
    using validated_attributed [OF b(1) assms(2) b(2)] validated_names [OF b(2) assms(2,3)]
    by (simp add: normalized_def)
qed

lemma position_normalized:
  assumes "normalizeGlobalPositionInt uuidParse env = Inr r" "uuidLaw uuidParse"
  shows "normalized uuidParse env ''global_position_int'' r"
proof -
  obtain b lat lon where b: "baseRecord uuidParse env ''global_position_int'' = Inr b"
    "validated uuidParse b (positionFields (env_Fields env) lat lon) (bootDeviceTime (env_Fields env)) = Inr r"
    using assms(1) by (auto simp: normalizeGlobalPositionInt_def split: sum.splits if_splits)
  show ?thesis
    using validated_attributed [OF b(1) assms(2) b(2)] validated_names [OF b(2) assms(2) namesOk_fields(7)]
    by (simp add: normalized_def)
qed

lemma battery_normalized:
  assumes "normalizeBatteryStatus uuidParse env = Inr r" "uuidLaw uuidParse"
  shows "normalized uuidParse env ''battery_status'' r"
proof -
  obtain b bid where b: "baseRecord uuidParse env ''battery_status'' = Inr b"
    "validated uuidParse b (batteryFields (env_Fields env) bid) None = Inr r"
    using assms(1) by (auto simp: normalizeBatteryStatus_def split: sum.splits if_splits)
  show ?thesis
    using validated_attributed [OF b(1) assms(2) b(2)] validated_names [OF b(2) assms(2) namesOk_fields(8)]
    by (simp add: normalized_def)
qed

lemma registry_normalized:
  assumes "Lookup NewRegistry m = Some n" "n uuidParse env = Inr r" "uuidLaw uuidParse"
  shows "normalized uuidParse env (NormalizeMessageName m) r"
proof -
  note W = normalizeWith_normalized [OF _ assms(3)]
  note S = normalizeHeartbeat_def normalizeSysStatus_def normalizeVFRHUD_def
    normalizeExtendedSysState_def normalizeGPSRawInt_def normalizeSystemTime_def
  show ?thesis
    using assms(1,2) position_normalized [OF _ assms(3), of env r] battery_normalized [OF _ assms(3), of env r]
      W [OF _ namesOk_fields(1)] W [OF _ namesOk_fields(2)] W [OF _ namesOk_fields(3)]
      W [OF _ namesOk_fields(4)] W [OF _ namesOk_fields(5)] W [OF _ namesOk_fields(6)]
    by (auto simp: Lookup_def NewRegistry_eq S split: if_splits)
qed

section \<open>Points\<close>

lemma mget_copy:
  "mok fs \<Longrightarrow> mget (fold (\<lambda>(name, v). mput name v) fs acc) k =
    (case mget fs k of None \<Rightarrow> mget acc k | Some v \<Rightarrow> Some v)"
proof (induction fs arbitrary: acc)
  case (Cons p fs)
  show ?case
  proof (cases p)
    case (Pair n v)
    then have "mget fs n = None" using Cons.prems by (simp add: map_of_eq_None_iff)
    with Pair Cons show ?thesis by (auto simp: mget_mput split: option.split)
  qed
qed simp

lemma mget_optionalField: "mget (optionalField name v fs) k = (if k = name \<and> v \<noteq> [] then Some (VText v) else mget fs k)"
  by (simp add: optionalField_def mget_mput)

lemma mget_identity: "k \<notin> set identityNames \<Longrightarrow> mget (attributionFields r fs) k = mget fs k"
  by (simp add: attributionFields_def identityNames_def Let_def mget_mput mget_optionalField)

lemma mget_source: "k \<notin> set sourceNames \<Longrightarrow> mget (sourceFields r fs) k = mget fs k"
  by (simp add: sourceFields_def sourceNames_def Let_def mget_mput mget_optionalField)

lemma mget_timing: "k \<notin> set timingNames \<Longrightarrow> mget (timingFields r fs) k = mget fs k"
  by (simp add: timingFields_def timingNames_def Let_def mget_mput split: option.split)

lemma mget_component: "k \<notin> set componentNames \<Longrightarrow> mget (componentFields r fs) k = mget fs k"
  by (simp add: componentFields_def componentNames_def Let_def mget_mput split: option.split)

lemma mget_attribution:
  "k \<notin> set attributionNames \<Longrightarrow> mget (componentFields r (timingFields r (sourceFields r
     (attributionFields r fs)))) k = mget fs k"
  by (simp add: attributionNames_def mget_identity mget_source mget_timing mget_component)

lemma relay_id_stored:
  "mget (componentFields r (timingFields r (sourceFields r (attributionFields r fs)))) ''relay_id'' =
    Some (VText (id_RelayID (rec_Identity r)))"
proof -
  have "''relay_id'' \<notin> set componentNames" "''relay_id'' \<notin> set timingNames" "''relay_id'' \<notin> set sourceNames"
    by (simp_all add: names_defs)
  then show ?thesis
    by (simp add: mget_component mget_timing mget_source)
      (simp add: attributionFields_def Let_def mget_mput mget_optionalField)
qed

lemma wal_sequence_stored:
  "mget (componentFields r (timingFields r (sourceFields r fs))) ''wal_sequence'' =
    Some (VUint (unat (src_Sequence (rec_Source r))))"
proof -
  have "''wal_sequence'' \<notin> set componentNames" "''wal_sequence'' \<notin> set timingNames"
    by (simp_all add: names_defs)
  then show ?thesis
    by (simp add: mget_component mget_timing)
      (simp add: sourceFields_def Let_def mget_mput mget_optionalField)
qed

text \<open>A normalized record becomes a point without loss: every measured field is in the point under
  its own name with its own value, for none of the names the Relay adds for attribution is one of a
  measured field; the point carries the Relay, the WAL sequence number and the event time of the
  record.\<close>

theorem point_keeps_measurements:
  assumes "uuidLaw uuidParse" "Lookup NewRegistry m = Some n" "n uuidParse env = Inr r"
  shows "\<exists>p. recordToPoint uuidParse r = Inr p \<and>
    (\<forall>k v. mget (rec_Fields r) k = Some v \<longrightarrow> mget (pt_Fields p) k = Some v) \<and>
    mget (pt_Fields p) ''relay_id'' = Some (VText (env_RelayID env)) \<and>
    mget (pt_Fields p) ''wal_sequence'' = Some (VUint (unat (env_WALSequence env))) \<and>
    pt_Time p = env_TimestampAgent env"
proof -
  have norm: "Validate uuidParse r = Inr r" "attributed env (NormalizeMessageName m) r" "namesOk (rec_Fields r)"
    using registry_normalized [OF assms(2,3,1)] by (simp_all add: normalized_def)
  obtain p where p: "recordToPoint uuidParse r = Inr p" using norm(1) by (simp add: recordToPoint_def)
  have "mget (pt_Fields p) k = Some v" if "mget (rec_Fields r) k = Some v" for k v
  proof -
    have "k \<in> mkeys (rec_Fields r)" using mget_Some_mem [OF that] by force
    then have "k \<notin> set attributionNames" using norm(3) by (auto simp: namesOk_def)
    moreover have "mok (rec_Fields r)" using norm(3) by (simp add: namesOk_def)
    ultimately show ?thesis
      using p norm(1) that by (auto simp: recordToPoint_def mget_attribution mget_copy)
  qed
  moreover have "mget (pt_Fields p) ''relay_id'' = Some (VText (env_RelayID env)) \<and>
    mget (pt_Fields p) ''wal_sequence'' = Some (VUint (unat (env_WALSequence env))) \<and>
    pt_Time p = env_TimestampAgent env"
    using p norm(1,2) by (auto simp: recordToPoint_def attributed_def relay_id_stored wal_sequence_stored)
  ultimately show ?thesis using p by blast
qed

text \<open>A heartbeat of the example Agent.\<close>

definition exampleHeartbeat :: TelemetryEnvelope where
  "exampleHeartbeat = exampleEnvelope\<lparr>env_WALID := exampleUUID, env_MsgName := ''heartbeat'',
     env_Fields := [(''CustomMode'', ''4'')]\<rparr>"

lemma Lookup_heartbeat: "Lookup NewRegistry ''heartbeat'' = Some normalizeHeartbeat"
proof -
  have "NormalizeMessageName ''heartbeat'' = ''heartbeat''"
    using supported_canonical by (simp add: supportedMessages_def)
  then show ?thesis by (simp add: Lookup_def NewRegistry_eq)
qed

lemma exampleHeartbeat_normalizes: "\<exists>r. normalizeHeartbeat exampleParse exampleHeartbeat = Inr r"
proof -
  have "NormalizeMessageName ''heartbeat'' = ''heartbeat''"
    using supported_canonical by (simp add: supportedMessages_def)
  moreover have "baseReady exampleParse exampleHeartbeat"
    by (simp add: baseReady_def exampleHeartbeat_def exampleEnvelope_def exampleUUID_def parseWALID_def
        exampleParse_def trimSpace_visible visible_def nilUUID_def)
  ultimately show ?thesis
    using registry_ok [OF exampleParse_law _ _ Lookup_heartbeat, of exampleHeartbeat]
    by (simp add: normalizerOk_def requiredFields_def exampleHeartbeat_def exampleEnvelope_def)
qed

lemma point_keeps_measurements_witness:
  "\<exists>r p. normalizeHeartbeat exampleParse exampleHeartbeat = Inr r \<and> recordToPoint exampleParse r = Inr p \<and>
     mget (pt_Fields p) ''wal_sequence'' = Some (VUint 7)"
proof -
  obtain r where r: "normalizeHeartbeat exampleParse exampleHeartbeat = Inr r"
    using exampleHeartbeat_normalizes by blast
  have "unat (env_WALSequence exampleHeartbeat) = 7" by (simp add: exampleHeartbeat_def exampleEnvelope_def)
  with point_keeps_measurements [OF exampleParse_law Lookup_heartbeat r] r show ?thesis by auto
qed

text \<open>C22: The series and the time of a point are exactly the identity of the frame: two points of
  normalized records fall on each other, so that the database keeps one of them, just when they come
  from the same Agent, the same capture instant, the same WAL sequence number and the same message.
  A frame sent again after a lost acknowledgement overwrites itself; no two frames overwrite each
  other.\<close>

theorem point_identity_is_frame_identity:
  assumes "uuidLaw uuidParse"
    and "Lookup NewRegistry m1 = Some n1" "n1 uuidParse env1 = Inr r1"
    and "Lookup NewRegistry m2 = Some n2" "n2 uuidParse env2 = Inr r2"
  shows "\<exists>p1 p2. recordToPoint uuidParse r1 = Inr p1 \<and> recordToPoint uuidParse r2 = Inr p2 \<and>
    ((pt_Measurement p1 = pt_Measurement p2 \<and> pt_Tags p1 = pt_Tags p2 \<and> pt_Time p1 = pt_Time p2) \<longleftrightarrow>
     env_AgentID env1 = env_AgentID env2 \<and> env_TimestampAgent env1 = env_TimestampAgent env2 \<and>
     env_WALSequence env1 = env_WALSequence env2 \<and>
     NormalizeMessageName m1 = NormalizeMessageName m2)"
proof -
  have 1: "Validate uuidParse r1 = Inr r1" "attributed env1 (NormalizeMessageName m1) r1"
    using registry_normalized [OF assms(2,3,1)] by (simp_all add: normalized_def)
  have 2: "Validate uuidParse r2 = Inr r2" "attributed env2 (NormalizeMessageName m2) r2"
    using registry_normalized [OF assms(4,5,1)] by (simp_all add: normalized_def)
  then show ?thesis
    using 1 by (auto simp: recordToPoint_def pointTags_def attributed_def frameIDV1_eq_iff)
qed

lemma point_identity_is_frame_identity_witness:
  "\<exists>r1 r2 p1 p2. normalizeHeartbeat exampleParse exampleHeartbeat = Inr r1 \<and>
     normalizeHeartbeat exampleParse (exampleHeartbeat\<lparr>env_WALSequence := 8\<rparr>) = Inr r2 \<and>
     recordToPoint exampleParse r1 = Inr p1 \<and> recordToPoint exampleParse r2 = Inr p2 \<and>
     (pt_Tags p1 \<noteq> pt_Tags p2 \<or> pt_Time p1 \<noteq> pt_Time p2 \<or> pt_Measurement p1 \<noteq> pt_Measurement p2)"
proof -
  let ?env = "exampleHeartbeat\<lparr>env_WALSequence := 8\<rparr>"
  obtain r1 where r1: "normalizeHeartbeat exampleParse exampleHeartbeat = Inr r1"
    using exampleHeartbeat_normalizes by blast
  have "NormalizeMessageName ''heartbeat'' = ''heartbeat''"
    using supported_canonical by (simp add: supportedMessages_def)
  moreover have "baseReady exampleParse ?env"
    by (simp add: baseReady_def exampleHeartbeat_def exampleEnvelope_def exampleUUID_def parseWALID_def
        exampleParse_def trimSpace_visible visible_def nilUUID_def)
  ultimately obtain r2 where r2: "normalizeHeartbeat exampleParse ?env = Inr r2"
    using registry_ok [OF exampleParse_law _ _ Lookup_heartbeat, of ?env]
    by (auto simp: normalizerOk_def requiredFields_def exampleHeartbeat_def exampleEnvelope_def)
  have "env_WALSequence exampleHeartbeat \<noteq> env_WALSequence ?env"
    by (simp add: exampleHeartbeat_def exampleEnvelope_def)
  with point_identity_is_frame_identity [OF exampleParse_law Lookup_heartbeat r1 Lookup_heartbeat r2] r1 r2
  show ?thesis by blast
qed

section \<open>The writer\<close>

text \<open>Every record a writer on the registry's normalizers holds is one that validation accepts
  unchanged.\<close>

definition holdsValid :: "(string \<Rightarrow> string option) \<Rightarrow> writer \<Rightarrow> bool" where
  "holdsValid uuidParse w \<longleftrightarrow> (\<forall>r. r \<in> set (wr_queue w) \<or> r \<in> set (wr_senders w) \<or>
     (\<exists>k \<in> set (wr_workers w). r \<in> set (wk_batch k)) \<or> (\<exists>(b, e) \<in> set (wr_batches w). r \<in> set b) \<longrightarrow>
     Validate uuidParse r = Inr r)"

lemma holdsValid_batch:
  assumes "holdsValid uuidParse w" "i < length (wr_workers w)" "r \<in> set (wk_batch (wr_workers w ! i))"
  shows "Validate uuidParse r = Inr r"
  using assms(1) nth_mem [OF assms(2)] assms(3) unfolding holdsValid_def by blast

lemma holdsValid_updWorker:
  assumes "holdsValid uuidParse w" "\<And>r. r \<in> set (wk_batch (f (wr_workers w ! i))) \<Longrightarrow> Validate uuidParse r = Inr r"
  shows "holdsValid uuidParse (updWorker i f w)"
  using assms set_update_subset_insert [of "wr_workers w" i "f (wr_workers w ! i)"]
  by (fastforce simp: holdsValid_def)

lemma holdsValid_flush:
  assumes "holdsValid uuidParse w" "i < length (wr_workers w)"
  shows "holdsValid uuidParse (flush i b v w)"
proof -
  have own: "\<forall>r \<in> set (wk_batch (wr_workers w ! i)). Validate uuidParse r = Inr r"
    using holdsValid_batch [OF assms] by blast
  have "holdsValid uuidParse (updWorker i (\<lambda>k. k\<lparr>wk_batch := []\<rparr>) w)"
    by (rule holdsValid_updWorker [OF assms(1)]) simp
  with own assms(1) show ?thesis by (auto simp: flush_def Let_def holdsValid_def)
qed

lemma holdsValid_receive:
  assumes "holdsValid uuidParse w" "i < length (wr_workers w)"
  shows "holdsValid uuidParse (workerReceive i b v w)"
proof (cases "wr_queue w")
  case (Cons r rest)
  have "Validate uuidParse x = Inr x" if "x \<in> set (wk_batch (wr_workers w ! i)) \<or> x = r" for x
  proof (cases "x = r")
    case True
    with assms(1) Cons show ?thesis by (simp add: holdsValid_def)
  next
    case False
    with that holdsValid_batch [OF assms] show ?thesis by blast
  qed
  moreover have "holdsValid uuidParse (w\<lparr>wr_queue := rest\<rparr>)" using assms(1) Cons by (auto simp: holdsValid_def)
  ultimately have "holdsValid uuidParse (updWorker i (\<lambda>k. k\<lparr>wk_batch := wk_batch k @ [r]\<rparr>) (w\<lparr>wr_queue := rest\<rparr>))"
    by (intro holdsValid_updWorker) auto
  with assms(2) Cons show ?thesis by (simp add: workerReceive_def Let_def holdsValid_flush)
qed (use assms in \<open>simp add: workerReceive_def\<close>)

lemma writerStep_registry: "writerStep uuidParse w w' \<Longrightarrow> wr_registry w' = wr_registry w"
proof (induction rule: writerStep.induct)
  case (end_write r w sc)
  then show ?case by (cases sc) simp_all
qed (auto simp: writeEnvelopeBegin_def workerReceive_def workerStop_def closeBegin_def cancelWorkers_def
    closeEnd_def Let_def split: option.split sum.split list.split)

lemma holdsValid_step:
  assumes "writerStep uuidParse w w'" "uuidLaw uuidParse" "wr_registry w = NewRegistry" "holdsValid uuidParse w"
  shows "holdsValid uuidParse w'"
  using assms
proof (induction rule: writerStep.induct)
  case (begin_write w env)
  have "Validate uuidParse r = Inr r" if "Lookup NewRegistry (env_MsgName env) = Some n" "n uuidParse env = Inr r" for n r
    using registry_normalized [OF that begin_write(1)] by (simp add: normalized_def)
  with begin_write show ?case
    by (auto simp: writeEnvelopeBegin_def holdsValid_def split: option.split sum.split)
next
  case (end_write r w sc)
  then show ?case
    by (cases sc) (auto simp: holdsValid_def dest: notin_set_remove1)
next
  case (receive i w backend waited)
  then show ?case by (simp add: holdsValid_receive runs_def)
next
  case (tick i w backend waited)
  then show ?case by (simp add: holdsValid_flush runs_def)
next
  case (stop i w backend waited)
  then have "holdsValid uuidParse (flush i backend waited w)" by (simp add: holdsValid_flush runs_def)
  then show ?case unfolding workerStop_def
    by (rule holdsValid_updWorker) (use stop in \<open>simp add: runs_def\<close>)
qed (auto simp: closeBegin_def cancelWorkers_def closeEnd_def holdsValid_def)

lemma holdsValid_reach:
  "writerReach uuidParse w \<Longrightarrow> uuidLaw uuidParse \<Longrightarrow> wr_registry w = NewRegistry \<Longrightarrow> holdsValid uuidParse w"
proof (induction rule: writerReach.induct)
  case (created config registry w)
  then show ?case by (auto simp: NewWriter_def holdsValid_def idleWorker_def)
next
  case (stepped w w')
  then have "wr_registry w = NewRegistry" using writerStep_registry by metis
  with stepped show ?case using holdsValid_step by blast
qed

text \<open>A writer with one worker that has accepted one heartbeat and is shutting down.\<close>

definition exampleConfig :: writerConfig where
  "exampleConfig = \<lparr>wc_QueueCapacity = 2, wc_Workers = 1, wc_BatchSize = 2, wc_FlushInterval = 0,
     wc_EnqueueTimeout = 0, wc_WriteTimeout = 0, wc_MaxRetries = 1, wc_RetryBackoff = 0\<rparr>"

definition freshWriter :: writer where
  "freshWriter = \<lparr>wr_config = withDefaults exampleConfig, wr_registry = NewRegistry, wr_queue = [],
     wr_senders = [], wr_closed = False, wr_cancelled = False, wr_workers = [idleWorker],
     wr_backendErr = [], wr_accepted = [], wr_batches = []\<rparr>"

lemma freshWriter_reach: "writerReach exampleParse freshWriter"
proof (rule writerReach.created)
  show "NewWriter exampleConfig True None = Inr freshWriter"
    by (simp add: NewWriter_def freshWriter_def withDefaults_def exampleConfig_def)
qed

lemma example_writer:
  obtains r w where "writerReach exampleParse w" "wr_registry w = NewRegistry" "wr_accepted w = [r]"
    "wr_queue w = [r]" "wr_closed w" "\<not> wr_cancelled w" "wr_batches w = []"
proof -
  obtain r where r: "normalizeHeartbeat exampleParse exampleHeartbeat = Inr r"
    using exampleHeartbeat_normalizes by blast
  define w1 where "w1 = snd (writeEnvelopeBegin exampleParse exampleHeartbeat freshWriter)"
  have w1: "w1 = freshWriter\<lparr>wr_senders := [r]\<rparr>"
    using r Lookup_heartbeat by (simp add: w1_def writeEnvelopeBegin_def freshWriter_def exampleHeartbeat_def)
  define w2 where "w2 = snd (writeEnvelopeSelect SendRecord r w1)"
  have w2: "w2 = freshWriter\<lparr>wr_queue := [r], wr_accepted := [r]\<rparr>"
    by (simp add: w2_def w1 freshWriter_def)
  have "writerReach exampleParse w1"
    unfolding w1_def by (rule writerReach.stepped [OF freshWriter_reach writerStep.begin_write])
  then have "writerReach exampleParse w2"
    unfolding w2_def by (rule writerReach.stepped [OF _ writerStep.end_write])
      (simp_all add: w1 freshWriter_def withDefaults_def exampleConfig_def)
  then have "writerReach exampleParse (closeBegin w2)"
    by (rule writerReach.stepped [OF _ writerStep.close_begin]) (simp add: w2 freshWriter_def)
  then show ?thesis by (rule that) (simp_all add: w2 freshWriter_def closeBegin_def)
qed

text \<open>C21: No record poisons a batch: whatever a reachable writer on the registry's normalizers has
  queued, is collecting or has handed to the backend converts to points, one for each record in their
  order, so a batch fails only when the InfluxDB client reports a failure, and never with an error of
  the Relay's own.\<close>

theorem batches_convert:
  assumes "writerReach uuidParse w" "uuidLaw uuidParse" "wr_registry w = NewRegistry"
    and "b \<in> fst ` set (wr_batches w) \<union> wk_batch ` set (wr_workers w) \<union> {wr_queue w}" "b \<noteq> []"
  shows "\<exists>ps. WriteBatch uuidParse b clientErr =
      (map_option (\<lambda>e. OtherError (''write InfluxDB 3 points: '' @ errText e)) clientErr, Some ps) \<and>
    map pt_Tags ps = map pointTags b"
proof -
  have "\<forall>r \<in> set b. Validate uuidParse r = Inr r"
    using holdsValid_reach [OF assms(1-3)] assms(4) by (fastforce simp: holdsValid_def)
  then show ?thesis using assms(5) by (rule WriteBatch_valid)
qed

lemma batches_convert_witness:
  "\<exists>b ps. b \<noteq> [] \<and> WriteBatch exampleParse b None = (None, Some ps) \<and> length ps = length b"
proof -
  obtain r w where w: "writerReach exampleParse w" "wr_registry w = NewRegistry" "wr_queue w = [r]"
    using example_writer by metis
  have "wr_queue w \<in> fst ` set (wr_batches w) \<union> wk_batch ` set (wr_workers w) \<union> {wr_queue w}" by simp
  from batches_convert [OF w(1) exampleParse_law w(2) this, of None] w(3)
  obtain ps where ps: "WriteBatch exampleParse [r] None = (None, Some ps)" "map pt_Tags ps = map pointTags [r]"
    by auto
  then have "length ps = length [r]" by (metis length_map)
  with ps(1) show ?thesis by blast
qed

text \<open>C18: In every interleaving of callers, workers, ticks and shutdown, each accepted record is in
  exactly one place: the queue, one worker's batch, or one batch that was handed to the backend.
  Nothing is lost, duplicated or invented; the queue never exceeds its capacity, no batch its size, no
  empty batch is written, and once the queue is closed no caller can still send on it.\<close>

theorem accepted_records_accounted:
  assumes "writerReach uuidParse w"
  shows "mset (wr_accepted w) = mset (wr_queue w) + sum_list (map (mset \<circ> wk_batch) (wr_workers w)) +
      mset (concat (map fst (wr_batches w))) \<and>
    int (length (wr_queue w)) \<le> wc_QueueCapacity (wr_config w) \<and>
    (\<forall>k \<in> set (wr_workers w). int (length (wk_batch k)) < wc_BatchSize (wr_config w)) \<and>
    (\<forall>b \<in> fst ` set (wr_batches w). b \<noteq> [] \<and> int (length b) \<le> wc_BatchSize (wr_config w)) \<and>
    (wr_closed w \<longrightarrow> wr_senders w = [])"
  using writerReach_ok [OF assms]
  by (auto simp: writerOk_def workersOk_def batchesOk_def batched_def finished_def)

lemma accepted_records_accounted_witness:
  "\<exists>(w :: writer) r. wr_accepted w = [r] \<and> mset [r] = mset (wr_queue w) +
     sum_list (map (mset \<circ> wk_batch) (wr_workers w)) + mset (concat (map fst (wr_batches w)))"
proof -
  obtain r w where w: "writerReach exampleParse w" "wr_accepted w = [r]" using example_writer by metis
  show ?thesis
    using conjunct1 [OF accepted_records_accounted [OF w(1)]] w(2)
    by (intro exI [of _ w] exI [of _ r]) simp
qed

text \<open>C19: A shutdown ends and loses nothing: from a closed writer, as many steps of its workers as there
  are queued records and running workers lead to a state in which all of them have ended, and unless
  the caller's context cut the drain short, every record ever accepted has then been handed to the
  backend exactly once.  What \<open>Close\<close> then reports of the backend is the failure of the last batch
  that failed, and only that one.\<close>

theorem close_drains:
  assumes "writerReach uuidParse w" "wr_closed w"
    and "w' = (drainStep backend waited ^^ (length (wr_queue w) + length (filter wk_running (wr_workers w)))) w"
  shows "stopped w' \<and> writerReach uuidParse w' \<and>
    (\<not> wr_cancelled w \<longrightarrow> mset (wr_accepted w) = mset (concat (map fst (wr_batches w')))) \<and>
    fst (closeEnd None None w') = lastFailure (map snd (wr_batches w'))"
proof -
  have r: "writerReach uuidParse w'" "stopped w'"
    using drain_reaches [OF assms(1,2)] assms(3) by (simp_all add: toDrain_def)
  have "wr_accepted w' = wr_accepted w" "wr_cancelled w' = wr_cancelled w"
    by (simp_all add: assms(3) drain_frame)
  then show ?thesis
    using r stopped_finished [OF r] writerOkD(8) [OF writerReach_ok [OF r(1)]]
    by (simp add: finished_def closeEnd_def)
qed

lemma close_drains_witness:
  "\<exists>(w :: writer) (w' :: writer) r. wr_queue w = [r] \<and> stopped w' \<and> mset [r] = mset (concat (map fst (wr_batches w')))"
proof -
  obtain r w where w: "writerReach exampleParse w" "wr_closed w" "\<not> wr_cancelled w" "wr_accepted w = [r]"
    "wr_queue w = [r]"
    using example_writer by metis
  define w' where "w' = (drainStep (\<lambda>_. None) (\<lambda>_. None) ^^
      (length (wr_queue w) + length (filter wk_running (wr_workers w)))) w"
  show ?thesis
    using close_drains [OF w(1,2) w'_def] w(3-5)
    by (intro exI [of _ w] exI [of _ w'] exI [of _ r]) simp
qed

text \<open>C20: \<open>writeBatch\<close> calls the backend at least once and at most \<open>MaxRetries + 1\<close> times, in sequence,
  going on only after a failure whose wait was not cut short; it succeeds exactly when its last call
  did, and it gives up only at the last attempt or when its context ended.  The wait after attempt
  \<open>j\<close> is exactly the configured backoff doubled \<open>j\<close> times, as long as 63 bits hold it.\<close>

theorem write_batch_attempts:
  assumes "writeBatch (withDefaults c) backend waited = (err, calls, delays)"
  shows "\<exists>k. 0 \<le> k \<and> k \<le> wc_MaxRetries (withDefaults c) \<and> calls = [0..k] \<and>
    (\<forall>j. 0 \<le> j \<and> j < k \<longrightarrow> backend j \<noteq> None \<and> waited j = None) \<and>
    (err = [] \<longleftrightarrow> backend k = None) \<and>
    (err \<noteq> [] \<longrightarrow> k = wc_MaxRetries (withDefaults c) \<or> waited k \<noteq> None) \<and>
    (\<forall>j. 0 \<le> j \<and> j < int (length delays) \<longrightarrow>
       wc_RetryBackoff (withDefaults c) * 2 ^ nat j < 2 ^ 63 \<longrightarrow>
       delays ! nat j = wc_RetryBackoff (withDefaults c) * 2 ^ nat j)"
proof -
  let ?c = "withDefaults c"
  have exact: "map (retryDelay ?c) [0..m] ! nat j = wc_RetryBackoff ?c * 2 ^ nat j"
    if "0 \<le> j" "j < int (length (map (retryDelay ?c) [0..m]))" "wc_RetryBackoff ?c * 2 ^ nat j < 2 ^ 63" for j m
  proof -
    have "j \<le> m" using that(1,2) by (simp split: if_splits)
    then have "nat j < length [0..m]" "[0..m] ! nat j = j" using that(1) by (simp_all add: nth_upto)
    then show ?thesis using that(1,3) retryDelay_exact [of ?c j] by (simp del: length_upto)
  qed
  from writeLoop_calls [where attempt = 0 and c = ?c and backend = backend and waited = waited and err = "[]"]
  obtain k r where k: "0 \<le> k" "k \<le> wc_MaxRetries ?c" "\<forall>j \<in> {0..<k}. backend j \<noteq> None \<and> waited j = None"
    "(backend k = None \<or> k = wc_MaxRetries ?c) \<and> r = joinOf (backend k) \<and>
       writeLoop ?c backend waited 0 [] = (r, [0..k], map (retryDelay ?c) [0..k - 1])
     \<or> (\<exists>e x. k < wc_MaxRetries ?c \<and> backend k = Some e \<and> waited k = Some x \<and> r = [e, CtxError x] \<and>
       writeLoop ?c backend waited 0 [] = (r, [0..k], map (retryDelay ?c) [0..k]))"
    by auto
  have res: "calls = [0..k]" "err = [] \<longleftrightarrow> backend k = None"
    "err \<noteq> [] \<longrightarrow> k = wc_MaxRetries ?c \<or> waited k \<noteq> None" "\<exists>m. delays = map (retryDelay ?c) [0..m]"
    using assms k(4) by (auto simp: writeBatch_def)
  from res(4) obtain m where "delays = map (retryDelay ?c) [0..m]" ..
  with exact have "\<forall>j. 0 \<le> j \<and> j < int (length delays) \<longrightarrow> wc_RetryBackoff ?c * 2 ^ nat j < 2 ^ 63 \<longrightarrow>
      delays ! nat j = wc_RetryBackoff ?c * 2 ^ nat j" by blast
  with k(1-3) res(1-3) show ?thesis by (intro exI [of _ k]) auto
qed

text \<open>A backend whose first call fails.\<close>

definition exampleBackend :: "int \<Rightarrow> goerror option" where
  "exampleBackend j = (if j = 0 then Some ErrClosed else None)"

lemma write_batch_attempts_witness:
  "\<exists>calls delays. writeBatch (withDefaults exampleConfig) exampleBackend (\<lambda>_. None) = ([], calls, delays) \<and>
     calls = [0..1]"
proof -
  have cap: "wc_MaxRetries (withDefaults exampleConfig) = 1" by (simp add: withDefaults_def exampleConfig_def)
  obtain err calls delays where w: "writeBatch (withDefaults exampleConfig) exampleBackend (\<lambda>_. None) = (err, calls, delays)"
    by (cases "writeBatch (withDefaults exampleConfig) exampleBackend (\<lambda>_. None)")
  show ?thesis
    using write_batch_attempts [OF w, unfolded cap]
  proof (elim exE conjE)
    fix k :: int
    assume k: "0 \<le> k" "k \<le> 1" "calls = [0..k]" "(err = []) = (exampleBackend k = None)"
      "err \<noteq> [] \<longrightarrow> k = 1 \<or> None \<noteq> (None :: ctxErr option)"
    then have "k = 1" by (cases "k = 0") (simp_all add: exampleBackend_def)
    with k have "err = []" by (simp add: exampleBackend_def)
    with w k(3) \<open>k = 1\<close> show ?thesis by simp
  qed
qed

text \<open>The acknowledgement tells the Agent what became of the frame at the writer.  It is told to drop
  the frame only when the record was sent on the queue or no normalizer exists for the message; it is
  told never to send it again exactly when the frame cannot be normalized; and when the writer is
  closed, the queue stays full or the call is cancelled, it is told to retry.  The writer takes in a
  record exactly in the first case, and then that very record.\<close>

theorem writer_outcome_acknowledged:
  assumes "writeEnvelopeBegin uuidParse env w = (adm, w1)"
  shows "case Lookup (wr_registry w) (env_MsgName env) of
      None \<Rightarrow> adm = Returned None \<and> w1 = w \<and> ta_Status (frameAck frame (AdmitFrame u) None) = AckOK
    | Some n \<Rightarrow>
      (case n uuidParse env of
         Inl e \<Rightarrow> \<exists>err. adm = Returned (Some err) \<and> w1 = w \<and>
           ta_Status (frameAck frame (AdmitFrame u) (Some err)) = AckPermanentError
       | Inr r \<Rightarrow>
         if wr_closed w
         then \<exists>err. adm = Returned (Some err) \<and> w1 = w \<and>
           ta_Status (frameAck frame (AdmitFrame u) (Some err)) = AckRetryWithBackoff
         else adm = Offering r \<and> wr_accepted w1 = wr_accepted w \<and>
           (\<forall>sc v. let (err, v') = writeEnvelopeSelect sc r v in
              (ta_Status (frameAck frame (AdmitFrame u) err) = AckOK \<longleftrightarrow> sc = SendRecord) \<and>
              (ta_Status (frameAck frame (AdmitFrame u) err) = AckRetryWithBackoff \<longleftrightarrow> sc \<noteq> SendRecord) \<and>
              wr_accepted v' = wr_accepted v @ (if sc = SendRecord then [r] else [])))"
proof -
  have sel: "let (err, v') = writeEnvelopeSelect sc r v in
      (ta_Status (frameAck frame (AdmitFrame u) err) = AckOK \<longleftrightarrow> sc = SendRecord) \<and>
      (ta_Status (frameAck frame (AdmitFrame u) err) = AckRetryWithBackoff \<longleftrightarrow> sc \<noteq> SendRecord) \<and>
      wr_accepted v' = wr_accepted v @ (if sc = SendRecord then [r] else [])" for sc r v
    by (cases sc) (simp_all add: frameAck_def ErrQueueFull_def)
  have acks: "ta_Status (frameAck frame (AdmitFrame u) None) = AckOK"
    "ta_Status (frameAck frame (AdmitFrame u) (Some (ErrNormalize e))) = AckPermanentError"
    "ta_Status (frameAck frame (AdmitFrame u) (Some ErrClosed)) = AckRetryWithBackoff" for e
    by (simp_all add: frameAck_def ErrNormalize_def ErrClosed_def)
  show ?thesis
  proof (cases "Lookup (wr_registry w) (env_MsgName env)")
    case None
    then show ?thesis using assms acks by (simp add: writeEnvelopeBegin_def)
  next
    case (Some n)
    show ?thesis
    proof (cases "n uuidParse env")
      case (Inl e)
      then show ?thesis using assms Some acks by (auto simp: writeEnvelopeBegin_def)
    next
      case (Inr r)
      show ?thesis
      proof (cases "wr_closed w")
        case True
        then show ?thesis using assms Some Inr acks by (auto simp: writeEnvelopeBegin_def)
      next
        case False
        then have "adm = Offering r" "wr_accepted w1 = wr_accepted w"
          using assms Some Inr by (auto simp: writeEnvelopeBegin_def)
        with sel show ?thesis by (simp only: Some Inr False option.case sum.case if_False simp_thms)
      qed
    qed
  qed
qed

lemma writer_outcome_acknowledged_witness:
  "\<exists>r w1. writeEnvelopeBegin exampleParse exampleHeartbeat freshWriter = (Offering r, w1)"
proof -
  obtain r where r: "normalizeHeartbeat exampleParse exampleHeartbeat = Inr r"
    using exampleHeartbeat_normalizes by blast
  obtain adm w1 where w1: "writeEnvelopeBegin exampleParse exampleHeartbeat freshWriter = (adm, w1)"
    by (cases "writeEnvelopeBegin exampleParse exampleHeartbeat freshWriter")
  have "wr_registry freshWriter = NewRegistry" "\<not> wr_closed freshWriter" "env_MsgName exampleHeartbeat = ''heartbeat''"
    by (simp_all add: freshWriter_def exampleHeartbeat_def)
  with writer_outcome_acknowledged [OF w1] r Lookup_heartbeat have "adm = Offering r" by simp
  with w1 show ?thesis by blast
qed

end
