(* ===== verification/Config.thy ===== *)
theory Config
  imports Auth Relay
begin

text \<open>
  The configuration of the Relay (\<open>internal/config/config.go\<close>): its sections, and what \<open>Load\<close> makes
  of a file: defaults and validation.  Reading the file, expanding its environment variables and
  parsing YAML are parameters.  A nil section or pointer is \<open>None\<close>.
\<close>

section \<open>Sections\<close>

record MessageFilterConfig =
  IncludeMessages :: "string list"
  ExcludeMessages :: "string list"

record S3Config =
  s3_Bucket :: string
  s3_Region :: string
  s3_AccessKey :: string
  s3_SecretKey :: string
  s3_Prefix :: string
  s3_FlushInterval :: int
  s3_QueueSize :: int
  s3_BackpressurePolicy :: string
  s3_Filter :: MessageFilterConfig

record GCSConfig =
  gcs_Bucket :: string
  gcs_ProjectID :: string
  gcs_Credentials :: string
  gcs_Prefix :: string
  gcs_FlushInterval :: int
  gcs_QueueSize :: int
  gcs_BackpressurePolicy :: string
  gcs_Filter :: MessageFilterConfig

record BigQueryConfig =
  bq_ProjectID :: string
  bq_Dataset :: string
  bq_Table :: string
  bq_Credentials :: string
  bq_BatchSize :: int
  bq_FlushInterval :: string
  bq_QueueSize :: int
  bq_BackpressurePolicy :: string
  bq_Filter :: MessageFilterConfig

record TimestreamConfig =
  ts_Database :: string
  ts_Table :: string
  ts_Region :: string
  ts_AccessKey :: string
  ts_SecretKey :: string
  ts_SessionToken :: string
  ts_BatchSize :: int
  ts_FlushInterval :: string
  ts_QueueSize :: int
  ts_BackpressurePolicy :: string
  ts_Filter :: MessageFilterConfig

record InfluxDBConfig =
  inf_URL :: string
  inf_Database :: string
  inf_Username :: string
  inf_Password :: string
  inf_Token :: string
  inf_Organization :: string
  inf_Bucket :: string
  inf_BatchSize :: int
  inf_FlushInterval :: string
  inf_QueueSize :: int
  inf_BackpressurePolicy :: string
  inf_Filter :: MessageFilterConfig

record PrometheusConfig =
  prom_URL :: string
  prom_Job :: string
  prom_Instance :: string
  prom_BatchSize :: int
  prom_FlushInterval :: string
  prom_QueueSize :: int
  prom_BackpressurePolicy :: string
  prom_Filter :: MessageFilterConfig

record ElasticsearchConfig =
  es_URLs :: "string list"
  es_Index :: string
  es_Username :: string
  es_Password :: string
  es_APIKey :: string
  es_BatchSize :: int
  es_FlushInterval :: string
  es_QueueSize :: int
  es_BackpressurePolicy :: string
  es_Filter :: MessageFilterConfig

record KafkaConfig =
  kfk_Brokers :: "string list"
  kfk_Topic :: string
  kfk_QueueSize :: int
  kfk_BackpressurePolicy :: string
  kfk_Filter :: MessageFilterConfig

record FileConfig =
  file_Path :: string
  file_Prefix :: string
  file_Format :: string
  file_RotationInterval :: int
  file_QueueSize :: int
  file_BackpressurePolicy :: string
  file_Filter :: MessageFilterConfig

record SinksConfig =
  S3 :: "S3Config option"
  GCS :: "GCSConfig option"
  BigQuery :: "BigQueryConfig option"
  Timestream :: "TimestreamConfig option"
  InfluxDB :: "InfluxDBConfig option"
  Prometheus :: "PrometheusConfig option"
  Elasticsearch :: "ElasticsearchConfig option"
  Kafka :: "KafkaConfig option"
  File :: "FileConfig option"

record RegistryTLSConfig =
  rtls_Enabled :: bool
  rtls_CAFile :: string
  rtls_ServerName :: string

record RegistryConfig =
  reg_Enabled :: bool
  reg_Address :: string
  reg_RelayID :: string
  reg_AdvertiseAddress :: string
  reg_HeartbeatInterval :: int
  reg_RequestTimeout :: int
  reg_TLS :: RegistryTLSConfig

record NormalizedInfluxDBConfig =
  nidb_Host :: string
  nidb_Token :: string
  nidb_Database :: string

record TelemetryConfig =
  tel_Enabled :: bool
  tel_Backend :: string
  tel_QueueCapacity :: int
  tel_Workers :: int
  tel_BatchSize :: int
  tel_FlushInterval :: int
  tel_EnqueueTimeout :: int
  tel_WriteTimeout :: int
  tel_MaxRetries :: "int option"
  tel_RetryBackoff :: int
  tel_RelayID :: string
  tel_AgentMappings :: "agentMapping gomap"
  tel_InfluxDB :: "NormalizedInfluxDBConfig option"

record LoggingConfig =
  log_Level :: string
  log_Format :: string
  log_Output :: string
  log_File :: string

record Config =
  cfg_Sinks :: SinksConfig
  cfg_Registry :: RegistryConfig
  cfg_AgentTokens :: "string gomap"
  cfg_ControlAuth :: controlAuthConfig
  cfg_Telemetry :: TelemetryConfig
  cfg_Logging :: LoggingConfig
  cfg_Debug :: bool
  cfg_TLSCertPath :: string
  cfg_TLSKeyPath :: string
  cfg_GrpcPort :: int
  cfg_BufferSize :: int

section \<open>Defaults\<close>

definition orText :: "string \<Rightarrow> string \<Rightarrow> string" where
  "orText d v = (if v = [] then d else v)"

definition orPositive :: "int \<Rightarrow> int \<Rightarrow> int" where
  "orPositive d v = (if v \<le> 0 then d else v)"

definition loggingDefaults :: "LoggingConfig \<Rightarrow> LoggingConfig" where
  "loggingDefaults l = l\<lparr>log_Level := orText ''info'' (log_Level l),
     log_Format := orText ''text'' (log_Format l), log_Output := orText ''stdout'' (log_Output l)\<rparr>"

definition registryDefaults :: "string \<Rightarrow> RegistryConfig \<Rightarrow> RegistryConfig" where
  "registryDefaults telemetryRelayID c =
     (if \<not> reg_Enabled c then c
      else c\<lparr>reg_RelayID := orText telemetryRelayID (reg_RelayID c),
        reg_HeartbeatInterval := orPositive (10 * second) (reg_HeartbeatInterval c),
        reg_RequestTimeout := orPositive (5 * second) (reg_RequestTimeout c)\<rparr>)"

definition telemetryDefaults :: "TelemetryConfig \<Rightarrow> TelemetryConfig" where
  "telemetryDefaults c =
     (if \<not> tel_Enabled c then c
      else c\<lparr>tel_Backend := orText ''influxdb3'' (tel_Backend c),
        tel_QueueCapacity := orPositive 10000 (tel_QueueCapacity c),
        tel_Workers := orPositive 2 (tel_Workers c),
        tel_BatchSize := orPositive 500 (tel_BatchSize c),
        tel_FlushInterval := orPositive second (tel_FlushInterval c),
        tel_EnqueueTimeout := orPositive (100 * millisecond) (tel_EnqueueTimeout c),
        tel_WriteTimeout := orPositive (5 * second) (tel_WriteTimeout c),
        tel_MaxRetries := (case tel_MaxRetries c of None \<Rightarrow> Some 3 | Some n \<Rightarrow> Some n),
        tel_RetryBackoff := orPositive (200 * millisecond) (tel_RetryBackoff c)\<rparr>)"

definition applyDefaults :: "Config \<Rightarrow> Config" where
  "applyDefaults c = c\<lparr>cfg_Logging := loggingDefaults (cfg_Logging c),
     cfg_Registry := registryDefaults (tel_RelayID (cfg_Telemetry c)) (cfg_Registry c),
     cfg_Telemetry := telemetryDefaults (cfg_Telemetry c)\<rparr>"

section \<open>Validation\<close>

text \<open>The loop over the allowed identities, with the ones already seen.\<close>

fun checkIdentities :: "string list \<Rightarrow> string list \<Rightarrow> goerror option" where
  "checkIdentities seen [] = None"
| "checkIdentities seen (identity # rest) =
     (if identity = [] \<or> identity \<noteq> trimSpace identity
      then Some (OtherError ''control_auth.allowed_identities contains an empty or untrimmed identity'')
      else if identity \<in> set seen
      then Some (OtherError (''control_auth.allowed_identities contains duplicate identity '' @ identity))
      else checkIdentities (identity # seen) rest)"

definition validateControlAuth :: "Config \<Rightarrow> goerror option" where
  "validateControlAuth c =
     (let a = cfg_ControlAuth c in
      if \<not> ca_Enabled a then None
      else if ca_ClientCAFile a = [] \<or> ca_ClientCAFile a \<noteq> trimSpace (ca_ClientCAFile a)
      then Some (OtherError ''control_auth.client_ca_file is required without surrounding whitespace when control authentication is enabled'')
      else if ca_AllowedIdentities a = []
      then Some (OtherError ''control_auth.allowed_identities is required when control authentication is enabled'')
      else checkIdentities [] (ca_AllowedIdentities a))"

fun checkAgentTokens :: "string gomap \<Rightarrow> goerror option" where
  "checkAgentTokens [] = None"
| "checkAgentTokens ((aid, token) # rest) =
     (if aid = [] \<or> aid \<noteq> trimSpace aid
      then Some (OtherError ''agent_auth.tokens contains an empty or untrimmed agent ID'')
      else if token = [] \<or> token \<noteq> trimSpace token
      then Some (OtherError (''agent_auth token for '' @ aid @ '' is empty or has surrounding whitespace''))
      else checkAgentTokens rest)"

definition validateRegistry :: "Config \<Rightarrow> goerror option" where
  "validateRegistry c =
     (let r = cfg_Registry c in
      if \<not> reg_Enabled r then None
      else if reg_Address r = []
      then Some (OtherError ''registry address is required when registry reporting is enabled'')
      else if reg_RelayID r = []
      then Some (OtherError ''registry relay_id is required when registry reporting is enabled'')
      else if reg_AdvertiseAddress r = []
      then Some (OtherError ''registry advertise_address is required when registry reporting is enabled'')
      else if cfg_AgentTokens c = []
      then Some (OtherError ''agent_auth.tokens is required when registry reporting is enabled'')
      else checkAgentTokens (cfg_AgentTokens c))"

text \<open>\<open>Load\<close>: \<open>file\<close> is what reading the file gives, \<open>parse\<close> what the YAML parser gives on the
  expanded text.\<close>

definition Load :: "goerror + string \<Rightarrow> (string \<Rightarrow> string) \<Rightarrow> (string \<Rightarrow> goerror + Config) \<Rightarrow> goerror + Config" where
  "Load file expandEnv parse =
     (case file of
        Inl e \<Rightarrow> Inl (Sentinel ''failed to read config file'' ('': '' @ errText e))
      | Inr text \<Rightarrow>
        (case parse (expandEnv text) of
           Inl e \<Rightarrow> Inl (Sentinel ''failed to parse config file'' ('': '' @ errText e))
         | Inr parsed \<Rightarrow>
             (let c = applyDefaults parsed in
              case validateRegistry c of
                Some e \<Rightarrow> Inl e
              | None \<Rightarrow> (case validateControlAuth c of Some e \<Rightarrow> Inl e | None \<Rightarrow> Inr c))))"

section \<open>Facts\<close>

lemma checkIdentities_None:
  "checkIdentities seen ids = None \<longleftrightarrow>
    (\<forall>i \<in> set ids. i \<noteq> [] \<and> i = trimSpace i) \<and> distinct ids \<and> set seen \<inter> set ids = {}"
  by (induction ids arbitrary: seen) auto

lemma checkAgentTokens_None: "checkAgentTokens m = None \<longleftrightarrow> checkTokens m = None"
  by (induction m rule: checkAgentTokens.induct) auto

lemma applyDefaults_idem: "applyDefaults (applyDefaults c) = applyDefaults c"
  by (simp add: applyDefaults_def loggingDefaults_def registryDefaults_def telemetryDefaults_def
      orText_def orPositive_def split: option.split)

end
