(* ===== verification/Lifecycle.thy ===== *)
theory Lifecycle
  imports Config Writer Influx Reporter
begin

text \<open>
  The Relay's own life (\<open>internal/relay/relay.go\<close>): construction of its outputs, start, shutdown and
  close.  What the operating system, the sinks' constructors and the client libraries return are
  parameters.  Two histories are kept: the consumers the router closed, and how often the registry
  reporter was closed.
\<close>

section \<open>State\<close>

text \<open>\<open>lc_router\<close> is \<open>None\<close> before \<open>initializeOutputs\<close>; \<open>lc_registry\<close> holds what closing the registry
  reporter returns, once there is one; \<open>lc_sinks\<close> pairs each sink with what closing it returns.\<close>

record lifecycle =
  lc_router :: "route list option"
  lc_sinks :: "(string \<times> goerror option) list"
  lc_registry :: "goerror option option"
  lc_outputsInitialized :: bool
  lc_closeDone :: bool
  lc_closeErr :: joinedError
  lc_published :: bool
  lc_serving :: bool
  lc_closedConsumers :: "string list"
  lc_registryCloses :: nat

definition newLifecycle :: lifecycle where
  "newLifecycle = \<lparr>lc_router = None, lc_sinks = [], lc_registry = None, lc_outputsInitialized = False,
     lc_closeDone = False, lc_closeErr = [], lc_published = False, lc_serving = False,
     lc_closedConsumers = [], lc_registryCloses = 0\<rparr>"

definition routesOf :: "lifecycle \<Rightarrow> route list" where
  "routesOf l = (case lc_router l of None \<Rightarrow> [] | Some rs \<Rightarrow> rs)"

definition wrapError :: "string \<Rightarrow> goerror \<Rightarrow> goerror" where
  "wrapError prefix e = OtherError (prefix @ '': '' @ errText e)"

text \<open>The text of a joined error: its parts on lines of their own.\<close>

fun joinText :: "joinedError \<Rightarrow> string" where
  "joinText [] = []"
| "joinText [e] = errText e"
| "joinText (e # es) = errText e @ [CHR 0x0A] @ joinText es"

section \<open>Closing\<close>

text \<open>\<open>router.Close\<close>, with its error as a list.\<close>

definition closeRouter :: "lifecycle \<Rightarrow> joinedError \<times> lifecycle" where
  "closeRouter l =
     ((case closeRoutes (routesOf l) None of None \<Rightarrow> [] | Some (name, e) \<Rightarrow> [wrapError name e]),
      l\<lparr>lc_closedConsumers := lc_closedConsumers l @ map (\<lambda>r. consumerName (route_consumer r)) (routesOf l)\<rparr>)"

definition closeRegistry :: "lifecycle \<Rightarrow> joinedError \<times> lifecycle" where
  "closeRegistry l =
     (case lc_registry l of
        None \<Rightarrow> ([], l)
      | Some err \<Rightarrow> (joinOf err, l\<lparr>lc_registryCloses := Suc (lc_registryCloses l)\<rparr>))"

text \<open>\<open>Close\<close>: once; without a router the sinks are closed directly.\<close>

definition CloseRelay :: "lifecycle \<Rightarrow> joinedError \<times> lifecycle" where
  "CloseRelay l =
     (if lc_closeDone l then (lc_closeErr l, l)
      else
        (let (outErrs, l1) = (case lc_router l of
               Some rs \<Rightarrow> closeRouter l
             | None \<Rightarrow> (concat (map (joinOf \<circ> snd) (lc_sinks l)),
                  l\<lparr>lc_closedConsumers := lc_closedConsumers l @ map fst (lc_sinks l)\<rparr>));
             (regErrs, l2) = closeRegistry l1;
             errs = lc_closeErr l @ outErrs @ regErrs
         in (errs, l2\<lparr>lc_closeDone := True, lc_closeErr := errs\<rparr>)))"

section \<open>Outputs\<close>

definition filterFromConfig :: "MessageFilterConfig \<Rightarrow> MessageFilter" where
  "filterFromConfig f = \<lparr>Include = IncludeMessages f, Exclude = ExcludeMessages f\<rparr>"

definition addSinkConsumer :: "consumer \<Rightarrow> MessageFilterConfig \<Rightarrow> lifecycle \<Rightarrow> lifecycle" where
  "addSinkConsumer c f l = l\<lparr>lc_router := map_option (AddConsumer c (filterFromConfig f)) (lc_router l)\<rparr>"

text \<open>One of the nine blocks of \<open>initializeSinks\<close>: \<open>conf\<close> is the filter of a configured sink, \<open>made\<close>
  what its constructor returns.\<close>

definition sinkBlock :: "string \<Rightarrow> string \<Rightarrow> MessageFilterConfig option \<Rightarrow> goerror + consumer \<Rightarrow>
    joinedError \<times> lifecycle \<Rightarrow> joinedError \<times> lifecycle" where
  "sinkBlock name descr conf made st =
     (case st of (errs, l) \<Rightarrow>
        if errs \<noteq> [] then (errs, l)
        else (case conf of
            None \<Rightarrow> ([], l)
          | Some f \<Rightarrow>
            (case made of
               Inl e \<Rightarrow> ([wrapError (''failed to create '' @ descr @ '' sink'') e], l)
             | Inr c \<Rightarrow> ([], addSinkConsumer (c\<lparr>consumerName := name\<rparr>) f
                 (l\<lparr>lc_sinks := lc_sinks l @ [(name, closeConsumer c)]\<rparr>)))))"

definition initializeSinks :: "SinksConfig \<Rightarrow> (string \<Rightarrow> goerror + consumer) \<Rightarrow> lifecycle \<Rightarrow>
    joinedError \<times> lifecycle" where
  "initializeSinks s mk l =
     sinkBlock ''file'' ''file'' (map_option file_Filter (File s)) (mk ''file'')
     (sinkBlock ''kafka'' ''Kafka'' (map_option kfk_Filter (Kafka s)) (mk ''kafka'')
     (sinkBlock ''elasticsearch'' ''Elasticsearch'' (map_option es_Filter (Elasticsearch s)) (mk ''elasticsearch'')
     (sinkBlock ''prometheus'' ''Prometheus'' (map_option prom_Filter (Prometheus s)) (mk ''prometheus'')
     (sinkBlock ''influxdb'' ''InfluxDB'' (map_option inf_Filter (InfluxDB s)) (mk ''influxdb'')
     (sinkBlock ''timestream'' ''Timestream'' (map_option ts_Filter (Timestream s)) (mk ''timestream'')
     (sinkBlock ''bigquery'' ''BigQuery'' (map_option bq_Filter (BigQuery s)) (mk ''bigquery'')
     (sinkBlock ''gcs'' ''GCS'' (map_option gcs_Filter (GCS s)) (mk ''gcs'')
     (sinkBlock ''s3'' ''S3'' (map_option s3_Filter (S3 s)) (mk ''s3'') ([], l)))))))))"

text \<open>The no-op writer, and \<open>newTelemetryWriter\<close>: \<open>clientErr\<close> is what creating the InfluxDB client returns.\<close>

definition noopConsumer :: consumer where
  "noopConsumer = \<lparr>consumerName = ConsumerName, writeEnvelope = (\<lambda>envelope. None), closeConsumer = None\<rparr>"

datatype telemetryConsumer = NoopWriter | TelemetryWriter writer

definition writerConfigOf :: "TelemetryConfig \<Rightarrow> writerConfig" where
  "writerConfigOf c = \<lparr>wc_QueueCapacity = tel_QueueCapacity c, wc_Workers = tel_Workers c,
     wc_BatchSize = tel_BatchSize c, wc_FlushInterval = tel_FlushInterval c,
     wc_EnqueueTimeout = tel_EnqueueTimeout c, wc_WriteTimeout = tel_WriteTimeout c,
     wc_MaxRetries = (case tel_MaxRetries c of None \<Rightarrow> 3 | Some n \<Rightarrow> n),
     wc_RetryBackoff = tel_RetryBackoff c\<rparr>"

definition newTelemetryWriter :: "TelemetryConfig \<Rightarrow> goerror option \<Rightarrow> goerror + telemetryConsumer" where
  "newTelemetryWriter c clientErr =
     (if tel_Backend c = ''noop'' then Inr NoopWriter
      else if trimSpace (tel_RelayID c) = []
      then Inl (OtherError ''normalized telemetry relay ID is required'')
      else if tel_Backend c \<noteq> ''influxdb3''
      then Inl (OtherError (''unsupported normalized telemetry backend '' @ tel_Backend c))
      else (case tel_InfluxDB c of
          None \<Rightarrow> Inl (OtherError ''normalized telemetry InfluxDB 3 configuration is required'')
        | Some db \<Rightarrow>
          (case newBackend \<lparr>ic_Host = nidb_Host db, ic_Token = nidb_Token db, ic_Database = nidb_Database db,
               ic_Timeout = tel_WriteTimeout c\<rparr> clientErr of
             Some e \<Rightarrow> Inl (wrapError ''initialize normalized telemetry InfluxDB 3 backend'' e)
           | None \<Rightarrow>
             (case NewWriter (writerConfigOf c) True None of
                Inl e \<Rightarrow> Inl (wrapError ''initialize normalized telemetry writer'' e)
              | Inr w \<Rightarrow> Inr (TelemetryWriter w)))))"

text \<open>The configuration \<open>newRegistryReporter\<close> hands to the reporter's \<open>New\<close>, and \<open>New\<close> itself up to
  its client: the transport credentials, the dialling and the wait for the connection.\<close>

definition reporterConfigOf :: "RegistryConfig \<Rightarrow> int \<Rightarrow> reporterConfig" where
  "reporterConfigOf c port = \<lparr>rc_Address = reg_Address c, rc_RelayID = reg_RelayID c,
     rc_AdvertiseAddress = reg_AdvertiseAddress c, rc_RelayGRPCPort = port,
     rc_HeartbeatInterval = reg_HeartbeatInterval c, rc_RequestTimeout = reg_RequestTimeout c\<rparr>"

datatype connState = ConnReady | ConnShutdown | ConnOther

text \<open>\<open>waitForReady\<close> over the states the connection goes through; the context ends after the last.\<close>

fun waitForReady :: "ctxErr \<Rightarrow> connState list \<Rightarrow> goerror option" where
  "waitForReady ended [] = Some (CtxError ended)"
| "waitForReady ended (ConnReady # _) = None"
| "waitForReady ended (ConnShutdown # _) =
     Some (OtherError ''registry connection shut down before becoming ready'')"
| "waitForReady ended (ConnOther # rest) = waitForReady ended rest"

text \<open>\<open>credentialsFor\<close>: without TLS the connection is in the clear; otherwise it has the server name to
  verify and the PEM text appended to the system's roots.\<close>

datatype registryCreds = InsecureCreds | TLSCreds string "string option"

definition credentialsFor :: "RegistryTLSConfig \<Rightarrow> goerror + string \<Rightarrow> goerror option \<Rightarrow> (string \<Rightarrow> bool) \<Rightarrow>
    goerror + registryCreds" where
  "credentialsFor t caFile poolErr hasCertificates =
     (if \<not> rtls_Enabled t then Inr InsecureCreds
      else if rtls_CAFile t = [] then Inr (TLSCreds (rtls_ServerName t) None)
      else (case caFile of
          Inl e \<Rightarrow> Inl (wrapError ''read registry CA'' e)
        | Inr pem \<Rightarrow>
          (case poolErr of
             Some e \<Rightarrow> Inl (wrapError ''load system certificate pool'' e)
           | None \<Rightarrow>
               if \<not> hasCertificates pem then Inl (OtherError ''registry CA file contains no certificates'')
               else Inr (TLSCreds (rtls_ServerName t) (Some pem)))))"

definition NewReporter :: "reporterConfig \<Rightarrow> goerror + registryCreds \<Rightarrow> goerror option \<Rightarrow> ctxErr \<Rightarrow>
    connState list \<Rightarrow> goerror + reporterConfig" where
  "NewReporter given creds dialErr ended states =
     (let config = reporterDefaults given in
      case validateReporterConfig config of
        Some e \<Rightarrow> Inl e
      | None \<Rightarrow> (case creds of
          Inl e \<Rightarrow> Inl e
        | Inr _ \<Rightarrow> (case dialErr of
            Some e \<Rightarrow> Inl (wrapError ''create registry client'' e)
          | None \<Rightarrow> (case waitForReady ended states of
              Some e \<Rightarrow> Inl (wrapError ''connect to registry'' e)
            | None \<Rightarrow> Inr config))))"

text \<open>What the world outside answers while the outputs are built: the files and certificate pools, the
  client libraries, the connection's states, and what each output's \<open>Close\<close> will return.\<close>

record outputEnv =
  oe_registryCA :: "goerror + string"
  oe_poolErr :: "goerror option"
  oe_hasCertificates :: "string \<Rightarrow> bool"
  oe_dialErr :: "goerror option"
  oe_ended :: ctxErr
  oe_states :: "connState list"
  oe_reporterClose :: "goerror option"
  oe_influxErr :: "goerror option"
  oe_write :: "writer \<Rightarrow> TelemetryEnvelope \<Rightarrow> goerror option"
  oe_writerClose :: "writer \<Rightarrow> goerror option"
  oe_sink :: "string \<Rightarrow> goerror + consumer"

definition newRegistryReporter :: "Config \<Rightarrow> outputEnv \<Rightarrow> goerror + reporterConfig" where
  "newRegistryReporter c env =
     (case NewReporter (reporterConfigOf (cfg_Registry c) (cfg_GrpcPort c))
         (credentialsFor (reg_TLS (cfg_Registry c)) (oe_registryCA env) (oe_poolErr env) (oe_hasCertificates env))
         (oe_dialErr env) (oe_ended env) (oe_states env) of
        Inl e \<Rightarrow> Inl (wrapError ''initialize registry reporter'' e)
      | Inr config \<Rightarrow> Inr config)"

text \<open>The deferred clean-up of \<open>initializeOutputsWith\<close> after an error.\<close>

definition cleanUpOutputs :: "joinedError \<Rightarrow> lifecycle \<Rightarrow> joinedError \<times> lifecycle" where
  "cleanUpOutputs errs l =
     (let (routerErrs, l1) = closeRouter l; (regErrs, l2) = closeRegistry l1 in
      (errs @ map (wrapError ''clean up initialized outputs'') routerErrs @
         map (wrapError ''clean up registry reporter'') regErrs, l2))"

text \<open>The blocks of \<open>initializeOutputsWith\<close>, each after the ones before it succeeded: \<open>reporter\<close>
  gives what closing the new reporter will return, \<open>telemetry\<close> the new writer as a consumer.\<close>

definition registryBlock :: "Config \<Rightarrow> goerror + goerror option \<Rightarrow> lifecycle \<Rightarrow> joinedError \<times> lifecycle" where
  "registryBlock c reporter l =
     (if \<not> reg_Enabled (cfg_Registry c) then ([], l)
      else case reporter of Inl e \<Rightarrow> ([e], l) | Inr closes \<Rightarrow> ([], l\<lparr>lc_registry := Some closes\<rparr>))"

definition telemetryBlock :: "Config \<Rightarrow> goerror + consumer \<Rightarrow> joinedError \<times> lifecycle \<Rightarrow> joinedError \<times> lifecycle" where
  "telemetryBlock c telemetry st =
     (if fst st \<noteq> [] then st
      else if \<not> tel_Enabled (cfg_Telemetry c) then ([], snd st)
      else case telemetry of
          Inl e \<Rightarrow> ([e], snd st)
        | Inr w \<Rightarrow> ([], (snd st)\<lparr>lc_router := Some (AddConsumer w telemetryMessageFilter (routesOf (snd st)))\<rparr>))"

definition initializeOutputsWith :: "Config \<Rightarrow> goerror + goerror option \<Rightarrow> goerror + consumer \<Rightarrow>
    (lifecycle \<Rightarrow> joinedError \<times> lifecycle) \<Rightarrow> lifecycle \<Rightarrow> joinedError \<times> lifecycle" where
  "initializeOutputsWith c reporter telemetry sinks l =
     (let st = telemetryBlock c telemetry (registryBlock c reporter (l\<lparr>lc_router := Some []\<rparr>));
          (errs, l1) = (if fst st \<noteq> [] then st else sinks (snd st))
      in if errs \<noteq> [] then cleanUpOutputs errs l1
         else if lc_registry l1 = None \<and> \<not> HasConsumers (routesOf l1)
         then cleanUpOutputs [OtherError ''no outputs configured''] l1
         else ([], l1\<lparr>lc_outputsInitialized := True\<rparr>))"

text \<open>The writer as a consumer of the router, and \<open>initializeOutputs\<close>.\<close>

definition asConsumer :: "outputEnv \<Rightarrow> telemetryConsumer \<Rightarrow> consumer" where
  "asConsumer env t =
     (case t of
        NoopWriter \<Rightarrow> noopConsumer
      | TelemetryWriter w \<Rightarrow>
          \<lparr>consumerName = ConsumerName, writeEnvelope = oe_write env w, closeConsumer = oe_writerClose env w\<rparr>)"

definition initializeOutputs :: "Config \<Rightarrow> outputEnv \<Rightarrow> lifecycle \<Rightarrow> joinedError \<times> lifecycle" where
  "initializeOutputs c env l =
     initializeOutputsWith c
       (case newRegistryReporter c env of Inl e \<Rightarrow> Inl e | Inr _ \<Rightarrow> Inr (oe_reporterClose env))
       (case newTelemetryWriter (cfg_Telemetry c) (oe_influxErr env) of
          Inl e \<Rightarrow> Inl e | Inr t \<Rightarrow> Inr (asConsumer env t))
       (initializeSinks (cfg_Sinks c) (oe_sink env)) l"

definition readyRelay :: "lifecycle \<Rightarrow> bool" where
  "readyRelay l = lc_outputsInitialized l"

text \<open>\<open>New\<close>: the authenticator, the authorizer and the state of the Relay beside its outputs.\<close>

definition NewRelay :: "Config option \<Rightarrow> outputEnv \<Rightarrow>
    joinedError + (string gomap option \<times> string list option \<times> lifecycle)" where
  "NewRelay config env =
     (case config of
        None \<Rightarrow> Inl [OtherError ''relay configuration is required'']
      | Some c \<Rightarrow>
        (case newAgentTokenAuthenticator (cfg_AgentTokens c) of
           Inl e \<Rightarrow> Inl [e]
         | Inr authenticator \<Rightarrow>
             if reg_Enabled (cfg_Registry c) \<and> authenticator = None
             then Inl [OtherError ''agent authentication is required when registry reporting is enabled'']
             else (case newControlPlaneAuthorizer (cfg_ControlAuth c) of
               Inl e \<Rightarrow> Inl [wrapError ''configure control-plane authentication'' e]
             | Inr authorizer \<Rightarrow>
               (case initializeOutputs c env newLifecycle of
                  ([], l) \<Rightarrow> Inr (authenticator, authorizer, l)
                | (errs, l) \<Rightarrow> Inl [OtherError (''failed to initialize outputs: '' @ joinText errs)]))))"

section \<open>Start and shutdown\<close>

definition ErrCreatingTLSCredentials :: goerror where
  "ErrCreatingTLSCredentials = Sentinel ''error creating TLS credentials'' []"

definition ErrCreatingTCPListener :: goerror where
  "ErrCreatingTCPListener = Sentinel ''error creating tcp listener'' []"

definition ErrGettingHomeDir :: goerror where
  "ErrGettingHomeDir = Sentinel ''error getting user home directory'' []"

definition failStart :: "goerror \<Rightarrow> lifecycle \<Rightarrow> joinedError \<times> lifecycle" where
  "failStart startErr l =
     (case CloseRelay l of (errs, l1) \<Rightarrow>
        (if errs \<noteq> [] then [startErr, OtherError (''clean up failed relay start: '' @ joinText errs)]
         else [startErr], l1))"

text \<open>\<open>serverTransportCredentials\<close>: the result says whether client certificates are verified.\<close>

definition serverTransportCredentials :: "Config \<Rightarrow> goerror option \<Rightarrow> goerror + string \<Rightarrow>
    (string \<Rightarrow> bool) \<Rightarrow> goerror + bool" where
  "serverTransportCredentials c keyPairErr caFile hasCertificates =
     (case keyPairErr of
        Some e \<Rightarrow> Inl e
      | None \<Rightarrow>
          if \<not> ca_Enabled (cfg_ControlAuth c) then Inr False
          else (case caFile of
              Inl e \<Rightarrow> Inl (wrapError ''read control-plane client CA'' e)
            | Inr contents \<Rightarrow>
                if \<not> hasCertificates contents
                then Inl (OtherError ''control-plane client CA contains no certificates'')
                else Inr True))"

text \<open>\<open>Start\<close> up to the serving of the listener.  \<open>creds\<close> and \<open>debugCreds\<close> are the credentials from the
  configured paths and from the debug paths, \<open>publishErr\<close> what starting the registry reporter
  returns.\<close>

definition StartRelay :: "Config \<Rightarrow> goerror option \<Rightarrow> goerror + bool \<Rightarrow> goerror option \<Rightarrow> goerror + bool \<Rightarrow>
    goerror option \<Rightarrow> lifecycle \<Rightarrow> joinedError \<times> lifecycle" where
  "StartRelay c listenErr creds homeErr debugCreds publishErr l =
     (if listenErr \<noteq> None then failStart ErrCreatingTCPListener l
      else if cfg_Debug c \<and> homeErr \<noteq> None
      then failStart ErrGettingHomeDir l
      else (case (if cfg_Debug c then debugCreds else creds) of
          Inl e \<Rightarrow> failStart ErrCreatingTLSCredentials l
        | Inr verified \<Rightarrow>
          (case lc_registry l of
             None \<Rightarrow> ([], l\<lparr>lc_serving := True\<rparr>)
           | Some closes \<Rightarrow>
             (case publishErr of
                Some e \<Rightarrow> failStart (wrapError ''publish relay to registry'' e) l
              | None \<Rightarrow> ([], l\<lparr>lc_published := True, lc_serving := True\<rparr>)))))"

text \<open>The shutdown: the server is stopped, gracefully or after ten seconds by force, and then the
  outputs are closed.\<close>

definition shutdownRelay :: "lifecycle \<Rightarrow> joinedError \<times> lifecycle" where
  "shutdownRelay l = CloseRelay (l\<lparr>lc_serving := False\<rparr>)"

section \<open>Facts\<close>

text \<open>The sinks a configuration asks for, in the order they are added.\<close>

definition configuredSinks :: "SinksConfig \<Rightarrow> (string \<times> MessageFilterConfig) list" where
  "configuredSinks s = concat (map (\<lambda>(name, conf). case conf of None \<Rightarrow> [] | Some f \<Rightarrow> [(name, f)])
     [(''s3'', map_option s3_Filter (S3 s)), (''gcs'', map_option gcs_Filter (GCS s)),
      (''bigquery'', map_option bq_Filter (BigQuery s)), (''timestream'', map_option ts_Filter (Timestream s)),
      (''influxdb'', map_option inf_Filter (InfluxDB s)), (''prometheus'', map_option prom_Filter (Prometheus s)),
      (''elasticsearch'', map_option es_Filter (Elasticsearch s)), (''kafka'', map_option kfk_Filter (Kafka s)),
      (''file'', map_option file_Filter (File s))])"

definition routeEntry :: "route \<Rightarrow> string \<times> MessageFilter" where
  "routeEntry r = (consumerName (route_consumer r), route_filter r)"

text \<open>The state of an initialization that has gone through the sinks \<open>es\<close>, after routes \<open>rs0\<close>: nothing
  was closed, and without an error the sinks' routes follow.\<close>

definition sinksDone :: "lifecycle \<Rightarrow> (string \<times> MessageFilterConfig) list \<Rightarrow> joinedError \<times> lifecycle \<Rightarrow> bool" where
  "sinksDone l0 es st \<longleftrightarrow> (\<exists>rs. lc_router (snd st) = Some (routesOf l0 @ rs) \<and>
     (fst st = [] \<longrightarrow> map routeEntry rs = map (\<lambda>(n, f). (n, filterFromConfig f)) es) \<and>
     lc_registry (snd st) = lc_registry l0 \<and> lc_closedConsumers (snd st) = lc_closedConsumers l0 \<and>
     lc_registryCloses (snd st) = lc_registryCloses l0 \<and>
     lc_outputsInitialized (snd st) = lc_outputsInitialized l0 \<and> lc_closeDone (snd st) = lc_closeDone l0)"

lemma sinksDone_start: "lc_router l = Some rs \<Longrightarrow> sinksDone l [] ([], l)"
  by (simp add: sinksDone_def routesOf_def)

lemma sinksDone_block:
  assumes "sinksDone l0 es st"
  shows "sinksDone l0 (es @ (case conf of None \<Rightarrow> [] | Some f \<Rightarrow> [(name, f)])) (sinkBlock name descr conf made st)"
proof (cases "fst st = []")
  case False
  then have same: "sinkBlock name descr conf made st = st" by (cases st) (simp add: sinkBlock_def)
  show ?thesis using assms False unfolding same by (simp add: sinksDone_def)
next
  case True
  then obtain l where st: "st = ([], l)" by (cases st) simp
  show ?thesis
  proof (cases conf)
    case None
    with assms show ?thesis by (simp add: st sinkBlock_def)
  next
    case (Some f)
    show ?thesis
    proof (cases made)
      case (Inl e)
      with assms Some show ?thesis by (auto simp: st sinkBlock_def sinksDone_def)
    next
      case (Inr c)
      obtain rs where "lc_router l = Some (routesOf l0 @ rs)"
        "map routeEntry rs = map (\<lambda>(n, f). (n, filterFromConfig f)) es"
        using assms by (auto simp: st sinksDone_def)
      with assms Some Inr show ?thesis
        by (auto simp: st sinkBlock_def sinksDone_def addSinkConsumer_def AddConsumer_def routeEntry_def)
    qed
  qed
qed

lemma initializeSinks_done:
  assumes "lc_router l = Some rs"
  shows "sinksDone l (configuredSinks s) (initializeSinks s mk l)"
proof -
  note start = sinksDone_start [OF assms]
  note b = sinksDone_block
  have "configuredSinks s =
    ((((((((([] @ (case map_option s3_Filter (S3 s) of None \<Rightarrow> [] | Some f \<Rightarrow> [(''s3'', f)])) @
      (case map_option gcs_Filter (GCS s) of None \<Rightarrow> [] | Some f \<Rightarrow> [(''gcs'', f)])) @
      (case map_option bq_Filter (BigQuery s) of None \<Rightarrow> [] | Some f \<Rightarrow> [(''bigquery'', f)])) @
      (case map_option ts_Filter (Timestream s) of None \<Rightarrow> [] | Some f \<Rightarrow> [(''timestream'', f)])) @
      (case map_option inf_Filter (InfluxDB s) of None \<Rightarrow> [] | Some f \<Rightarrow> [(''influxdb'', f)])) @
      (case map_option prom_Filter (Prometheus s) of None \<Rightarrow> [] | Some f \<Rightarrow> [(''prometheus'', f)])) @
      (case map_option es_Filter (Elasticsearch s) of None \<Rightarrow> [] | Some f \<Rightarrow> [(''elasticsearch'', f)])) @
      (case map_option kfk_Filter (Kafka s) of None \<Rightarrow> [] | Some f \<Rightarrow> [(''kafka'', f)])) @
      (case map_option file_Filter (File s) of None \<Rightarrow> [] | Some f \<Rightarrow> [(''file'', f)]))"
    by (simp add: configuredSinks_def)
  then show ?thesis
    unfolding initializeSinks_def by (simp only:) (intro b start)
qed

lemma configured_not_telemetry: "ConsumerName \<notin> fst ` set (configuredSinks s)"
  by (auto simp: configuredSinks_def ConsumerName_def split: option.splits)

end
