(* ===== verification/LifecycleProps.thy ===== *)
theory LifecycleProps
  imports Lifecycle
begin

text \<open>
  Properties of the construction, the start and the close of a Relay.
\<close>

section \<open>An example configuration\<close>

definition exampleConf :: Config where
  "exampleConf = \<lparr>
     cfg_Sinks = \<lparr>S3 = None, GCS = None, BigQuery = None, Timestream = None, InfluxDB = None,
       Prometheus = None, Elasticsearch = None, Kafka = None,
       File = Some \<lparr>file_Path = ''/tmp'', file_Prefix = ''t'', file_Format = ''json'', file_RotationInterval = 0,
         file_QueueSize = 0, file_BackpressurePolicy = [], file_Filter =
           \<lparr>IncludeMessages = [''*''], ExcludeMessages = []\<rparr>\<rparr>\<rparr>,
     cfg_Registry = \<lparr>reg_Enabled = True, reg_Address = ''r:1'', reg_RelayID = [], reg_AdvertiseAddress = ''a'',
       reg_HeartbeatInterval = 0, reg_RequestTimeout = 0,
       reg_TLS = \<lparr>rtls_Enabled = False, rtls_CAFile = [], rtls_ServerName = []\<rparr>\<rparr>,
     cfg_AgentTokens = [(''a1'', ''secret'')],
     cfg_ControlAuth = \<lparr>ca_Enabled = False, ca_ClientCAFile = [], ca_AllowedIdentities = []\<rparr>,
     cfg_Telemetry = \<lparr>tel_Enabled = True, tel_Backend = ''noop'', tel_QueueCapacity = 0, tel_Workers = 0,
       tel_BatchSize = 0, tel_FlushInterval = 0, tel_EnqueueTimeout = 0, tel_WriteTimeout = 0,
       tel_MaxRetries = None, tel_RetryBackoff = 0, tel_RelayID = ''r1'', tel_AgentMappings = [],
       tel_InfluxDB = None\<rparr>,
     cfg_Logging = \<lparr>log_Level = [], log_Format = [], log_Output = [], log_File = []\<rparr>,
     cfg_Debug = False, cfg_TLSCertPath = [], cfg_TLSKeyPath = [], cfg_GrpcPort = 50051, cfg_BufferSize = 0\<rparr>"

lemma trim_examples [simp]:
  "trimSpace ''a1'' = ''a1''" "trimSpace ''secret'' = ''secret''"
  by (simp_all add: trimSpace_visible visible_def)

lemma exampleConf_loads: "Load (Inr []) (\<lambda>t. t) (\<lambda>t. Inr exampleConf) = Inr (applyDefaults exampleConf)"
  by (simp add: Load_def Let_def validateRegistry_def validateControlAuth_def applyDefaults_def
      exampleConf_def registryDefaults_def orText_def)

section \<open>Outputs\<close>

lemma closeRouter_simps [simp]:
  "lc_closedConsumers (snd (closeRouter l)) = lc_closedConsumers l @ map (\<lambda>r. consumerName (route_consumer r)) (routesOf l)"
  "lc_router (snd (closeRouter l)) = lc_router l" "lc_registry (snd (closeRouter l)) = lc_registry l"
  "lc_registryCloses (snd (closeRouter l)) = lc_registryCloses l"
  "lc_outputsInitialized (snd (closeRouter l)) = lc_outputsInitialized l"
  by (simp_all add: closeRouter_def)

lemma closeRegistry_simps [simp]:
  "lc_closedConsumers (snd (closeRegistry l)) = lc_closedConsumers l"
  "lc_router (snd (closeRegistry l)) = lc_router l" "lc_registry (snd (closeRegistry l)) = lc_registry l"
  "lc_registryCloses (snd (closeRegistry l)) = lc_registryCloses l + (if lc_registry l = None then 0 else 1)"
  "lc_outputsInitialized (snd (closeRegistry l)) = lc_outputsInitialized l"
  by (simp_all add: closeRegistry_def split: option.split)

definition cleanedUp :: "lifecycle \<Rightarrow> bool" where
  "cleanedUp l \<longleftrightarrow> \<not> lc_outputsInitialized l \<and>
     lc_closedConsumers l = map (\<lambda>r. consumerName (route_consumer r)) (routesOf l) \<and>
     lc_registryCloses l = (if lc_registry l = None then 0 else 1)"

lemma cleanUp_cleans:
  assumes "lc_closedConsumers l = []" "lc_registryCloses l = 0" "\<not> lc_outputsInitialized l" "errs \<noteq> []"
  shows "fst (cleanUpOutputs errs l) \<noteq> [] \<and> cleanedUp (snd (cleanUpOutputs errs l))"
proof -
  have "cleanUpOutputs errs l = (let l1 = snd (closeRouter l); l2 = snd (closeRegistry l1) in
      (errs @ map (wrapError ''clean up initialized outputs'') (fst (closeRouter l)) @
         map (wrapError ''clean up registry reporter'') (fst (closeRegistry l1)), l2))"
    by (simp add: cleanUpOutputs_def split: prod.split)
  then show ?thesis using assms by (simp add: Let_def cleanedUp_def routesOf_def)
qed

text \<open>The writer's route is counted from the names of the routes.\<close>

lemma writer_count:
  assumes "map routeEntry rs =
    (if tel then [(ConsumerName, f)] else []) @ map (\<lambda>(n, f). (n, filterFromConfig f)) (configuredSinks s)"
  shows "length (writerRoutes rs) = (if tel then 1 else 0)"
proof -
  have count: "length (writerRoutes rs) = length (filter (\<lambda>n. n = ConsumerName) (map (fst \<circ> routeEntry) rs))" for rs
    by (induction rs) (simp_all add: writerRoutes_def routeEntry_def)
  have names: "map (fst \<circ> routeEntry) rs = (if tel then [ConsumerName] else []) @ map fst (configuredSinks s)"
    using arg_cong [OF assms, of "map fst"] by (simp add: comp_def case_prod_beta)
  have others: "filter (\<lambda>n. n = ConsumerName) (map fst (configuredSinks s)) = []"
    using configured_not_telemetry [of s] by (force simp: filter_empty_conv)
  show ?thesis by (simp only: count names filter_append others) simp
qed

text \<open>The three blocks of \<open>initializeOutputsWith\<close>, before its last check and its clean-up.\<close>

definition outputStage :: "Config \<Rightarrow> goerror + goerror option \<Rightarrow> goerror + consumer \<Rightarrow>
    (lifecycle \<Rightarrow> joinedError \<times> lifecycle) \<Rightarrow> joinedError \<times> lifecycle" where
  "outputStage c reporter telemetry sinks =
     (let st = telemetryBlock c telemetry (registryBlock c reporter (newLifecycle\<lparr>lc_router := Some []\<rparr>)) in
      if fst st \<noteq> [] then st else sinks (snd st))"

lemma initializeOutputsWith_stage:
  "initializeOutputsWith c reporter telemetry sinks newLifecycle =
     (let (errs, l1) = outputStage c reporter telemetry sinks in
      if errs \<noteq> [] then cleanUpOutputs errs l1
      else if lc_registry l1 = None \<and> \<not> HasConsumers (routesOf l1)
      then cleanUpOutputs [OtherError ''no outputs configured''] l1
      else ([], l1\<lparr>lc_outputsInitialized := True\<rparr>))"
  by (simp add: initializeOutputsWith_def outputStage_def Let_def)

text \<open>No block closes anything, and when all succeed the routes are as configured.\<close>

lemma outputStage_facts:
  assumes "\<And>w. telemetry = Inr w \<Longrightarrow> consumerName w = ConsumerName"
    and "outputStage c reporter telemetry (initializeSinks (cfg_Sinks c) mk) = (errs, l)"
  shows "lc_closedConsumers l = [] \<and> lc_registryCloses l = 0 \<and> \<not> lc_outputsInitialized l \<and>
    (errs = [] \<longrightarrow> (lc_registry l \<noteq> None \<longleftrightarrow> reg_Enabled (cfg_Registry c)) \<and>
      map routeEntry (routesOf l) =
        (if tel_Enabled (cfg_Telemetry c) then [(ConsumerName, telemetryMessageFilter)] else []) @
        map (\<lambda>(n, f). (n, filterFromConfig f)) (configuredSinks (cfg_Sinks c)))"
proof -
  define s1 where "s1 = registryBlock c reporter (newLifecycle\<lparr>lc_router := Some []\<rparr>)"
  define s2 where "s2 = telemetryBlock c telemetry s1"
  define s3 where "s3 = (if fst s2 \<noteq> [] then s2 else initializeSinks (cfg_Sinks c) mk (snd s2))"
  have run: "s3 = (errs, l)"
    using assms(2) unfolding outputStage_def s3_def s2_def s1_def Let_def .
  have 1: "lc_closedConsumers (snd s1) = []" "lc_registryCloses (snd s1) = 0"
    "\<not> lc_outputsInitialized (snd s1)" "lc_router (snd s1) = Some []"
    "fst s1 = [] \<Longrightarrow> lc_registry (snd s1) \<noteq> None \<longleftrightarrow> reg_Enabled (cfg_Registry c)"
    by (auto simp: s1_def registryBlock_def newLifecycle_def split: sum.split)
  have 2: "lc_closedConsumers (snd s2) = []" "lc_registryCloses (snd s2) = 0" "\<not> lc_outputsInitialized (snd s2)"
    "lc_router (snd s2) \<noteq> None" "lc_registry (snd s2) = lc_registry (snd s1)"
    "fst s2 = [] \<Longrightarrow> fst s1 = [] \<and> map routeEntry (routesOf (snd s2)) =
        (if tel_Enabled (cfg_Telemetry c) then [(ConsumerName, telemetryMessageFilter)] else [])"
    using 1 assms(1) by (auto simp: s2_def telemetryBlock_def routesOf_def AddConsumer_def routeEntry_def
        split: sum.splits if_splits)
  then obtain rs2 where rs2: "lc_router (snd s2) = Some rs2" by blast
  have "sinksDone (snd s2) (configuredSinks (cfg_Sinks c)) (initializeSinks (cfg_Sinks c) mk (snd s2))"
    by (rule initializeSinks_done [OF rs2])
  then have "lc_closedConsumers (snd s3) = []" "lc_registryCloses (snd s3) = 0" "\<not> lc_outputsInitialized (snd s3)"
    "lc_registry (snd s3) = lc_registry (snd s1)"
    "fst s3 = [] \<Longrightarrow> fst s2 = [] \<and> map routeEntry (routesOf (snd s3)) =
        map routeEntry (routesOf (snd s2)) @ map (\<lambda>(n, f). (n, filterFromConfig f)) (configuredSinks (cfg_Sinks c))"
    using 2 by (auto simp: s3_def sinksDone_def routesOf_def split: if_splits)
  with 1(5) 2(6) show ?thesis by (simp add: run)
qed

text \<open>The outputs are initialized all or not at all.  On success the router's consumers are the
  normalized-telemetry writer, if it is enabled, under its fixed filter and exactly once, followed by
  the configured sinks in the order of the code with their own filters; there is an output or a
  registry reporter; and nothing was closed.  On failure the Relay is not ready, and every consumer
  added before the failure and the registry reporter, if there was one, have been closed exactly
  once.\<close>

lemma initializeOutputsWith_all_or_nothing:
  assumes "initializeOutputsWith c reporter telemetry (initializeSinks (cfg_Sinks c) mk) newLifecycle = (errs, l)"
    and "\<And>w. telemetry = Inr w \<Longrightarrow> consumerName w = ConsumerName"
  shows "if errs = []
    then readyRelay l \<and> lc_closedConsumers l = [] \<and> lc_registryCloses l = 0 \<and>
      (lc_registry l = None \<longrightarrow> routesOf l \<noteq> []) \<and>
      (lc_registry l \<noteq> None \<longleftrightarrow> reg_Enabled (cfg_Registry c)) \<and>
      map routeEntry (routesOf l) =
        (if tel_Enabled (cfg_Telemetry c) then [(ConsumerName, telemetryMessageFilter)] else []) @
        map (\<lambda>(n, f). (n, filterFromConfig f)) (configuredSinks (cfg_Sinks c)) \<and>
      length (writerRoutes (routesOf l)) = (if tel_Enabled (cfg_Telemetry c) then 1 else 0)
    else \<not> readyRelay l \<and>
      lc_closedConsumers l = map (\<lambda>r. consumerName (route_consumer r)) (routesOf l) \<and>
      lc_registryCloses l = (if lc_registry l = None then 0 else 1)"
proof -
  obtain es l1 where stage: "outputStage c reporter telemetry (initializeSinks (cfg_Sinks c) mk) = (es, l1)" by force
  note F = outputStage_facts [OF assms(2) stage]
  have run: "(errs, l) = (if es \<noteq> [] then cleanUpOutputs es l1
      else if lc_registry l1 = None \<and> \<not> HasConsumers (routesOf l1)
      then cleanUpOutputs [OtherError ''no outputs configured''] l1
      else ([], l1\<lparr>lc_outputsInitialized := True\<rparr>))"
    using assms(1) by (simp add: initializeOutputsWith_stage stage)
  have fresh: "lc_closedConsumers l1 = []" "lc_registryCloses l1 = 0" "\<not> lc_outputsInitialized l1" using F by auto
  note cleans = cleanUp_cleans [OF fresh, of es] cleanUp_cleans [OF fresh, of "[OtherError ''no outputs configured'']"]
  show ?thesis
  proof (cases "errs = []")
    case False
    then have "cleanedUp l" using run cleans by (auto split: if_splits dest!: arg_cong [of _ _ snd])
    with False show ?thesis by (simp add: cleanedUp_def readyRelay_def)
  next
    case True
    then have ok: "es = []" "l = l1\<lparr>lc_outputsInitialized := True\<rparr>"
      "\<not> (lc_registry l1 = None \<and> \<not> HasConsumers (routesOf l1))"
      using run cleans by (auto split: if_splits dest!: arg_cong [of _ _ fst])
    then have routes: "routesOf l = routesOf l1" by (simp add: routesOf_def)
    with F ok(1) have entries: "map routeEntry (routesOf l) =
        (if tel_Enabled (cfg_Telemetry c) then [(ConsumerName, telemetryMessageFilter)] else []) @
        map (\<lambda>(n, f). (n, filterFromConfig f)) (configuredSinks (cfg_Sinks c))" by simp
    show ?thesis
      using writer_count [OF entries] True entries ok F by (auto simp: readyRelay_def routes HasConsumers_def)
  qed
qed

lemma asConsumer_name [simp]: "consumerName (asConsumer env t) = ConsumerName"
  by (cases t) (simp_all add: asConsumer_def noopConsumer_def)

text \<open>When the pieces of the outputs can be made at all.\<close>

lemma newRegistryReporter_Inr:
  "newRegistryReporter c env = Inr config \<Longrightarrow>
    (rtls_Enabled (reg_TLS (cfg_Registry c)) \<longrightarrow>
      (\<exists>roots. credentialsFor (reg_TLS (cfg_Registry c)) (oe_registryCA env) (oe_poolErr env)
        (oe_hasCertificates env) = Inr (TLSCreds (rtls_ServerName (reg_TLS (cfg_Registry c))) roots))) \<and>
    waitForReady (oe_ended env) (oe_states env) = None"
  by (auto simp: newRegistryReporter_def NewReporter_def credentialsFor_def Let_def
      split: sum.splits option.splits if_splits)

lemma waitForReady_None:
  "waitForReady e states = None \<longleftrightarrow> (\<exists>after. dropWhile (\<lambda>s. s = ConnOther) states = ConnReady # after)"
  by (induction e states rule: waitForReady.induct) simp_all

text \<open>C26: A Relay is created with all of its outputs or not at all.  On success it is ready; the router's
  consumers are the normalized-telemetry writer, if it is enabled, under its fixed filter and exactly
  once, followed by the configured sinks in the order of the code with their own filters; a registry
  reporter exists exactly when it is configured, over a connection that became ready and that is
  encrypted when TLS is configured; there is an output or a reporter; and nothing was closed.  On
  failure the Relay is not ready, and every consumer added before the failure and the registry
  reporter, if there was one, have been closed exactly once.\<close>

theorem outputs_all_or_nothing:
  assumes "initializeOutputs c env newLifecycle = (errs, l)"
  shows "if errs = []
    then readyRelay l \<and> lc_closedConsumers l = [] \<and> lc_registryCloses l = 0 \<and>
      (lc_registry l = None \<longrightarrow> routesOf l \<noteq> []) \<and>
      (lc_registry l \<noteq> None \<longleftrightarrow> reg_Enabled (cfg_Registry c)) \<and>
      (reg_Enabled (cfg_Registry c) \<longrightarrow>
        (\<exists>after. dropWhile (\<lambda>s. s = ConnOther) (oe_states env) = ConnReady # after) \<and>
        (rtls_Enabled (reg_TLS (cfg_Registry c)) \<longrightarrow>
          credentialsFor (reg_TLS (cfg_Registry c)) (oe_registryCA env) (oe_poolErr env)
            (oe_hasCertificates env) \<noteq> Inr InsecureCreds)) \<and>
      map routeEntry (routesOf l) =
        (if tel_Enabled (cfg_Telemetry c) then [(ConsumerName, telemetryMessageFilter)] else []) @
        map (\<lambda>(n, f). (n, filterFromConfig f)) (configuredSinks (cfg_Sinks c)) \<and>
      length (writerRoutes (routesOf l)) = (if tel_Enabled (cfg_Telemetry c) then 1 else 0)
    else \<not> readyRelay l \<and>
      lc_closedConsumers l = map (\<lambda>r. consumerName (route_consumer r)) (routesOf l) \<and>
      lc_registryCloses l = (if lc_registry l = None then 0 else 1)"
proof -
  let ?rep = "case newRegistryReporter c env of Inl e \<Rightarrow> Inl e | Inr _ \<Rightarrow> Inr (oe_reporterClose env)"
  let ?tel = "case newTelemetryWriter (cfg_Telemetry c) (oe_influxErr env) of
    Inl e \<Rightarrow> Inl e | Inr t \<Rightarrow> Inr (asConsumer env t)"
  have name: "consumerName w = ConsumerName" if "?tel = Inr w" for w
    using that by (auto split: sum.splits)
  have whole: "initializeOutputsWith c ?rep ?tel (initializeSinks (cfg_Sinks c) (oe_sink env)) newLifecycle = (errs, l)"
    using assms by (simp add: initializeOutputs_def)
  have made: "\<exists>config. newRegistryReporter c env = Inr config"
    if "errs = []" "reg_Enabled (cfg_Registry c)"
  proof (cases "newRegistryReporter c env")
    case (Inl e)
    with whole that show ?thesis
      by (auto simp: initializeOutputsWith_def registryBlock_def telemetryBlock_def cleanUpOutputs_def
          Let_def split: prod.splits)
  qed simp
  have reporter: "(\<exists>after. dropWhile (\<lambda>s. s = ConnOther) (oe_states env) = ConnReady # after) \<and>
        (rtls_Enabled (reg_TLS (cfg_Registry c)) \<longrightarrow>
          credentialsFor (reg_TLS (cfg_Registry c)) (oe_registryCA env) (oe_poolErr env)
            (oe_hasCertificates env) \<noteq> Inr InsecureCreds)"
    if "errs = []" "reg_Enabled (cfg_Registry c)"
  proof -
    note is_made = made [OF that]
    obtain config where config: "newRegistryReporter c env = Inr config" using is_made by blast
    show ?thesis using newRegistryReporter_Inr [OF config] by (auto simp: waitForReady_None)
  qed
  show ?thesis
    using initializeOutputsWith_all_or_nothing [OF whole name] reporter by (simp split: if_splits)
qed

text \<open>The example with a failing file sink: the no-op writer and the reporter are closed again.\<close>

definition exampleEnv :: outputEnv where
  "exampleEnv = \<lparr>oe_registryCA = Inr [], oe_poolErr = None, oe_hasCertificates = (\<lambda>_. False), oe_dialErr = None,
     oe_ended = CtxDeadlineExceeded, oe_states = [ConnOther, ConnReady], oe_reporterClose = None,
     oe_influxErr = None, oe_write = (\<lambda>w e. None), oe_writerClose = (\<lambda>w. None),
     oe_sink = (\<lambda>name. Inl (OtherError ''disk full''))\<rparr>"

lemma outputs_all_or_nothing_witness:
  "lc_registryCloses (snd (initializeOutputs (applyDefaults exampleConf) exampleEnv newLifecycle)) = 1 \<and>
   lc_closedConsumers (snd (initializeOutputs (applyDefaults exampleConf) exampleEnv newLifecycle)) = [ConsumerName]"
proof -
  let ?c = "applyDefaults exampleConf"
  have texts: "trimSpace ''r:1'' = ''r:1''" "trimSpace ''r1'' = ''r1''" "trimSpace ''a'' = ''a''"
    by (simp_all add: trimSpace_visible visible_def)
  have conf: "reg_Enabled (cfg_Registry ?c)" "tel_Enabled (cfg_Telemetry ?c)" "tel_Backend (cfg_Telemetry ?c) = ''noop''"
    "reg_TLS (cfg_Registry ?c) = reg_TLS (cfg_Registry exampleConf)" "cfg_GrpcPort ?c = 50051"
    "reg_Address (cfg_Registry ?c) = ''r:1''" "reg_RelayID (cfg_Registry ?c) = ''r1''"
    "reg_AdvertiseAddress (cfg_Registry ?c) = ''a''" "cfg_Sinks ?c = cfg_Sinks exampleConf"
    "\<not> rtls_Enabled (reg_TLS (cfg_Registry exampleConf))"
    by (simp_all add: applyDefaults_def registryDefaults_def telemetryDefaults_def exampleConf_def orText_def)
  have "\<exists>config. newRegistryReporter ?c exampleEnv = Inr config"
    by (simp add: newRegistryReporter_def NewReporter_def reporterConfigOf_def reporterDefaults_def
        validateReporterConfig_def credentialsFor_def conf texts exampleEnv_def Let_def)
  then obtain config where config: "newRegistryReporter ?c exampleEnv = Inr config" by blast
  have writer: "newTelemetryWriter (cfg_Telemetry ?c) err = Inr NoopWriter" for err
    by (simp add: newTelemetryWriter_def conf)
  have sinks: "initializeSinks (cfg_Sinks exampleConf) (oe_sink exampleEnv) m =
      ([wrapError ''failed to create file sink'' (OtherError ''disk full'')], m)" for m
    by (simp add: initializeSinks_def sinkBlock_def exampleConf_def exampleEnv_def)
  obtain errs l where run: "initializeOutputs ?c exampleEnv newLifecycle = (errs, l)" by force
  have e: "errs \<noteq> []" "lc_registry l \<noteq> None"
    "map (\<lambda>r. consumerName (route_consumer r)) (routesOf l) = [ConsumerName]"
    using run by (auto simp: initializeOutputs_def initializeOutputsWith_def registryBlock_def
        telemetryBlock_def config writer sinks conf cleanUpOutputs_def closeRouter_def closeRegistry_def
        newLifecycle_def routesOf_def AddConsumer_def Let_def split: prod.splits)
  with outputs_all_or_nothing [OF run] run show ?thesis by auto
qed

section \<open>Start and close\<close>

lemma CloseRelay_router:
  assumes "lc_router l = Some rs" "\<not> lc_closeDone l"
  shows "\<exists>errs l'. CloseRelay l = (errs, l') \<and> lc_closeDone l' \<and> lc_closeErr l' = errs \<and>
    lc_closedConsumers l' = lc_closedConsumers l @ map (\<lambda>r. consumerName (route_consumer r)) rs \<and>
    lc_registryCloses l' = lc_registryCloses l + (if lc_registry l = None then 0 else 1) \<and>
    lc_serving l' = lc_serving l \<and> lc_published l' = lc_published l"
  using assms by (simp add: CloseRelay_def closeRouter_def closeRegistry_def routesOf_def Let_def
      split: option.split)

text \<open>A start either serves, and then the Relay was published first if it has a registry, or it
  fails, and then nothing was published, nothing is served, and every output and the registry
  reporter have been closed exactly once.  Closing again, as a later shutdown does, closes nothing a
  second time and returns the same error.\<close>

lemma start_serves_or_closes:
  assumes "lc_router l = Some rs" "\<not> lc_closeDone l" "\<not> lc_serving l" "\<not> lc_published l"
    and "lc_closedConsumers l = []" "lc_registryCloses l = 0"
    and "StartRelay c listenErr creds homeErr debugCreds publishErr l = (errs, l')"
  shows "(if errs = [] then lc_serving l' \<and> (lc_published l' \<longleftrightarrow> lc_registry l \<noteq> None) \<and>
        lc_closedConsumers l' = [] \<and> \<not> lc_closeDone l'
      else \<not> lc_serving l' \<and> \<not> lc_published l' \<and>
        lc_closedConsumers l' = map (\<lambda>r. consumerName (route_consumer r)) rs \<and>
        lc_registryCloses l' = (if lc_registry l = None then 0 else 1)) \<and>
    snd (CloseRelay (snd (CloseRelay l'))) = snd (CloseRelay l') \<and>
    fst (CloseRelay (snd (CloseRelay l'))) = fst (CloseRelay l')"
proof -
  obtain cerrs lc where cl: "CloseRelay l = (cerrs, lc)" "lc_closeDone lc" "lc_closeErr lc = cerrs"
    "lc_closedConsumers lc = map (\<lambda>r. consumerName (route_consumer r)) rs"
    "lc_registryCloses lc = (if lc_registry l = None then 0 else 1)"
    "\<not> lc_serving lc" "\<not> lc_published lc"
    using CloseRelay_router [OF assms(1,2)] assms(3-6) by auto
  have fail: "\<exists>es. failStart e l = (es, lc) \<and> es \<noteq> []" for e by (simp add: failStart_def cl(1))
  have cases: "(errs \<noteq> [] \<and> l' = lc) \<or> (errs = [] \<and> lc_registry l = None \<and> l' = l\<lparr>lc_serving := True\<rparr>) \<or>
      (errs = [] \<and> lc_registry l \<noteq> None \<and> l' = l\<lparr>lc_published := True, lc_serving := True\<rparr>)"
    using assms(7) fail by (auto simp: StartRelay_def split: if_splits sum.splits option.splits) (metis Pair_inject)+
  have idem: "lc_closeDone (snd (CloseRelay m)) \<and> lc_closeErr (snd (CloseRelay m)) = fst (CloseRelay m)" for m
    by (auto simp: CloseRelay_def Let_def case_prod_beta)
  have "CloseRelay (snd (CloseRelay l')) = (fst (CloseRelay l'), snd (CloseRelay l'))"
    using idem [of l'] by (subst CloseRelay_def) simp
  then show ?thesis using cases cl assms(2-6) by auto
qed

section \<open>Configuration\<close>

text \<open>A configuration that \<open>Load\<close> accepts is complete and passes the Relay's own start-up checks: its
  defaults are filled in, with registry reporting enabled every Agent token is accepted, with control
  authentication enabled its identities are, and an enabled telemetry writer runs with exactly the
  configured sizes and times, only a negative number of retries counting as none.\<close>

theorem loaded_config_accepted:
  assumes "Load file expandEnv parse = Inr c"
  shows "applyDefaults c = c \<and>
    (reg_Enabled (cfg_Registry c) \<longrightarrow>
      newAgentTokenAuthenticator (cfg_AgentTokens c) = Inr (Some (cfg_AgentTokens c)) \<and>
      0 < reg_HeartbeatInterval (cfg_Registry c) \<and> 0 < reg_RequestTimeout (cfg_Registry c)) \<and>
    newControlPlaneAuthorizer (cfg_ControlAuth c) = Inr (if ca_Enabled (cfg_ControlAuth c)
      then Some (ca_AllowedIdentities (cfg_ControlAuth c)) else None) \<and>
    (tel_Enabled (cfg_Telemetry c) \<longrightarrow> withDefaults (writerConfigOf (cfg_Telemetry c)) =
      (writerConfigOf (cfg_Telemetry c))\<lparr>wc_MaxRetries := max 0 (wc_MaxRetries (writerConfigOf (cfg_Telemetry c)))\<rparr>)"
proof -
  obtain p where p: "c = applyDefaults p" and v: "validateRegistry c = None" "validateControlAuth c = None"
    using assms by (auto simp: Load_def Let_def split: sum.splits option.splits)
  have fixed: "applyDefaults c = c" by (simp add: p applyDefaults_idem)
  have reg: "newAgentTokenAuthenticator (cfg_AgentTokens c) = Inr (Some (cfg_AgentTokens c))"
    if "reg_Enabled (cfg_Registry c)"
    using v(1) that by (auto simp: validateRegistry_def newAgentTokenAuthenticator_def Let_def
        checkAgentTokens_None split: if_splits)
  have times: "0 < reg_HeartbeatInterval (cfg_Registry c) \<and> 0 < reg_RequestTimeout (cfg_Registry c)"
    if "reg_Enabled (cfg_Registry c)"
    using that by (simp add: p applyDefaults_def registryDefaults_def orPositive_def split: if_splits)
  have ctl: "newControlPlaneAuthorizer (cfg_ControlAuth c) = Inr (if ca_Enabled (cfg_ControlAuth c)
      then Some (ca_AllowedIdentities (cfg_ControlAuth c)) else None)"
    using v(2) by (auto simp: validateControlAuth_def newControlPlaneAuthorizer_def Let_def
        checkIdentities_None split: if_splits)
  have "withDefaults (writerConfigOf (cfg_Telemetry c)) = (writerConfigOf (cfg_Telemetry c))\<lparr>wc_MaxRetries :=
      max 0 (wc_MaxRetries (writerConfigOf (cfg_Telemetry c)))\<rparr>" if "tel_Enabled (cfg_Telemetry c)"
    using that by (simp add: p applyDefaults_def telemetryDefaults_def orPositive_def withDefaults_def
        writerConfigOf_def max_def split: if_splits option.split)
  with fixed reg times ctl show ?thesis by blast
qed

lemma loaded_config_accepted_witness:
  "newAgentTokenAuthenticator (cfg_AgentTokens (applyDefaults exampleConf)) = Inr (Some [(''a1'', ''secret'')])"
proof -
  have "reg_Enabled (cfg_Registry (applyDefaults exampleConf))"
    "cfg_AgentTokens (applyDefaults exampleConf) = [(''a1'', ''secret'')]"
    by (simp_all add: applyDefaults_def registryDefaults_def exampleConf_def)
  with loaded_config_accepted [OF exampleConf_loads] show ?thesis by simp
qed

end
