(* ===== verification/Process.thy ===== *)
theory Process
  imports LifecycleProps
begin

text \<open>
  The process around a Relay (\<open>cmd/aero-arc-relay/main.go\<close> and the rest of \<open>Start\<close> in
  \<open>internal/relay/relay.go\<close>): the command's flags, loading, construction, start, the wait for a signal
  and the shutdown, with its exit status, and the two health endpoints.  What the operating system
  answers is a parameter; log lines are left out.
\<close>

section \<open>Flags\<close>






section \<open>Serving\<close>






text \<open>The answers of the health endpoints: status and body.  \<open>http.Error\<close> ends its body with a line feed.\<close>

definition statusBody :: "string \<Rightarrow> string" where
  "statusBody status = [CHR ''{'', CHR 0x22] @ ''status'' @ [CHR 0x22, CHR '':'', CHR 0x22] @ status @
     [CHR 0x22, CHR ''}'']"

definition healthz :: "int \<times> string" where
  "healthz = (200, statusBody ''ok'')"


section \<open>The process\<close>



section \<open>Facts\<close>

















section \<open>An example\<close>




lemma CloseRelay_keeps [simp]:
  "routesOf (snd (CloseRelay l)) = routesOf l" "lc_registry (snd (CloseRelay l)) = lc_registry l"
  by (simp_all add: CloseRelay_def closeRouter_def closeRegistry_def routesOf_def Let_def split: option.split)


end
