(* ===== verification/SendLock.thy ===== *)
theory SendLock
  imports Gateway
begin

text \<open>
  The lock that serializes the writes to one stream (\<open>contextMutex\<close> of \<open>internal/relay/relay.go\<close>) and
  the sends of one session under it (\<open>internal/relay/gatewayserver.go\<close>), by their own sections: waiting
  for the lock, \<open>Send\<close> itself and the write that outlives its caller are separate here, where
  \<open>Gateway.sendOnSelected\<close> takes one pass of the loop as a whole.  No two writes to one stream overlap.
\<close>

section \<open>Exclusive locks\<close>

text \<open>What a lock with one token promises: it is taken only when free, and whoever holds it can give it
  back.  \<open>n\<close> counts the holders.\<close>

locale exclusive_lock =
  fixes take :: "'m \<Rightarrow> 'm option"
    and give :: "'m \<Rightarrow> 'm option"
    and free :: "'m \<Rightarrow> bool"
  assumes take_free: "take m \<noteq> None \<longleftrightarrow> free m"
    and take_locks: "take m = Some m' \<Longrightarrow> \<not> free m'"
    and give_held: "\<not> free m \<Longrightarrow> give m \<noteq> None"
    and give_frees: "give m = Some m' \<Longrightarrow> free m'"
begin

text \<open>The number of holders that a lock accounts for.\<close>

definition held :: "'m \<Rightarrow> nat" where
  "held m = (if free m then 0 else 1)"

lemma held_take: "take m = Some m' \<Longrightarrow> held m = 0 \<and> held m' = 1"
  using take_free [of m] take_locks by (simp add: held_def)

lemma held_give: "give m = Some m' \<Longrightarrow> held m' = 0"
  using give_frees by (simp add: held_def)

lemma holder_gives:
  assumes "0 < held m"
  obtains m' where "give m = Some m'"
  using assms give_held [of m] by (auto simp: held_def split: if_splits)

lemma held_le: "held m \<le> 1"
  by (simp add: held_def)

end

section \<open>The lock of a stream\<close>

text \<open>The channel of capacity one is made by the first \<open>Lock\<close>; on the nil channel before it, \<open>Unlock\<close>
  blocks, as it does when the token is in the channel.  \<open>None\<close> is blocking.\<close>

record contextMutex =
  cm_made :: bool
  cm_token :: bool

definition newContextMutex :: contextMutex where
  "newContextMutex = \<lparr>cm_made = False, cm_token = False\<rparr>"

definition lockBegin :: "ctxErr option \<Rightarrow> contextMutex \<Rightarrow> ctxErr option \<times> contextMutex" where
  "lockBegin ctx m = (ctx, if cm_made m then m else \<lparr>cm_made = True, cm_token = True\<rparr>)"

definition takeToken :: "contextMutex \<Rightarrow> contextMutex option" where
  "takeToken m = (if cm_made m \<and> cm_token m then Some (m\<lparr>cm_token := False\<rparr>) else None)"

definition Unlock :: "contextMutex \<Rightarrow> contextMutex option" where
  "Unlock m = (if cm_made m \<and> \<not> cm_token m then Some (m\<lparr>cm_token := True\<rparr>) else None)"

text \<open>A lock nobody has touched is free; \<open>Lock\<close> as a whole makes the channel first.\<close>

definition lockFree :: "contextMutex \<Rightarrow> bool" where
  "lockFree m \<longleftrightarrow> \<not> cm_made m \<or> cm_token m"

definition lockAtOnce :: "contextMutex \<Rightarrow> contextMutex option" where
  "lockAtOnce m = takeToken (snd (lockBegin None m))"

interpretation streamLock: exclusive_lock lockAtOnce Unlock lockFree
  by unfold_locales
    (auto simp: lockAtOnce_def takeToken_def lockBegin_def Unlock_def lockFree_def split: if_splits)

text \<open>The gate of the operation commands is such a lock, too.\<close>

interpretation operationLock: exclusive_lock takeGate "\<lambda>s. Some (releaseGate s)" operationGate
  by unfold_locales (auto simp: takeGate_def releaseGate_def split: if_splits)

section \<open>Sends\<close>

text \<open>A send by one of the two policies, or an acknowledgement (\<open>sendOnStream\<close>) on a given binding.\<close>

datatype sendPolicy = ThroughWrite | Detached | is_OnStream: OnStream nat

datatype sendPhase =
    AtHead
  | Locking nat
  | Selecting nat
  | TookToken nat
  | Locked nat
  | Writing nat
  | AwaitingWrite
  | SendDone bool "goerror option"

text \<open>The goroutine that writes for a detached send, with \<open>Send\<close> running or its error sent.\<close>

datatype detachedWrite = NoWrite | WriteRunning nat | WriteEnded "goerror option"

record sender =
  sd_policy :: sendPolicy
  sd_ctx :: "ctxErr option"
  sd_phase :: sendPhase
  sd_write :: detachedWrite

definition newSender :: "sendPolicy \<Rightarrow> sender" where
  "newSender pol = \<lparr>sd_policy = pol, sd_ctx = None,
     sd_phase = (case pol of OnStream b \<Rightarrow> Locking b | _ \<Rightarrow> AtHead), sd_write = NoWrite\<rparr>"

text \<open>Which case of a \<open>select\<close> runs, what the commit says and what \<open>Send\<close> returns.\<close>

record sendChoice =
  takesToken :: bool
  commits :: bool
  sendReturns :: "goerror option"

type_synonym streamLocks = "nat \<Rightarrow> contextMutex"

definition unlockStream :: "nat \<Rightarrow> sender \<Rightarrow> streamLocks \<Rightarrow> (sender \<times> streamLocks) option" where
  "unlockStream b sd ls = map_option (\<lambda>m. (sd, ls(b := m))) (Unlock (ls b))"

definition endSend :: "bool \<Rightarrow> goerror option \<Rightarrow> sender \<Rightarrow> sender" where
  "endSend attempted err sd = sd\<lparr>sd_phase := SendDone attempted err\<rparr>"

text \<open>One section of a send, with the session's current binding; \<open>None\<close> is blocking.\<close>

definition senderStep :: "sendChoice \<Rightarrow> nat option \<Rightarrow> sender \<Rightarrow> streamLocks \<Rightarrow> (sender \<times> streamLocks) option" where
  "senderStep ch cur sd ls = (case sd_phase sd of
     AtHead \<Rightarrow> (case sd_ctx sd of
         Some e \<Rightarrow> Some (endSend False (Some (fromContextError e)) sd, ls)
       | None \<Rightarrow> (case cur of
           None \<Rightarrow> Some (endSend False (Some (Status Unavailable ''agent stream is not connected'')) sd, ls)
         | Some b \<Rightarrow> Some (sd\<lparr>sd_phase := Locking b\<rparr>, ls)))
   | Locking b \<Rightarrow> (case lockBegin (sd_ctx sd) (ls b) of
         (Some e, m) \<Rightarrow> Some (endSend False (Some (fromContextError e)) sd, ls(b := m))
       | (None, m) \<Rightarrow> Some (sd\<lparr>sd_phase := Selecting b\<rparr>, ls(b := m)))
   | Selecting b \<Rightarrow>
       if takesToken ch then map_option (\<lambda>m. (sd\<lparr>sd_phase := TookToken b\<rparr>, ls(b := m))) (takeToken (ls b))
       else map_option (\<lambda>e. (endSend False (Some (fromContextError e)) sd, ls)) (sd_ctx sd)
   | TookToken b \<Rightarrow> (case sd_ctx sd of
         Some e \<Rightarrow> unlockStream b (endSend False (Some (fromContextError e)) sd) ls
       | None \<Rightarrow> Some (sd\<lparr>sd_phase := Locked b\<rparr>, ls))
   | Locked b \<Rightarrow> (case sd_policy sd of
         OnStream _ \<Rightarrow> Some (sd\<lparr>sd_phase := Writing b\<rparr>, ls)
       | _ \<Rightarrow>
           if cur \<noteq> Some b then unlockStream b (sd\<lparr>sd_phase := AtHead\<rparr>) ls
           else (case sd_ctx sd of
               Some e \<Rightarrow> unlockStream b (endSend False (Some (fromContextError e)) sd) ls
             | None \<Rightarrow>
                 if sd_policy sd = Detached
                 then Some (sd\<lparr>sd_phase := AwaitingWrite, sd_write := WriteRunning b\<rparr>, ls)
                 else if \<not> commits ch
                 then unlockStream b (endSend False (Some (Status Canceled
                   ''stream delivery state ended before effect-start commit'')) sd) ls
                 else Some (sd\<lparr>sd_phase := Writing b\<rparr>, ls)))
   | Writing b \<Rightarrow> unlockStream b (endSend True (sendReturns ch) sd) ls
   | AwaitingWrite \<Rightarrow> (case sd_write sd of
         WriteEnded err \<Rightarrow> Some (endSend True err sd, ls)
       | _ \<Rightarrow> map_option (\<lambda>e. (endSend True (Some (fromContextError e)) sd, ls)) (sd_ctx sd))
   | SendDone attempted err \<Rightarrow> None)"

text \<open>The goroutine of a detached send, when \<open>Send\<close> returns.\<close>

definition detachedStep :: "goerror option \<Rightarrow> sender \<Rightarrow> streamLocks \<Rightarrow> (sender \<times> streamLocks) option" where
  "detachedStep err sd ls = (case sd_write sd of
     WriteRunning b \<Rightarrow> unlockStream b (sd\<lparr>sd_write := WriteEnded err\<rparr>) ls
   | _ \<Rightarrow> None)"

section \<open>Interleavings\<close>

text \<open>The sends of one session: its current binding, the locks of its bindings and the senders.\<close>

record sendSystem =
  ss_current :: "nat option"
  ss_locks :: streamLocks
  ss_senders :: "sender list"

definition putSender :: "nat \<Rightarrow> sender \<times> streamLocks \<Rightarrow> sendSystem \<Rightarrow> sendSystem" where
  "putSender i r s = s\<lparr>ss_locks := snd r, ss_senders := (ss_senders s)[i := fst r]\<rparr>"

inductive sendSystemStep :: "sendSystem \<Rightarrow> sendSystem \<Rightarrow> bool" where
  Arrives: "sendSystemStep s (s\<lparr>ss_senders := ss_senders s @ [newSender pol]\<rparr>)"
| Runs: "i < length (ss_senders s) \<Longrightarrow>
    senderStep ch (ss_current s) (ss_senders s ! i) (ss_locks s) = Some r \<Longrightarrow>
    sendSystemStep s (putSender i r s)"
| Writes: "i < length (ss_senders s) \<Longrightarrow>
    detachedStep err (ss_senders s ! i) (ss_locks s) = Some r \<Longrightarrow> sendSystemStep s (putSender i r s)"
| ContextEnds: "i < length (ss_senders s) \<Longrightarrow> \<not> is_OnStream (sd_policy (ss_senders s ! i)) \<Longrightarrow>
    sendSystemStep s (putSender i ((ss_senders s ! i)\<lparr>sd_ctx := Some e\<rparr>, ss_locks s) s)"
| Rebinds: "sendSystemStep s (s\<lparr>ss_current := b\<rparr>)"

inductive sendsReach :: "sendSystem \<Rightarrow> bool" where
  Idle: "sendsReach \<lparr>ss_current = cur, ss_locks = (\<lambda>b. newContextMutex), ss_senders = []\<rparr>"
| Step: "sendsReach s \<Longrightarrow> sendSystemStep s s' \<Longrightarrow> sendsReach s'"

section \<open>The invariant\<close>

text \<open>How often a sender holds the lock of a binding, itself or by its goroutine, and what it writes.\<close>

definition holdsItself :: "nat \<Rightarrow> sender \<Rightarrow> bool" where
  "holdsItself b sd \<longleftrightarrow> sd_phase sd = TookToken b \<or> sd_phase sd = Locked b \<or> sd_phase sd = Writing b"

definition holding :: "nat \<Rightarrow> sender \<Rightarrow> nat" where
  "holding b sd = (if holdsItself b sd then 1 else 0) + (if sd_write sd = WriteRunning b then 1 else 0)"

definition writesOn :: "nat \<Rightarrow> sender \<Rightarrow> bool" where
  "writesOn b sd \<longleftrightarrow> sd_phase sd = Writing b \<or> sd_write sd = WriteRunning b"

text \<open>A sender has a goroutine only once it waits for it or has returned, and waits only for a lock that
  was made.\<close>

definition senderOk :: "streamLocks \<Rightarrow> sender \<Rightarrow> bool" where
  "senderOk ls sd \<longleftrightarrow>
     (sd_write sd \<noteq> NoWrite \<longrightarrow> sd_phase sd = AwaitingWrite \<or> (\<exists>att err. sd_phase sd = SendDone att err)) \<and>
     (sd_phase sd = AwaitingWrite \<longrightarrow> sd_write sd \<noteq> NoWrite) \<and>
     (\<forall>b. sd_phase sd = Selecting b \<longrightarrow> cm_made (ls b))"

definition heldOn :: "nat \<Rightarrow> sendSystem \<Rightarrow> nat" where
  "heldOn b s = (\<Sum>sd\<leftarrow>ss_senders s. holding b sd)"

definition sendsOk :: "sendSystem \<Rightarrow> bool" where
  "sendsOk s \<longleftrightarrow> (\<forall>sd \<in> set (ss_senders s). senderOk (ss_locks s) sd) \<and>
     (\<forall>b. heldOn b s = streamLock.held (ss_locks s b))"

lemma sum_list_update:
  fixes f :: "'a \<Rightarrow> nat"
  assumes "i < length xs"
  shows "(\<Sum>x\<leftarrow>xs[i := y]. f x) + f (xs ! i) = (\<Sum>x\<leftarrow>xs. f x) + f y"
proof -
  have "(\<Sum>x\<leftarrow>xs[i := y]. f x) = (\<Sum>x\<leftarrow>take i xs. f x) + f y + (\<Sum>x\<leftarrow>drop (Suc i) xs. f x)"
    using assms by (simp add: upd_conv_take_nth_drop)
  moreover have "(\<Sum>x\<leftarrow>xs. f x) = (\<Sum>x\<leftarrow>take i xs. f x) + f (xs ! i) + (\<Sum>x\<leftarrow>drop (Suc i) xs. f x)"
    using assms by (subst id_take_nth_drop [of i xs]) simp_all
  ultimately show ?thesis by simp
qed

lemma unlock_held:
  assumes "unlockStream b sd ls = Some (sd', ls')"
  shows "sd' = sd \<and> (\<forall>c. streamLock.held (ls c) = streamLock.held (ls' c) + (if c = b then 1 else 0)) \<and>
    (\<forall>c. cm_made (ls' c) = cm_made (ls c))"
  using assms by (auto simp: unlockStream_def Unlock_def streamLock.held_def lockFree_def split: if_splits)

text \<open>A section moves a token between the lock and the sender, and loses none.\<close>

lemma section_balance:
  assumes "senderStep ch cur sd ls = Some (sd', ls')" "senderOk ls sd"
  shows "holding b sd' + streamLock.held (ls b) = holding b sd + streamLock.held (ls' b)"
proof (cases "sd_phase sd")
  case AwaitingWrite
  then show ?thesis using assms
    by (auto simp: senderStep_def endSend_def holding_def holdsItself_def split: detachedWrite.splits)
next
  case (Selecting c)
  then show ?thesis using assms
    by (auto simp: senderStep_def endSend_def holding_def holdsItself_def takeToken_def
        streamLock.held_def lockFree_def split: if_splits)
next
  case (Locking c)
  then show ?thesis using assms
    by (auto simp: senderStep_def endSend_def holding_def holdsItself_def lockBegin_def
        streamLock.held_def lockFree_def split: option.splits if_splits)
next
  case (TookToken c)
  then show ?thesis using assms
    by (auto simp: senderStep_def endSend_def holding_def holdsItself_def senderOk_def
        dest!: unlock_held split: option.splits)
next
  case (Locked c)
  then show ?thesis using assms
    by (auto simp: senderStep_def endSend_def holding_def holdsItself_def senderOk_def
        dest!: unlock_held split: option.splits if_splits sendPolicy.splits)
next
  case (Writing c)
  then show ?thesis using assms
    by (auto simp: senderStep_def endSend_def holding_def holdsItself_def senderOk_def
        dest!: unlock_held)
qed (use assms in \<open>auto simp: senderStep_def endSend_def holding_def holdsItself_def split: option.splits\<close>)

lemma section_ok:
  assumes "senderStep ch cur sd ls = Some (sd', ls')" "senderOk ls sd"
  shows "senderOk ls' sd'" "cm_made (ls c) \<Longrightarrow> cm_made (ls' c)"
  using assms
  by (auto simp: senderStep_def endSend_def senderOk_def lockBegin_def takeToken_def
      dest!: unlock_held split: sendPhase.splits option.splits if_splits sendPolicy.splits detachedWrite.splits)

lemma write_balance:
  assumes "detachedStep err sd ls = Some (sd', ls')" "senderOk ls sd"
  shows "holding b sd' + streamLock.held (ls b) = holding b sd + streamLock.held (ls' b)"
    "senderOk ls' sd'" "cm_made (ls' c) = cm_made (ls c)"
proof -
  obtain d where d: "sd_write sd = WriteRunning d" "unlockStream d (sd\<lparr>sd_write := WriteEnded err\<rparr>) ls = Some (sd', ls')"
    using assms(1) by (auto simp: detachedStep_def split: detachedWrite.splits)
  note u = unlock_held [OF d(2)]
  show "holding b sd' + streamLock.held (ls b) = holding b sd + streamLock.held (ls' b)"
    "senderOk ls' sd'" "cm_made (ls' c) = cm_made (ls c)"
    using d(1) u assms(2)
    by (auto simp: holding_def holdsItself_def senderOk_def)
qed

lemma sendsOk_put:
  assumes "sendsOk s" "i < length (ss_senders s)"
    and "\<And>b. holding b (fst r) + streamLock.held (ss_locks s b) =
      holding b (ss_senders s ! i) + streamLock.held (snd r b)"
    and "senderOk (snd r) (fst r)" "\<And>c. cm_made (ss_locks s c) \<Longrightarrow> cm_made (snd r c)"
  shows "sendsOk (putSender i r s)"
proof -
  have "heldOn b (putSender i r s) = streamLock.held (snd r b)" for b
    using assms(1) assms(3) [of b] sum_list_update [OF assms(2), of "holding b" "fst r"]
    by (simp add: sendsOk_def heldOn_def putSender_def)
  moreover have "senderOk (snd r) sd" if "sd \<in> set ((ss_senders s)[i := fst r])" for sd
  proof (cases "sd = fst r")
    case False
    then have "senderOk (ss_locks s) sd"
      using that assms(1) set_update_subset_insert [of "ss_senders s" i "fst r"] by (auto simp: sendsOk_def)
    then show ?thesis using assms(5) by (auto simp: senderOk_def)
  qed (use assms(4) in simp)
  ultimately show ?thesis by (simp add: sendsOk_def putSender_def)
qed

lemma sendsOk_step:
  assumes "sendSystemStep s s'" "sendsOk s"
  shows "sendsOk s'"
  using assms
proof (induction rule: sendSystemStep.induct)
  case (Arrives s pol)
  then show ?case
    by (cases pol) (auto simp: sendsOk_def heldOn_def newSender_def senderOk_def holding_def holdsItself_def)
next
  case (Runs i s ch r)
  then have "senderOk (ss_locks s) (ss_senders s ! i)" by (simp add: sendsOk_def)
  with Runs section_balance section_ok show ?case by (cases r) (auto intro!: sendsOk_put)
next
  case (Writes i s err r)
  then have "senderOk (ss_locks s) (ss_senders s ! i)" by (simp add: sendsOk_def)
  with Writes write_balance show ?case by (cases r) (auto intro!: sendsOk_put)
next
  case (ContextEnds i s e)
  then have "senderOk (ss_locks s) (ss_senders s ! i)" by (simp add: sendsOk_def)
  with ContextEnds show ?case
    by (auto intro!: sendsOk_put simp: senderOk_def holding_def holdsItself_def)
next
  case (Rebinds s b)
  then show ?case by (simp add: sendsOk_def heldOn_def)
qed

lemma sendsReach_ok: "sendsReach s \<Longrightarrow> sendsOk s"
proof (induction rule: sendsReach.induct)
  case (Idle cur)
  show ?case by (simp add: sendsOk_def heldOn_def streamLock.held_def lockFree_def newContextMutex_def)
qed (rule sendsOk_step)

section \<open>Progress\<close>

lemma held_unlocks: "0 < streamLock.held (ls b) \<Longrightarrow> unlockStream b sd' ls \<noteq> None"
  by (elim streamLock.holder_gives) (simp add: unlockStream_def)

lemma holder_runs:
  assumes "0 < streamLock.held (ls b)" "0 < holding b sd"
  shows "senderStep ch cur sd ls \<noteq> None \<or> detachedStep err sd ls \<noteq> None"
  using assms held_unlocks [where ls = ls and b = b, OF assms(1)]
  by (auto simp: holding_def holdsItself_def senderStep_def detachedStep_def split: if_splits option.splits sendPolicy.splits)

lemma free_taken: "lockFree (ls b) \<Longrightarrow> sd_phase sd = Selecting b \<Longrightarrow> senderOk ls sd \<Longrightarrow> takesToken ch \<Longrightarrow>
  senderStep ch cur sd ls \<noteq> None"
  by (simp add: senderStep_def takeToken_def lockFree_def senderOk_def)

lemma sum_list_filter_le:
  fixes f :: "'a \<Rightarrow> nat"
  assumes "\<And>x. P x \<Longrightarrow> 0 < f x"
  shows "length (filter P xs) \<le> (\<Sum>x\<leftarrow>xs. f x)"
  using assms by (induction xs) (force simp: Suc_le_eq)+

lemma sum_list_pos_ex:
  fixes f :: "'a \<Rightarrow> nat"
  shows "0 < (\<Sum>x\<leftarrow>xs. f x) \<Longrightarrow> \<exists>x \<in> set xs. 0 < f x"
  by (induction xs) auto

text \<open>C13: However the senders of a session interleave, whatever binding the session has meanwhile and
  whenever contexts end, at most one write runs on each stream.  The lock is never lost: while it is
  free every sender that waits for it can take it, and while it is taken some sender holds it whose next
  section, or whose writing goroutine, can run, so nobody ever blocks while unlocking.\<close>

theorem one_write_per_stream:
  assumes "sendsReach s"
  shows "length (filter (writesOn b) (ss_senders s)) \<le> 1 \<and>
    (if lockFree (ss_locks s b)
     then \<forall>sd \<in> set (ss_senders s). sd_phase sd = Selecting b \<longrightarrow>
       (\<forall>ch. takesToken ch \<longrightarrow> senderStep ch (ss_current s) sd (ss_locks s) \<noteq> None)
     else \<exists>sd \<in> set (ss_senders s). 0 < holding b sd \<and>
       (\<forall>ch err. senderStep ch (ss_current s) sd (ss_locks s) \<noteq> None \<or> detachedStep err sd (ss_locks s) \<noteq> None))"
proof -
  have ok: "sendsOk s" using assms by (rule sendsReach_ok)
  then have sum: "heldOn b s = streamLock.held (ss_locks s b)" by (simp add: sendsOk_def)
  have "writesOn b sd \<Longrightarrow> 0 < holding b sd" for sd by (auto simp: writesOn_def holding_def holdsItself_def)
  then have "length (filter (writesOn b) (ss_senders s)) \<le> heldOn b s"
    unfolding heldOn_def by (rule sum_list_filter_le)
  also have "\<dots> \<le> 1" using sum streamLock.held_le by simp
  finally have one: "length (filter (writesOn b) (ss_senders s)) \<le> 1" .
  show ?thesis
  proof (cases "lockFree (ss_locks s b)")
    case True
    with one ok free_taken show ?thesis by (auto simp: sendsOk_def)
  next
    case False
    then have held: "0 < streamLock.held (ss_locks s b)" by (simp add: streamLock.held_def)
    then obtain sd where "sd \<in> set (ss_senders s)" "0 < holding b sd"
      using sum_list_pos_ex [of "holding b" "ss_senders s"] sum by (auto simp: heldOn_def)
    with one False show ?thesis
      using holder_runs [where ls = "ss_locks s" and b = b, OF held] by (simp only: if_False) blast
  qed
qed

text \<open>A send whose context has ended, and that has not started to write, returns with its next section
  or with the one after it, whatever happens in between.\<close>

definition sendReturned :: "sender \<Rightarrow> bool" where
  "sendReturned sd \<longleftrightarrow> (\<exists>attempted err. sd_phase sd = SendDone attempted err)"

lemma cancelled_send_returns:
  assumes "sd_ctx sd = Some e" "\<not> is_OnStream (sd_policy sd)" "\<And>b. sd_phase sd \<noteq> Writing b"
    and "senderStep ch cur sd ls = Some (sd1, ls1)" "senderStep ch' cur' sd1 ls2 = Some (sd2, ls3)"
  shows "sendReturned sd1 \<or> sendReturned sd2"
  using assms
  by (auto simp: senderStep_def sendReturned_def endSend_def lockBegin_def is_OnStream_def
      dest!: unlock_held split: sendPhase.splits option.splits if_splits sendPolicy.splits detachedWrite.splits)

section \<open>One pass as a whole\<close>

text \<open>What \<open>Gateway\<close> takes as one section is what the sections here give when nothing comes between
  them: on the session's binding, with the lock free and the context alive, a send ends after its six
  sections (five, when the commit refuses) with the outcome of \<open>sendOnSelected\<close>, the lock free again.\<close>

fun sectionsAlone :: "nat \<Rightarrow> sendChoice \<Rightarrow> nat option \<Rightarrow> sender \<times> streamLocks \<Rightarrow> (sender \<times> streamLocks) option" where
  "sectionsAlone 0 ch cur r = Some r"
| "sectionsAlone (Suc n) ch cur (sd, ls) =
     (case senderStep ch cur sd ls of None \<Rightarrow> None | Some r \<Rightarrow> sectionsAlone n ch cur r)"

lemma pass_as_a_whole:
  assumes "stream s = Some b" "lockFree (ls b)" "takesToken ch"
  shows "\<exists>sd' ls' attempted err.
    sectionsAlone (if commits ch then 6 else 5) ch (stream s) (newSender ThroughWrite, ls) = Some (sd', ls') \<and>
    sd_phase sd' = SendDone attempted err \<and> lockFree (ls' b) \<and>
    fst (sendOnSelected b None None (Some (\<lambda>s. (commits ch, s))) (sendReturns ch) msg s) =
      SendReturned attempted err"
  using assms
  by (auto simp: numeral_eq_Suc newSender_def senderStep_def lockBegin_def takeToken_def Unlock_def lockFree_def
      unlockStream_def endSend_def sendOnSelected_def)

section \<open>An example\<close>

text \<open>A script of sections, and the system it leads to: sender 0 writes on binding 0, sender 1 waits for
  the lock, and the session has been bound to stream 1 meanwhile.\<close>

fun runSections :: "(nat \<times> sendChoice) list \<Rightarrow> sendSystem \<Rightarrow> sendSystem option" where
  "runSections [] s = Some s"
| "runSections ((i, ch) # script) s =
     (if length (ss_senders s) \<le> i then None
      else case senderStep ch (ss_current s) (ss_senders s ! i) (ss_locks s) of
          None \<Rightarrow> None
        | Some r \<Rightarrow> runSections script (putSender i r s))"

lemma runSections_reach: "runSections script s = Some s' \<Longrightarrow> sendsReach s \<Longrightarrow> sendsReach s'"
proof (induction script s rule: runSections.induct)
  case (2 i ch script s)
  then obtain r where r: "i < length (ss_senders s)"
    "senderStep ch (ss_current s) (ss_senders s ! i) (ss_locks s) = Some r"
    "runSections script (putSender i r s) = Some s'"
    by (auto split: if_splits option.splits)
  then have "sendsReach (putSender i r s)" using 2(3) by (blast intro: sendsReach.Step sendSystemStep.Runs)
  with r 2(1) show ?case by simp
qed simp

definition grabs :: sendChoice where
  "grabs = \<lparr>takesToken = True, commits = True, sendReturns = None\<rparr>"

definition exampleSends :: sendSystem where
  "exampleSends = \<lparr>ss_current = Some 0, ss_locks = (\<lambda>b. newContextMutex),
     ss_senders = [newSender ThroughWrite, newSender Detached]\<rparr>"

definition exampleWriting :: sendSystem where
  "exampleWriting = the (runSections [(0, grabs), (0, grabs), (1, grabs), (0, grabs), (0, grabs),
     (0, grabs), (1, grabs)] exampleSends)\<lparr>ss_current := Some 1\<rparr>"

lemma exampleSends_reach: "sendsReach exampleSends"
proof -
  let ?s = "\<lparr>ss_current = Some 0, ss_locks = (\<lambda>b. newContextMutex), ss_senders = []\<rparr>"
  have "sendsReach (?s\<lparr>ss_senders := [newSender ThroughWrite]\<rparr>)"
    using sendsReach.Step [OF sendsReach.Idle sendSystemStep.Arrives [of ?s ThroughWrite]] by simp
  from sendsReach.Step [OF this sendSystemStep.Arrives [of _ Detached]]
  show ?thesis by (simp add: exampleSends_def)
qed

lemmas example_section_defs = exampleSends_def newSender_def senderStep_def lockBegin_def takeToken_def
  newContextMutex_def putSender_def grabs_def

lemma exampleWriting_reach: "sendsReach exampleWriting"
proof -
  obtain s where s: "runSections [(0, grabs), (0, grabs), (1, grabs), (0, grabs), (0, grabs),
     (0, grabs), (1, grabs)] exampleSends = Some s"
    by (simp add: example_section_defs)
  from sendsReach.Step [OF runSections_reach [OF s exampleSends_reach] sendSystemStep.Rebinds]
  show ?thesis by (simp only: exampleWriting_def s option.sel)
qed

lemma one_write_per_stream_witness:
  "map sd_phase (ss_senders exampleWriting) = [Writing 0, Selecting 0] \<and>
   \<not> lockFree (ss_locks exampleWriting 0) \<and>
   length (filter (writesOn 0) (ss_senders exampleWriting)) \<le> 1 \<and>
   (\<exists>sd \<in> set (ss_senders exampleWriting). 0 < holding 0 sd \<and>
     (\<forall>ch err. senderStep ch (ss_current exampleWriting) sd (ss_locks exampleWriting) \<noteq> None \<or>
        detachedStep err sd (ss_locks exampleWriting) \<noteq> None))"
proof -
  have "\<not> lockFree (ss_locks exampleWriting 0)"
    "map sd_phase (ss_senders exampleWriting) = [Writing 0, Selecting 0]"
    by (simp_all add: exampleWriting_def example_section_defs lockFree_def)
  with one_write_per_stream [OF exampleWriting_reach, of 0] show ?thesis by simp
qed

end
