(* ===== verification/Envelopes.thy ===== *)
theory Envelopes
  imports NormalizeProofs
begin

text \<open>
  The rest of the telemetry envelope (\<open>pkg/telemetry/envelope.go\<close>): its accessors and the five builders
  over messages of the MAVLink library.  What the library keeps in a message, and the text \<open>String\<close>
  gives of an enumeration, are values of a type \<open>'v\<close>; \<open>GetID\<close> is a field.  The Relay builds its own
  envelopes from frames (\<open>Gateway.buildTelemetryFrameEnvelope\<close>); these are for other users of the
  package.
\<close>

section \<open>Accessors\<close>

definition GetSource :: "'v envelope \<Rightarrow> string" where
  "GetSource e = env_Source e"

definition GetMessageType :: "'v envelope \<Rightarrow> string" where
  "GetMessageType e = env_MsgName e"

definition ToEnvelope :: "'v envelope \<Rightarrow> 'v envelope" where
  "ToEnvelope e = e"

text \<open>\<open>json.Marshal\<close> is a parameter.\<close>

definition ToJSON :: "('v envelope \<Rightarrow> goerror + string) \<Rightarrow> 'v envelope \<Rightarrow> goerror + string" where
  "ToJSON marshal e = marshal e"

definition ToBinary :: "('v envelope \<Rightarrow> goerror + string) \<Rightarrow> 'v envelope \<Rightarrow> goerror + string" where
  "ToBinary marshal e = ToJSON marshal e"

text \<open>Reading a float64 from its bits, and dropping its fraction.\<close>

definition f64_of_bits :: "64 word \<Rightarrow> f64" where
  "f64_of_bits w =
     (let n = unat w; s = n div 2 ^ 63 = 1; ex = n div 2 ^ 52 mod 2 ^ 11; f = n mod 2 ^ 52 in
      if ex = 2047 then (if f = 0 then Inf64 s else NaN64)
      else if ex = 0 then Fin64 s f (- 1074)
      else Fin64 s (f + 2 ^ 52) (int ex - 1075))"

fun truncF64 :: "f64 \<Rightarrow> int" where
  "truncF64 (Fin64 s m e) = (let a = int (m * 2 ^ nat e div 2 ^ nat (- e)) in if s then - a else a)"
| "truncF64 _ = 0"

text \<open>Seconds and nanoseconds of a device timestamp.  Within the range of \<open>int64\<close> the whole seconds
  convert back exactly and their difference is exact, while the product with \<open>1e9\<close> is rounded;
  outside it, and for NaN, both conversions give what the processor gives: \<open>wild\<close>.\<close>

fun unixParts :: "(f64 \<Rightarrow> int \<times> int) \<Rightarrow> f64 \<Rightarrow> int \<times> int" where
  "unixParts wild (Fin64 s m e) =
     (let secs = truncF64 (Fin64 s m e) in
      if - (2 ^ 63) \<le> secs \<and> secs < 2 ^ 63
      then (secs, truncF64 (quot64 s (m * 2 ^ nat e mod 2 ^ nat (- e) * 10 ^ 9) (2 ^ nat (- e))))
      else wild (Fin64 s m e))"
| "unixParts wild x = wild x"

definition isZero64 :: "f64 \<Rightarrow> bool" where
  "isZero64 x \<longleftrightarrow> (case x of Fin64 s m e \<Rightarrow> m = 0 | _ \<Rightarrow> False)"

definition GetTimestamp :: "(f64 \<Rightarrow> int \<times> int) \<Rightarrow> 'v envelope \<Rightarrow> gotime option" where
  "GetTimestamp wild e =
     (case env_TimestampRelay e of
        Some t \<Rightarrow> Some t
      | None \<Rightarrow>
          (let x = f64_of_bits (env_TimestampDevice e) in
           if isZero64 x then None
           else (case unixParts wild x of (secs, nanos) \<Rightarrow> Some (secs * 10 ^ 9 + nanos))))"

section \<open>Builders\<close>

text \<open>The fields all five set alike.\<close>

definition builtEnvelope :: "string \<Rightarrow> gotime \<Rightarrow> 32 word \<Rightarrow> string \<Rightarrow> 'v gomap \<Rightarrow> 'v envelope" where
  "builtEnvelope source now msgID msgName fs = \<lparr>env_AgentID = source, env_OperatorID = [],
     env_AircraftID = [], env_RelayID = [], env_SessionID = [], env_FlightID = [], env_IntentID = [],
     env_IntentVersion = 0, env_Source = source, env_TimestampRelay = Some now, env_TimestampAgent = None,
     env_TimestampDevice = 0, env_Dialect = [], env_MsgID = msgID, env_MsgName = msgName, env_WALID = [],
     env_WALSequence = 0, env_SystemID = 0, env_ComponentID = 0, env_Sequence = 0, env_Fields = fs,
     env_Raw = []\<rparr>"

record 'v MessageHeartbeat =
  hb_ID :: "32 word"
  hb_Type :: 'v

definition BuildHeartbeatEnvelope :: "string \<Rightarrow> gotime \<Rightarrow> 'v MessageHeartbeat \<Rightarrow> 'v envelope" where
  "BuildHeartbeatEnvelope source now msg = builtEnvelope source now (hb_ID msg) ''Heartbeat''
     [(''type'', hb_Type msg)]"

record 'v MessageGlobalPositionInt =
  gp_ID :: "32 word"
  gp_Lat :: 'v
  gp_Lon :: 'v
  gp_Alt :: 'v
  gp_RelativeAlt :: 'v
  gp_Vx :: 'v
  gp_Vy :: 'v
  gp_Vz :: 'v
  gp_Hdg :: 'v

definition BuildGlobalPositionIntEnvelope :: "string \<Rightarrow> gotime \<Rightarrow> 'v MessageGlobalPositionInt \<Rightarrow> 'v envelope" where
  "BuildGlobalPositionIntEnvelope source now msg = builtEnvelope source now (gp_ID msg) ''GlobalPositionInt''
     [(''latitude'', gp_Lat msg), (''longitude'', gp_Lon msg), (''altitude'', gp_Alt msg),
      (''relative_alt'', gp_RelativeAlt msg), (''vx'', gp_Vx msg), (''vy'', gp_Vy msg),
      (''vz'', gp_Vz msg), (''heading'', gp_Hdg msg)]"

record 'v MessageAttitude =
  at_ID :: "32 word"
  at_Pitch :: 'v
  at_Roll :: 'v
  at_Yaw :: 'v
  at_Pitchspeed :: 'v
  at_Rollspeed :: 'v
  at_Yawspeed :: 'v

definition BuildAttitudeEnvelope :: "string \<Rightarrow> gotime \<Rightarrow> 'v MessageAttitude \<Rightarrow> 'v envelope" where
  "BuildAttitudeEnvelope source now msg = builtEnvelope source now (at_ID msg) ''Attitude''
     [(''pitch'', at_Pitch msg), (''roll'', at_Roll msg), (''yaw'', at_Yaw msg),
      (''pitch_speed'', at_Pitchspeed msg), (''roll_speed'', at_Rollspeed msg),
      (''yaw_speed'', at_Yawspeed msg)]"

record 'v MessageVfrHud =
  vh_ID :: "32 word"
  vh_Groundspeed :: 'v
  vh_Alt :: 'v
  vh_Heading :: 'v
  vh_Throttle :: 'v
  vh_Climb :: 'v

definition BuildVfrHudEnvelope :: "string \<Rightarrow> gotime \<Rightarrow> 'v MessageVfrHud \<Rightarrow> 'v envelope" where
  "BuildVfrHudEnvelope source now msg = builtEnvelope source now (vh_ID msg) ''VFR_HUD''
     [(''ground_speed'', vh_Groundspeed msg), (''altitude'', vh_Alt msg),
      (''heading'', vh_Heading msg), (''throttle'', vh_Throttle msg),
      (''climb_rate'', vh_Climb msg)]"

record 'v MessageSysStatus =
  sy_ID :: "32 word"
  sy_BatteryRemaining :: 'v
  sy_VoltageBattery :: 'v
  sy_OnboardControlSensorsPresent :: 'v
  sy_OnboardControlSensorsEnabled :: 'v
  sy_OnboardControlSensorsHealth :: 'v
  sy_Load :: 'v
  sy_DropRateComm :: 'v
  sy_ErrorsComm :: 'v
  sy_ErrorsCount1 :: 'v
  sy_ErrorsCount2 :: 'v
  sy_ErrorsCount3 :: 'v
  sy_ErrorsCount4 :: 'v
  sy_OnboardControlSensorsPresentExtended :: 'v
  sy_OnboardControlSensorsEnabledExtended :: 'v
  sy_OnboardControlSensorsHealthExtended :: 'v

definition BuildSysStatusEnvelope :: "string \<Rightarrow> gotime \<Rightarrow> 'v MessageSysStatus \<Rightarrow> 'v envelope" where
  "BuildSysStatusEnvelope source now msg = builtEnvelope source now (sy_ID msg) ''SystemStatus''
     [(''battery_remaining'', sy_BatteryRemaining msg),
      (''voltage_battery'', sy_VoltageBattery msg),
      (''onboard_control_sensors_present'', sy_OnboardControlSensorsPresent msg),
      (''onboard_control_sensors_enabled'', sy_OnboardControlSensorsEnabled msg),
      (''onboard_control_sensors_health'', sy_OnboardControlSensorsHealth msg),
      (''load'', sy_Load msg), (''drop_rate_comm'', sy_DropRateComm msg),
      (''errors_comm'', sy_ErrorsComm msg), (''errors_count1'', sy_ErrorsCount1 msg),
      (''errors_count2'', sy_ErrorsCount2 msg), (''errors_count3'', sy_ErrorsCount3 msg),
      (''errors_count4'', sy_ErrorsCount4 msg),
      (''sensors_present_extended'', sy_OnboardControlSensorsPresentExtended msg),
      (''sensors_enabled_extended'', sy_OnboardControlSensorsEnabledExtended msg),
      (''sensors_health_extended'', sy_OnboardControlSensorsHealthExtended msg)]"

section \<open>Facts\<close>

text \<open>The names the builders give, as the filters and the registry read them.\<close>

lemma built_names:
  "NormalizeMessageName (env_MsgName (BuildHeartbeatEnvelope s t hb)) = ''heartbeat''"
  "NormalizeMessageName (env_MsgName (BuildGlobalPositionIntEnvelope s t gp)) = ''global_position_int''"
  "NormalizeMessageName (env_MsgName (BuildAttitudeEnvelope s t a)) = ''attitude''"
  "NormalizeMessageName (env_MsgName (BuildVfrHudEnvelope s t vh)) = ''vfr_hud''"
  "NormalizeMessageName (env_MsgName (BuildSysStatusEnvelope s t sy)) = ''sys_status''"
  by (simp_all add: BuildHeartbeatEnvelope_def BuildGlobalPositionIntEnvelope_def BuildAttitudeEnvelope_def
      BuildVfrHudEnvelope_def BuildSysStatusEnvelope_def builtEnvelope_def) (code_simp+)

text \<open>The normalizers read a value by its text (\<open>fieldString\<close>): \<open>sprint\<close> is \<open>fmt.Sprint\<close>, which gives a
  string itself.\<close>

definition asText :: "('v \<Rightarrow> string) \<Rightarrow> 'v envelope \<Rightarrow> TelemetryEnvelope" where
  "asText sprint e = \<lparr>env_AgentID = env_AgentID e, env_OperatorID = env_OperatorID e,
     env_AircraftID = env_AircraftID e, env_RelayID = env_RelayID e, env_SessionID = env_SessionID e,
     env_FlightID = env_FlightID e, env_IntentID = env_IntentID e, env_IntentVersion = env_IntentVersion e,
     env_Source = env_Source e, env_TimestampRelay = env_TimestampRelay e,
     env_TimestampAgent = env_TimestampAgent e, env_TimestampDevice = env_TimestampDevice e,
     env_Dialect = env_Dialect e, env_MsgID = env_MsgID e, env_MsgName = env_MsgName e,
     env_WALID = env_WALID e, env_WALSequence = env_WALSequence e, env_SystemID = env_SystemID e,
     env_ComponentID = env_ComponentID e, env_Sequence = env_Sequence e,
     env_Fields = map (\<lambda>(k, v). (k, sprint v)) (env_Fields e), env_Raw = env_Raw e\<rparr>"

text \<open>No builder gives a capture time or a WAL identity, so the normalized writer refuses all of it.\<close>

lemma built_not_ready: "\<not> baseReady uuidParse (asText sprint (builtEnvelope source now msgID msgName fs))"
  by (simp add: baseReady_def asText_def builtEnvelope_def)

lemma built_refused:
  "baseRecord uuidParse (asText sprint (builtEnvelope source now msgID msgName fs)) name =
     Inl (OtherError ''agent capture time is required'')"
  by (simp add: baseRecord_def asText_def builtEnvelope_def)

text \<open>A built envelope has the Relay's time; without one, one and a half device seconds read as such, and
  before the epoch the fraction is negative.\<close>

lemma timestamps:
  "GetTimestamp wild (builtEnvelope source now msgID msgName fs) = Some now"
  "GetTimestamp wild ((builtEnvelope source now msgID msgName fs)
     \<lparr>env_TimestampRelay := None, env_TimestampDevice := 0x3FF8000000000000\<rparr>) = Some 1500000000"
  "GetTimestamp wild ((builtEnvelope source now msgID msgName fs)
     \<lparr>env_TimestampRelay := None, env_TimestampDevice := 0xBFF8000000000000\<rparr>) = Some (- 1500000000)"
  "GetTimestamp wild ((builtEnvelope source now msgID msgName fs)\<lparr>env_TimestampRelay := None\<rparr>) = None"
  by (simp_all add: GetTimestamp_def builtEnvelope_def f64_of_bits_def isZero64_def quot64_def
      quotExponent_def roundDiv_def Let_def bitlen.simps)

end
