(* ===== verification/Json.thy ===== *)
theory Json
  imports Prelude
begin

text \<open>
  The part of \<open>encoding/json\<close> that the export sinks use: string literals with \<open>Marshal\<close>'s escapes and
  objects with sorted keys.  A text is valid UTF-8, as the configuration parser yields it; the two line
  separators outside ASCII, which \<open>Marshal\<close> also escapes, are left as they are.
\<close>

definition jsonEscape :: "char \<Rightarrow> string" where
  "jsonEscape c =
     (if c = CHR 0x22 \<or> c = CHR 0x5C then [CHR 0x5C, c]
      else if c = CHR 0x08 then [CHR 0x5C, CHR ''b'']
      else if c = CHR 0x0C then [CHR 0x5C, CHR ''f'']
      else if c = CHR 0x0A then [CHR 0x5C, CHR ''n'']
      else if c = CHR 0x0D then [CHR 0x5C, CHR ''r'']
      else if c = CHR 0x09 then [CHR 0x5C, CHR ''t'']
      else if of_char c < (32 :: nat) \<or> c \<in> {CHR ''<'', CHR ''>'', CHR 0x26}
      then CHR 0x5C # ''u00'' @ [hexDigit (of_char c div 16), hexDigit (of_char c mod 16)]
      else [c])"

definition jsonString :: "string \<Rightarrow> string" where
  "jsonString s = [CHR 0x22] @ concat (map jsonEscape s) @ [CHR 0x22]"

fun commaJoin :: "string list \<Rightarrow> string" where
  "commaJoin [] = []"
| "commaJoin [s] = s"
| "commaJoin (s # ss) = s @ '','' @ commaJoin ss"

text \<open>An object: its values are JSON texts already.\<close>

definition jsonObject :: "string gomap \<Rightarrow> string" where
  "jsonObject m = ''{'' @ commaJoin (map (\<lambda>(k, v). jsonString k @ '':'' @ v) (sort_key fst m)) @ ''}''"

text \<open>No literal holds a line feed.\<close>

lemma hexDigit_plain: "n < 16 \<Longrightarrow> hexDigit n \<noteq> CHR 0x0A \<and> hexDigit n \<noteq> CHR 0x22 \<and> hexDigit n \<noteq> CHR 0x5C"
  by (simp add: hexDigit_def digitChar_def char_of_eq_iff take_bit_eq_mod)

lemma hexDigits_plain:
  "hexDigit (of_char c div 16) \<notin> {CHR 0x0A, CHR 0x22, CHR 0x5C}"
  "hexDigit (of_char c mod 16) \<notin> {CHR 0x0A, CHR 0x22, CHR 0x5C}"
proof -
  have "(of_char c :: nat) < 16 * 16" using nat_of_char_less_256 [of c] by simp
  then have "(of_char c :: nat) div 16 < 16" "(of_char c :: nat) mod 16 < 16"
    by (simp_all only: less_mult_imp_div_less mod_less_divisor zero_less_numeral)
  then show "hexDigit (of_char c div 16) \<notin> {CHR 0x0A, CHR 0x22, CHR 0x5C}"
    "hexDigit (of_char c mod 16) \<notin> {CHR 0x0A, CHR 0x22, CHR 0x5C}" using hexDigit_plain by auto
qed

lemma nl_jsonEscape [simp]: "CHR 0x0A \<notin> set (jsonEscape c)"
  using hexDigits_plain [of c] by (auto simp: jsonEscape_def)

lemma nl_jsonString [simp]: "CHR 0x0A \<notin> set (jsonString s)"
  by (auto simp: jsonString_def)

text \<open>A literal's content holds no quote that is not escaped: reading it up to its closing quote gives
  the literal back.\<close>

fun literalEnd :: "string \<Rightarrow> string option" where
  "literalEnd [] = None"
| "literalEnd (c # s) =
     (if c = CHR 0x22 then Some s
      else if c = CHR 0x5C then (case s of [] \<Rightarrow> None | _ # s' \<Rightarrow> literalEnd s')
      else literalEnd s)"

lemma literalEnd_escape: "literalEnd (jsonEscape c @ s) = literalEnd s"
  using hexDigits_plain [of c] by (simp add: jsonEscape_def)

lemma literalEnd_jsonString: "literalEnd (tl (jsonString s) @ rest) = Some rest"
proof -
  have "literalEnd (concat (map jsonEscape s) @ CHR 0x22 # rest) = Some rest"
    by (induction s) (simp_all add: literalEnd_escape)
  then show ?thesis by (simp add: jsonString_def)
qed

end
