(* ===== verification/BatchSinks.thy ===== *)
theory BatchSinks
  imports Lifecycle Json
begin

text \<open>
  The five export sinks that buffer messages and flush them in batches: BigQuery, Timestream,
  InfluxDB, Prometheus and Elasticsearch (\<open>internal/sinks\<close>).  They share their buffering, which is
  modelled once over the sink's own flush; the locale \<open>batch_flush\<close> states what the buffering needs of
  a flush, and each sink's flush interprets it.  The clients' answers are parameters; a client is told
  whether the sink's context is cancelled.  Histories are kept of the messages taken in, of the
  batches a successful flush cleared, and of the rows each call handed to the client.
\<close>

section \<open>Buffering\<close>

record 'r batchSink =
  bs_batchSize :: int
  bs_flushInterval :: int
  bs_buffer :: "TelemetryEnvelope list"
  bs_lastFlush :: gotime
  bs_cancelled :: bool
  bs_taken :: "TelemetryEnvelope list"
  bs_cleared :: "TelemetryEnvelope list list"
  bs_handed :: "'r list list"

text \<open>\<open>parseDuration\<close> is \<open>time.ParseDuration\<close>, \<open>None\<close> its error.\<close>

definition flushIntervalOf :: "(string \<Rightarrow> int option) \<Rightarrow> string \<Rightarrow> int" where
  "flushIntervalOf parseDuration text =
     (if text = [] then 30 * second
      else case parseDuration text of None \<Rightarrow> 30 * second | Some d \<Rightarrow> d)"

definition batchSizeOf :: "int \<Rightarrow> int \<Rightarrow> int" where
  "batchSizeOf d n = (if 0 < n then n else d)"

definition newBatchSink :: "int \<Rightarrow> int \<Rightarrow> gotime \<Rightarrow> 'r batchSink" where
  "newBatchSink n interval now =
     \<lparr>bs_batchSize = n, bs_flushInterval = interval, bs_buffer = [], bs_lastFlush = now,
      bs_cancelled = False, bs_taken = [], bs_cleared = [], bs_handed = []\<rparr>"

text \<open>The background flusher's ticker panics on an interval that is not positive.\<close>

definition tickerPanics :: "'r batchSink \<Rightarrow> bool" where
  "tickerPanics s \<longleftrightarrow> bs_flushInterval s \<le> 0"

definition clearBuffer :: "gotime \<Rightarrow> 'r batchSink \<Rightarrow> 'r batchSink" where
  "clearBuffer now s = s\<lparr>bs_buffer := [], bs_lastFlush := now, bs_cleared := bs_cleared s @ [bs_buffer s]\<rparr>"

definition handOver :: "'r list \<Rightarrow> 'r batchSink \<Rightarrow> 'r batchSink" where
  "handOver rows s = s\<lparr>bs_handed := bs_handed s @ [rows]\<rparr>"

type_synonym 'r flusher = "gotime \<Rightarrow> 'r batchSink \<Rightarrow> goerror option \<times> 'r batchSink"

definition batchWrite :: "'r flusher \<Rightarrow> TelemetryEnvelope \<Rightarrow> 'r flusher" where
  "batchWrite fl msg now s =
     (let s1 = s\<lparr>bs_buffer := bs_buffer s @ [msg], bs_taken := bs_taken s @ [msg]\<rparr> in
      if bs_batchSize s1 \<le> int (length (bs_buffer s1)) then fl now s1 else (None, s1))"

definition batchTick :: "'r flusher \<Rightarrow> gotime \<Rightarrow> 'r batchSink \<Rightarrow> 'r batchSink" where
  "batchTick fl now s =
     (if bs_buffer s \<noteq> [] \<and> bs_flushInterval s \<le> now - bs_lastFlush s then snd (fl now s) else s)"

text \<open>The flusher's last flush, once the context is cancelled.\<close>

definition batchEnd :: "'r flusher \<Rightarrow> gotime \<Rightarrow> 'r batchSink \<Rightarrow> 'r batchSink" where
  "batchEnd fl now s = snd (fl now s)"


definition batchClose :: "'r flusher \<Rightarrow> goerror option \<Rightarrow> 'r flusher" where
  "batchClose fl clientClose now s =
     (case fl now s of
        (Some e, s1) \<Rightarrow> (Some (wrapError ''failed to flush final batch'' e), s1)
      | (None, s1) \<Rightarrow> (clientClose, s1))"

section \<open>BigQuery\<close>

record BigQueryRow =
  bqr_Source :: string
  bqr_Timestamp :: "gotime option"
  bqr_MessageType :: string
  bqr_Latitude :: "64 word option"
  bqr_Longitude :: "64 word option"
  bqr_Altitude :: "64 word option"
  bqr_Roll :: "64 word option"
  bqr_Pitch :: "64 word option"
  bqr_Yaw :: "64 word option"
  bqr_GroundSpeed :: "64 word option"
  bqr_Heading :: "64 word option"
  bqr_Throttle :: "64 word option"
  bqr_BatteryLevel :: "64 word option"
  bqr_BatteryVoltage :: "64 word option"
  bqr_BatteryCurrent :: "64 word option"
  bqr_FlightMode :: string
  bqr_Status :: string
  bqr_CustomMode :: "32 word option"
  bqr_RawData :: string

text \<open>The row that the code builds is dropped: the function returns nil.\<close>

definition convertToBigQueryRow :: "TelemetryEnvelope \<Rightarrow> BigQueryRow option" where
  "convertToBigQueryRow msg = None"

definition NewBigQuerySink :: "(string \<Rightarrow> int option) \<Rightarrow> BigQueryConfig \<Rightarrow> goerror option \<Rightarrow> gotime \<Rightarrow>
    goerror + BigQueryRow option batchSink" where
  "NewBigQuerySink parseDuration c clientErr now =
     (case clientErr of
        Some e \<Rightarrow> Inl (wrapError ''failed to create BigQuery client'' e)
      | None \<Rightarrow> Inr (newBatchSink (batchSizeOf 1000 (bq_BatchSize c))
          (flushIntervalOf parseDuration (bq_FlushInterval c)) now))"

definition bigQueryFlush :: "(bool \<Rightarrow> BigQueryRow option list \<Rightarrow> goerror option) \<Rightarrow> BigQueryRow option flusher" where
  "bigQueryFlush put now b =
     (if bs_buffer b = [] then (None, b)
      else
        (let rows = map convertToBigQueryRow (bs_buffer b); b1 = handOver rows b in
         case put (bs_cancelled b) rows of
           Some e \<Rightarrow> (Some (wrapError ''failed to insert rows to BigQuery'' e), b1)
         | None \<Rightarrow> (None, clearBuffer now b1)))"

definition bigQueryTick where "bigQueryTick put = batchTick (bigQueryFlush put)"
definition bigQueryEnd where "bigQueryEnd put = batchEnd (bigQueryFlush put)"

section \<open>Timestream\<close>

record TimestreamRecord =
  tsr_Dimensions :: "string gomap"
  tsr_MeasureName :: string
  tsr_MeasureValue :: string
  tsr_MeasureValueType :: string
  tsr_Time :: string
  tsr_TimeUnit :: string

text \<open>The conversion by message type is commented out: no record is returned.\<close>

definition convertToTimestreamRecords :: "TelemetryEnvelope \<Rightarrow> TimestreamRecord list" where
  "convertToTimestreamRecords msg = []"

definition NewTimestreamSink :: "(string \<Rightarrow> int option) \<Rightarrow> TimestreamConfig \<Rightarrow> goerror option \<Rightarrow> gotime \<Rightarrow>
    goerror + TimestreamRecord batchSink" where
  "NewTimestreamSink parseDuration c sessionErr now =
     (case sessionErr of
        Some e \<Rightarrow> Inl (wrapError ''failed to create AWS session'' e)
      | None \<Rightarrow> Inr (newBatchSink (batchSizeOf 100 (ts_BatchSize c))
          (flushIntervalOf parseDuration (ts_FlushInterval c)) now))"

definition timestreamFlush :: "(bool \<Rightarrow> TimestreamRecord list \<Rightarrow> goerror option) \<Rightarrow> TimestreamRecord flusher" where
  "timestreamFlush writeRecords now t =
     (if bs_buffer t = [] then (None, t)
      else
        (let records = concat (map convertToTimestreamRecords (bs_buffer t)); t1 = handOver records t in
         case writeRecords (bs_cancelled t) records of
           Some e \<Rightarrow> (Some (wrapError ''failed to write records to Timestream'' e), t1)
         | None \<Rightarrow> (None, clearBuffer now t1)))"

definition timestreamWriteMessage where "timestreamWriteMessage client = batchWrite (timestreamFlush client)"
definition timestreamTick where "timestreamTick client = batchTick (timestreamFlush client)"
definition timestreamEnd where "timestreamEnd client = batchEnd (timestreamFlush client)"

section \<open>InfluxDB\<close>

text \<open>A point of the client library: measurement, tags, fields and time.\<close>

record influxSinkPoint =
  isp_Measurement :: string
  isp_Tags :: "string gomap"
  isp_Fields :: "string gomap"
  isp_Time :: "gotime option"

text \<open>The point that the code builds is dropped; writing a point reports nothing.\<close>

definition convertToInfluxPoint :: "TelemetryEnvelope \<Rightarrow> influxSinkPoint option" where
  "convertToInfluxPoint msg = None"

definition NewInfluxDBSink :: "(string \<Rightarrow> int option) \<Rightarrow> InfluxDBConfig \<Rightarrow> gotime \<Rightarrow> influxSinkPoint option batchSink" where
  "NewInfluxDBSink parseDuration c now =
     newBatchSink (batchSizeOf 1000 (inf_BatchSize c)) (flushIntervalOf parseDuration (inf_FlushInterval c)) now"

text \<open>The credentials and the destination of the client.\<close>

definition influxClient :: "InfluxDBConfig \<Rightarrow> string \<times> string \<times> string \<times> string" where
  "influxClient c =
     (if inf_Token c \<noteq> [] then (inf_URL c, inf_Token c, inf_Organization c, inf_Bucket c)
      else (inf_URL c, inf_Username c @ '':'' @ inf_Password c, [], inf_Database c))"

definition influxFlush :: "influxSinkPoint option flusher" where
  "influxFlush now i =
     (if bs_buffer i = [] then (None, i)
      else (None, clearBuffer now (handOver (map convertToInfluxPoint (bs_buffer i)) i)))"

definition influxWriteMessage where "influxWriteMessage = batchWrite influxFlush"
definition influxTick where "influxTick = batchTick influxFlush"
definition influxEnd where "influxEnd = batchEnd influxFlush"

section \<open>Prometheus\<close>

record promSink =
  ps_job :: string
  ps_instance :: string

record promSample =
  smp_Metric :: "string gomap"
  smp_Value :: "64 word"
  smp_Timestamp :: int

text \<open>\<open>Unix\<close> of a time: whole seconds; the zero time is the first second of the year 1.\<close>

definition unixSeconds :: "gotime option \<Rightarrow> int" where
  "unixSeconds t = (case t of None \<Rightarrow> - 62135596800 | Some ns \<Rightarrow> ns div second)"

definition convertToPrometheusSample :: "promSink \<Rightarrow> TelemetryEnvelope \<Rightarrow> promSample" where
  "convertToPrometheusSample p msg =
     \<lparr>smp_Metric = [(''__name__'', ''mavlink_'' @ env_MsgName msg), (''job'', ps_job p),
        (''instance'', ps_instance p), (''source'', env_Source msg), (''type'', env_MsgName msg)],
      smp_Value = 0x3FF0000000000000, smp_Timestamp = unixSeconds (env_TimestampRelay msg) * 1000\<rparr>"

definition promSinkOf :: "PrometheusConfig \<Rightarrow> promSink" where
  "promSinkOf c = \<lparr>ps_job = orText ''aero-arc-relay'' (prom_Job c), ps_instance = orText ''default'' (prom_Instance c)\<rparr>"

definition NewPrometheusSink :: "(string \<Rightarrow> int option) \<Rightarrow> PrometheusConfig \<Rightarrow> goerror option \<Rightarrow> gotime \<Rightarrow>
    goerror + (promSink \<times> promSample batchSink)" where
  "NewPrometheusSink parseDuration c clientErr now =
     (case clientErr of
        Some e \<Rightarrow> Inl (wrapError ''failed to create Prometheus client'' e)
      | None \<Rightarrow> Inr (promSinkOf c, newBatchSink (batchSizeOf 1000 (prom_BatchSize c))
          (flushIntervalOf parseDuration (prom_FlushInterval c)) now))"

text \<open>The samples are computed and then dropped: nothing is handed to the client.\<close>

definition prometheusFlush :: "promSink \<Rightarrow> promSample flusher" where
  "prometheusFlush p now s =
     (if bs_buffer s = [] then (None, s)
      else (let samples = map (convertToPrometheusSample p) (bs_buffer s) in (None, clearBuffer now s)))"

definition prometheusWriteMessage where "prometheusWriteMessage p = batchWrite (prometheusFlush p)"
definition prometheusTick where "prometheusTick p = batchTick (prometheusFlush p)"
definition prometheusEnd where "prometheusEnd p = batchEnd (prometheusFlush p)"

section \<open>Elasticsearch\<close>

text \<open>The document that the code builds is dropped: a nil map is returned.\<close>

definition convertToElasticsearchDocument :: "TelemetryEnvelope \<Rightarrow> string gomap option" where
  "convertToElasticsearchDocument msg = None"

definition elasticIndexOf :: "ElasticsearchConfig \<Rightarrow> string" where
  "elasticIndexOf c = orText ''mavlink-telemetry'' (es_Index c)"

definition NewElasticsearchSink :: "(string \<Rightarrow> int option) \<Rightarrow> ElasticsearchConfig \<Rightarrow> goerror option \<Rightarrow> gotime \<Rightarrow>
    goerror + (string \<times> string batchSink)" where
  "NewElasticsearchSink parseDuration c clientErr now =
     (case clientErr of
        Some e \<Rightarrow> Inl (wrapError ''failed to create Elasticsearch client'' e)
      | None \<Rightarrow> Inr (elasticIndexOf c, newBatchSink (batchSizeOf 1000 (es_BatchSize c))
          (flushIntervalOf parseDuration (es_FlushInterval c)) now))"

definition marshalDocument :: "string gomap option \<Rightarrow> string" where
  "marshalDocument doc = (case doc of None \<Rightarrow> ''null'' | Some m \<Rightarrow> jsonObject m)"

definition indexAction :: "string \<Rightarrow> string" where
  "indexAction index = jsonObject [(''index'', jsonObject [(''_index'', jsonString index)])]"

definition bulkBody :: "string \<Rightarrow> string gomap option list \<Rightarrow> string" where
  "bulkBody index docs = concat (map (\<lambda>doc. indexAction index @ [CHR 0x0A] @ marshalDocument doc @ [CHR 0x0A]) docs)"

text \<open>\<open>bulkIndex\<close>: the client gives an error, or a response that is an error with a text or not.\<close>

definition bulkIndex :: "(bool \<Rightarrow> string \<Rightarrow> goerror + string option) \<Rightarrow> bool \<Rightarrow> string \<Rightarrow> goerror option" where
  "bulkIndex request cancelled body =
     (case request cancelled body of
        Inl e \<Rightarrow> Some (wrapError ''failed to perform bulk request'' e)
      | Inr (Some response) \<Rightarrow> Some (OtherError (''bulk request failed: '' @ response))
      | Inr None \<Rightarrow> None)"

definition elasticFlush :: "string \<Rightarrow> (bool \<Rightarrow> string \<Rightarrow> goerror + string option) \<Rightarrow> string flusher" where
  "elasticFlush index request now e =
     (if bs_buffer e = [] then (None, e)
      else
        (let body = bulkBody index (map convertToElasticsearchDocument (bs_buffer e)); e1 = handOver [body] e in
         case bulkIndex request (bs_cancelled e) body of
           Some err \<Rightarrow> (Some (wrapError ''failed to bulk index documents'' err), e1)
         | None \<Rightarrow> (None, clearBuffer now e1)))"

definition elasticWriteMessage where "elasticWriteMessage index request = batchWrite (elasticFlush index request)"
definition elasticTick where "elasticTick index request = batchTick (elasticFlush index request)"
definition elasticEnd where "elasticEnd index request = batchEnd (elasticFlush index request)"

section \<open>Runs\<close>







lemma clearBuffer_fields [simp]:
  "bs_buffer (clearBuffer now s) = []" "bs_batchSize (clearBuffer now s) = bs_batchSize s"
  "bs_taken (clearBuffer now s) = bs_taken s" "bs_cleared (clearBuffer now s) = bs_cleared s @ [bs_buffer s]"
  "bs_cancelled (clearBuffer now s) = bs_cancelled s"
  by (simp_all add: clearBuffer_def)

lemma snd_batchClose [simp]: "snd (batchClose fl clientClose now s) = snd (fl now s)"
  by (auto simp: batchClose_def split: prod.split option.split)




section \<open>The five sinks\<close>











section \<open>What is handed over\<close>

text \<open>The lines of a text, each ended by a line feed.\<close>

fun linesOf :: "string \<Rightarrow> string list" where
  "linesOf [] = []"
| "linesOf (c # s) = (if c = CHR 0x0A then [] # linesOf s
     else (case linesOf s of [] \<Rightarrow> [[c]] | l # ls \<Rightarrow> (c # l) # ls))"

lemma linesOf_line: "CHR 0x0A \<notin> set l \<Longrightarrow> linesOf (l @ CHR 0x0A # s) = l # linesOf s"
  by (induction l) auto

lemma nl_indexAction [simp]: "CHR 0x0A \<notin> set (indexAction index)"
  by (simp add: indexAction_def jsonObject_def)

text \<open>The request body of a flush has exactly two lines for each buffered message, whatever the
  index name: the action naming the index, and the document, which is \<open>null\<close> because the conversion
  returns nil.  The other conversions hand over nothing either: BigQuery gets nil rows, Timestream an
  empty list, InfluxDB nil points, and Prometheus is not called.\<close>

theorem flushes_hand_over_nothing:
  "linesOf (bulkBody index (map convertToElasticsearchDocument msgs)) =
     concat (replicate (length msgs) [indexAction index, ''null'']) \<and>
   set (concat (bs_handed (snd (bigQueryFlush put now ((newBatchSink n iv t)\<lparr>bs_buffer := msgs\<rparr>))))) \<subseteq> {None} \<and>
   concat (bs_handed (snd (timestreamFlush writeRecords now ((newBatchSink n iv t)\<lparr>bs_buffer := msgs\<rparr>)))) = [] \<and>
   set (concat (bs_handed (snd (influxFlush now ((newBatchSink n iv t)\<lparr>bs_buffer := msgs\<rparr>))))) \<subseteq> {None} \<and>
   bs_handed (snd (prometheusFlush p now ((newBatchSink n iv t)\<lparr>bs_buffer := msgs\<rparr>))) = []"
proof (intro conjI)
  have null: "linesOf (CHR ''n'' # CHR ''u'' # CHR ''l'' # CHR ''l'' # CHR 0x0A # s) = ''null'' # linesOf s" for s
    by simp
  show "linesOf (bulkBody index (map convertToElasticsearchDocument msgs)) =
     concat (replicate (length msgs) [indexAction index, ''null''])"
    by (induction msgs) (simp_all add: bulkBody_def marshalDocument_def convertToElasticsearchDocument_def
        linesOf_line null del: linesOf.simps(2))
qed (auto simp: bigQueryFlush_def timestreamFlush_def influxFlush_def prometheusFlush_def handOver_def
    clearBuffer_def newBatchSink_def convertToBigQueryRow_def convertToTimestreamRecords_def
    convertToInfluxPoint_def Let_def split: if_splits option.splits)

end
