(* ===== verification/AsyncSink.thy ===== *)
theory AsyncSink
  imports Router
begin

text \<open>
  The queue that the asynchronous export sinks share (\<open>internal/sinks/base.go\<close>) and the adapter that
  makes a sink a consumer of the router (\<open>internal/outputs/sink_adapter.go\<close>).  A send on the closed
  channel panics, and so does a second close: both are outcomes of the model.  Two histories are
  kept: the messages sent on the queue and the messages the worker took from it.
\<close>

section \<open>Policy\<close>

datatype BackpressurePolicy = PolicyDrop | PolicyBlock

definition normalizeBackpressurePolicy :: "string \<Rightarrow> BackpressurePolicy" where
  "normalizeBackpressurePolicy policy = (if toLower policy = ''block'' then PolicyBlock else PolicyDrop)"

definition ErrSinkQueueFull :: goerror where
  "ErrSinkQueueFull = Sentinel ''queue is full'' []"

section \<open>State\<close>

text \<open>\<open>as_senders\<close> are the calls that wait in the \<open>select\<close> of the blocking policy.\<close>

record asyncSink =
  as_capacity :: int
  as_policy :: BackpressurePolicy
  as_queue :: "TelemetryEnvelope list"
  as_senders :: "TelemetryEnvelope list"
  as_closed :: bool
  as_workerDone :: bool
  as_panicked :: bool
  as_enqueued :: "TelemetryEnvelope list"
  as_handled :: "TelemetryEnvelope list"

definition defaultQueueSize :: int where
  "defaultQueueSize = 1000"

definition NewBaseAsyncSink :: "int \<Rightarrow> string \<Rightarrow> asyncSink" where
  "NewBaseAsyncSink buffer policy =
     \<lparr>as_capacity = (if buffer \<le> 0 then defaultQueueSize else buffer),
      as_policy = normalizeBackpressurePolicy policy, as_queue = [], as_senders = [],
      as_closed = False, as_workerDone = False, as_panicked = False, as_enqueued = [], as_handled = []\<rparr>"

section \<open>Sending\<close>

datatype enqueueOutcome = Enqueued | Refused goerror | Waiting | Panicked

definition hasRoom :: "asyncSink \<Rightarrow> bool" where
  "hasRoom s \<longleftrightarrow> int (length (as_queue s)) < as_capacity s"

definition sendOnQueue :: "TelemetryEnvelope \<Rightarrow> asyncSink \<Rightarrow> asyncSink" where
  "sendOnQueue msg s = s\<lparr>as_queue := as_queue s @ [msg], as_enqueued := as_enqueued s @ [msg]\<rparr>"

text \<open>\<open>EnqueueContext\<close>: under the blocking policy the call waits in its \<open>select\<close>; under the other the
  \<open>default\<close> case refuses the message when the queue is full.\<close>

definition EnqueueContext :: "TelemetryEnvelope \<Rightarrow> asyncSink \<Rightarrow> enqueueOutcome \<times> asyncSink" where
  "EnqueueContext msg s =
     (case as_policy s of
        PolicyBlock \<Rightarrow> (Waiting, s\<lparr>as_senders := msg # as_senders s\<rparr>)
      | PolicyDrop \<Rightarrow>
          if as_closed s then (Panicked, s\<lparr>as_panicked := True\<rparr>)
          else if hasRoom s then (Enqueued, sendOnQueue msg s)
          else (Refused ErrSinkQueueFull, s))"

text \<open>The cases of the waiting \<open>select\<close>: a send on a closed queue is ready, and panics.\<close>

definition sendWaiting :: "TelemetryEnvelope \<Rightarrow> asyncSink \<Rightarrow> enqueueOutcome \<times> asyncSink" where
  "sendWaiting msg s =
     (let s1 = s\<lparr>as_senders := remove1 msg (as_senders s)\<rparr> in
      if as_closed s then (Panicked, s1\<lparr>as_panicked := True\<rparr>) else (Enqueued, sendOnQueue msg s1))"

definition cancelWaiting :: "ctxErr \<Rightarrow> TelemetryEnvelope \<Rightarrow> asyncSink \<Rightarrow> enqueueOutcome \<times> asyncSink" where
  "cancelWaiting e msg s = (Refused (CtxError e), s\<lparr>as_senders := remove1 msg (as_senders s)\<rparr>)"

section \<open>Worker and close\<close>

definition workerTakes :: "asyncSink \<Rightarrow> asyncSink" where
  "workerTakes s =
     (case as_queue s of [] \<Rightarrow> s
      | msg # rest \<Rightarrow> s\<lparr>as_queue := rest, as_handled := as_handled s @ [msg]\<rparr>)"

definition workerEnds :: "asyncSink \<Rightarrow> asyncSink" where
  "workerEnds s = s\<lparr>as_workerDone := True\<rparr>"

text \<open>\<open>Close\<close> up to its wait for the worker.\<close>

definition closeSink :: "asyncSink \<Rightarrow> asyncSink" where
  "closeSink s = (if as_closed s then s\<lparr>as_panicked := True\<rparr> else s\<lparr>as_closed := True\<rparr>)"

section \<open>The adapter\<close>

text \<open>A sink with a method of \<open>ContextSink\<close>, such as every sink that embeds the queue, is called
  through it, past its own \<open>WriteMessage\<close>.\<close>

definition sinkConsumerWrite ::
  "(TelemetryEnvelope \<Rightarrow> 'a) option \<Rightarrow> (TelemetryEnvelope \<Rightarrow> 'a) \<Rightarrow> TelemetryEnvelope \<Rightarrow> 'a" where
  "sinkConsumerWrite writeMessageContext writeMessage msg =
     (case writeMessageContext of Some f \<Rightarrow> f msg | None \<Rightarrow> writeMessage msg)"

section \<open>Runs\<close>

inductive sinkStep :: "asyncSink \<Rightarrow> asyncSink \<Rightarrow> bool" where
  enqueue: "sinkStep s (snd (EnqueueContext msg s))"
| send: "msg \<in> set (as_senders s) \<Longrightarrow> as_closed s \<or> hasRoom s \<Longrightarrow> sinkStep s (snd (sendWaiting msg s))"
| give_up: "msg \<in> set (as_senders s) \<Longrightarrow> sinkStep s (snd (cancelWaiting e msg s))"
| takes: "\<not> as_workerDone s \<Longrightarrow> sinkStep s (workerTakes s)"
| ends: "as_closed s \<Longrightarrow> as_queue s = [] \<Longrightarrow> sinkStep s (workerEnds s)"
| close: "sinkStep s (closeSink s)"

inductive sinkReach :: "asyncSink \<Rightarrow> bool" where
  created: "sinkReach (NewBaseAsyncSink buffer policy)"
| stepped: "sinkReach s \<Longrightarrow> sinkStep s s' \<Longrightarrow> sinkReach s'"

section \<open>The invariant\<close>

definition sinkOk :: "asyncSink \<Rightarrow> bool" where
  "sinkOk s \<longleftrightarrow> as_enqueued s = as_handled s @ as_queue s \<and> 0 < as_capacity s \<and>
     int (length (as_queue s)) \<le> as_capacity s \<and> (as_panicked s \<longrightarrow> as_closed s) \<and>
     (as_workerDone s \<longrightarrow> as_closed s \<and> as_queue s = []) \<and> (as_policy s = PolicyDrop \<longrightarrow> as_senders s = [])"

lemma sinkOk_step: "sinkStep s s' \<Longrightarrow> sinkOk s \<Longrightarrow> sinkOk s'"
proof (induction rule: sinkStep.induct)
  case (enqueue s msg)
  then show ?case
    by (cases "as_policy s") (auto simp: sinkOk_def EnqueueContext_def sendOnQueue_def hasRoom_def)
next
  case (send msg s)
  then show ?case by (auto simp: sinkOk_def sendWaiting_def sendOnQueue_def hasRoom_def Let_def)
next
  case (takes s)
  then show ?case by (cases "as_queue s") (auto simp: sinkOk_def workerTakes_def)
qed (auto simp: sinkOk_def cancelWaiting_def workerEnds_def closeSink_def)

lemma sinkOk_reach: "sinkReach s \<Longrightarrow> sinkOk s"
proof (induction rule: sinkReach.induct)
  case (created buffer policy)
  then show ?case by (simp add: sinkOk_def NewBaseAsyncSink_def defaultQueueSize_def)
next
  case (stepped s s')
  then show ?case using sinkOk_step by blast
qed

section \<open>Properties\<close>

text \<open>C28: In every interleaving of callers, worker and close, an export sink's worker gets exactly the
  messages that were sent on its queue, each once and in the order of the sends; the queue keeps its
  capacity; a worker that has ended has handled every one of them; and no call panics before the sink
  is closed.\<close>

theorem sink_queue_in_order:
  assumes "sinkReach s"
  shows "as_enqueued s = as_handled s @ as_queue s \<and> int (length (as_queue s)) \<le> as_capacity s \<and>
    (as_workerDone s \<longrightarrow> as_handled s = as_enqueued s) \<and> (\<not> as_closed s \<longrightarrow> \<not> as_panicked s)"
  using sinkOk_reach [OF assms] by (auto simp: sinkOk_def)

lemma sink_queue_in_order_witness:
  "as_handled (workerTakes (snd (EnqueueContext exampleEnvelope (NewBaseAsyncSink 0 [])))) = [exampleEnvelope]"
proof -
  let ?s = "workerTakes (snd (EnqueueContext exampleEnvelope (NewBaseAsyncSink 0 [])))"
  have "sinkReach ?s"
    by (rule sinkReach.stepped [OF sinkReach.stepped [OF sinkReach.created sinkStep.enqueue] sinkStep.takes])
      (simp add: EnqueueContext_def NewBaseAsyncSink_def normalizeBackpressurePolicy_def toLower_def
        hasRoom_def defaultQueueSize_def sendOnQueue_def)
  moreover have "as_queue ?s = []" "as_enqueued ?s = [exampleEnvelope]"
    by (simp_all add: EnqueueContext_def NewBaseAsyncSink_def normalizeBackpressurePolicy_def toLower_def
        hasRoom_def defaultQueueSize_def sendOnQueue_def workerTakes_def)
  ultimately show ?thesis using sink_queue_in_order [of ?s] by simp
qed

text \<open>A call that meets the closed queue panics: under the dropping policy at once, under the blocking
  policy even when it began to wait before the close.  Nothing in the sink keeps callers out while it
  closes.\<close>

lemma closed_queue_panics:
  "as_policy s = PolicyDrop \<Longrightarrow> as_closed s \<Longrightarrow> fst (EnqueueContext msg s) = Panicked"
  "fst (sendWaiting msg (closeSink (snd (EnqueueContext msg (NewBaseAsyncSink 1 ''block''))))) = Panicked"
  by (simp_all add: EnqueueContext_def sendWaiting_def closeSink_def NewBaseAsyncSink_def
      normalizeBackpressurePolicy_def toLower_def toLowerChar_def isUpperASCII_def)

end
