(* ===== verification/Csv.thy ===== *)
theory Csv
  imports Prelude
begin

text \<open>
  The part of \<open>encoding/csv\<close> that the file sink uses: one record, with the fields quoted where the
  package quotes them, and a reader of such records after RFC 4180 as its reference.
\<close>

definition csvSpecial :: "char \<Rightarrow> bool" where
  "csvSpecial c \<longleftrightarrow> c = CHR 0x0A \<or> c = CHR 0x0D \<or> c = CHR 0x22 \<or> c = CHR '',''"

definition startsWithSpace :: "string \<Rightarrow> bool" where
  "startsWithSpace s \<longleftrightarrow> list_ex (hasPrefix s) goSpaces"

definition fieldNeedsQuotes :: "string \<Rightarrow> bool" where
  "fieldNeedsQuotes f \<longleftrightarrow> f \<noteq> [] \<and> (f = [CHR 0x5C, CHR ''.''] \<or> list_ex csvSpecial f \<or> startsWithSpace f)"

fun doubleQuotes :: "string \<Rightarrow> string" where
  "doubleQuotes [] = []"
| "doubleQuotes (c # s) = (if c = CHR 0x22 then [c, c] else [c]) @ doubleQuotes s"

definition csvField :: "string \<Rightarrow> string" where
  "csvField f = (if fieldNeedsQuotes f then [CHR 0x22] @ doubleQuotes f @ [CHR 0x22] else f)"

fun csvLine :: "string list \<Rightarrow> string" where
  "csvLine [] = [CHR 0x0A]"
| "csvLine [f] = csvField f @ [CHR 0x0A]"
| "csvLine (f # fs) = csvField f @ '','' @ csvLine fs"

section \<open>Reading\<close>

text \<open>The content of a quoted field up to its closing quote, and what follows it.\<close>

fun readQuoted :: "string \<Rightarrow> (string \<times> string) option" where
  "readQuoted [] = None"
| "readQuoted (c # s) =
     (if c \<noteq> CHR 0x22 then map_option (\<lambda>(f, r). (c # f, r)) (readQuoted s)
      else (case s of
          c' # s' \<Rightarrow> if c' = CHR 0x22 then map_option (\<lambda>(f, r). (c # f, r)) (readQuoted s') else Some ([], s)
        | [] \<Rightarrow> Some ([], [])))"

definition readField :: "string \<Rightarrow> (string \<times> string) option" where
  "readField s = (case s of
     c # s' \<Rightarrow> if c = CHR 0x22 then readQuoted s'
       else Some (takeWhile (\<lambda>c. \<not> csvSpecial c) s, dropWhile (\<lambda>c. \<not> csvSpecial c) s)
   | [] \<Rightarrow> None)"

text \<open>A record of \<open>n\<close> fields, and what follows it.\<close>

fun readRecord :: "nat \<Rightarrow> string \<Rightarrow> (string list \<times> string) option" where
  "readRecord 0 s = None"
| "readRecord (Suc n) s =
     (case readField s of
        Some (f, c # r) \<Rightarrow>
          if c = CHR 0x0A then (if n = 0 then Some ([f], r) else None)
          else if c = CHR '','' then map_option (\<lambda>(fs, r'). (f # fs, r')) (readRecord n r)
          else None
      | _ \<Rightarrow> None)"

lemma readQuoted_double:
  "rest = [] \<or> hd rest \<noteq> CHR 0x22 \<Longrightarrow> readQuoted (doubleQuotes f @ CHR 0x22 # rest) = Some (f, rest)"
  by (induction f) (auto split: list.split)

lemma csvSpecial_quote [simp]: "csvSpecial (CHR 0x22)" "csvSpecial (CHR 0x0A)" "csvSpecial (CHR '','')"
  by (simp_all add: csvSpecial_def)

lemma readField_csvField:
  assumes "csvSpecial c" "c \<noteq> CHR 0x22"
  shows "readField (csvField f @ c # rest) = Some (f, c # rest)"
proof (cases "fieldNeedsQuotes f")
  case True
  then show ?thesis using assms by (simp add: csvField_def readField_def readQuoted_double)
next
  case False
  then have plain: "f = [] \<or> \<not> list_ex csvSpecial f" by (auto simp: fieldNeedsQuotes_def)
  then have all: "\<forall>x \<in> set f. \<not> csvSpecial x" by (auto simp: list_ex_iff)
  have "takeWhile (\<lambda>c. \<not> csvSpecial c) (f @ c # rest) = f" "dropWhile (\<lambda>c. \<not> csvSpecial c) (f @ c # rest) = c # rest"
    using all assms(1) by (simp_all add: takeWhile_append2 dropWhile_append2)
  moreover have "f @ c # rest = x # s' \<Longrightarrow> x \<noteq> CHR 0x22" for x s'
    using all assms by (cases f) auto
  ultimately show ?thesis using False
    by (auto simp: csvField_def readField_def split: list.split)
qed

lemma readRecord_csvLine:
  "fs \<noteq> [] \<Longrightarrow> readRecord (length fs) (csvLine fs @ rest) = Some (fs, rest)"
proof (induction fs rule: csvLine.induct)
  case (2 f)
  then show ?case using readField_csvField [of "CHR 0x0A" f rest] by simp
next
  case (3 f f' fs)
  then show ?case using readField_csvField [of "CHR '',''" f "csvLine (f' # fs) @ rest"] by simp
qed simp

end
