(* ===== verification/FileSink.thy ===== *)
theory FileSink
  imports Lifecycle AsyncSink Json Csv
begin

text \<open>
  The file sink (\<open>internal/sinks/file.go\<close>): rotation, the three formats, and the errors of the
  operating system, which answers through parameters.  The disk maps file names to contents; a history
  keeps what was appended to which file.  \<open>json.Marshal\<close> of an envelope and the text of a binary64
  value are parameters.
\<close>

section \<open>Texts\<close>

text \<open>\<open>time.RFC3339Nano\<close> of a UTC time, by the civil-from-days computation.\<close>

definition padNat :: "nat \<Rightarrow> nat \<Rightarrow> string" where
  "padNat w n = replicate (w - length (showNat n)) CHR ''0'' @ showNat n"

definition civilDate :: "int \<Rightarrow> int \<times> int \<times> int" where
  "civilDate days =
     (let z = days + 719468; era = z div 146097; doe = z mod 146097;
          yoe = (doe - doe div 1460 + doe div 36524 - doe div 146096) div 365;
          doy = doe - (365 * yoe + yoe div 4 - yoe div 100);
          mp = (5 * doy + 2) div 153;
          m = (if mp < 10 then mp + 3 else mp - 9)
      in (yoe + era * 400 + (if m \<le> 2 then 1 else 0), m, doy - (153 * mp + 2) div 5 + 1))"

definition fractionText :: "nat \<Rightarrow> string" where
  "fractionText ns = (let digits = rev (dropWhile (\<lambda>c. c = CHR ''0'') (rev (padNat 9 ns))) in
     if digits = [] then [] else ''.'' @ digits)"

definition formatRFC3339Nano :: "gotime option \<Rightarrow> string" where
  "formatRFC3339Nano t =
     (case t of
        None \<Rightarrow> ''0001-01-01T00:00:00Z''
      | Some ns \<Rightarrow>
        (let secs = ns div second; (y, m, d) = civilDate (secs div 86400); s = nat (secs mod 86400) in
         padNat 4 (nat y) @ ''-'' @ padNat 2 (nat m) @ ''-'' @ padNat 2 (nat d) @ ''T'' @
         padNat 2 (s div 3600) @ '':'' @ padNat 2 (s div 60 mod 60) @ '':'' @ padNat 2 (s mod 60) @
         fractionText (nat (ns mod second)) @ ''Z''))"

definition generateFilename :: "string \<Rightarrow> string \<Rightarrow> string \<Rightarrow> gotime \<Rightarrow> string" where
  "generateFilename basePath prefix format now =
     (let ext = (if format = ''binary'' then ''bin'' else format) in
      basePath @ ''/'' @ prefix @ ''_'' @ showNat (nat (now div second)) @ ''.'' @ ext)"

section \<open>State\<close>

text \<open>\<open>fs_open\<close> is whether the file handle is open; \<open>fs_csvErr\<close> the error that the CSV writer's buffer
  keeps once a write has failed.\<close>

record fileSink =
  fs_config :: FileConfig
  fs_disk :: "string \<Rightarrow> string option"
  fs_name :: string
  fs_open :: bool
  fs_csvErr :: "goerror option"
  fs_lastRotation :: gotime
  fs_log :: "(string \<times> string) list"

text \<open>The answers of the operating system to one message: opening and closing a file, and a write,
  which may stop after some bytes.\<close>

datatype writeOutcome = WroteAll | WroteSome nat goerror

record fileOS =
  os_mkdir :: "goerror option"
  os_openFile :: "goerror option"
  os_closeFile :: "goerror option"
  os_write :: writeOutcome

definition ErrFileClosed :: goerror where
  "ErrFileClosed = OtherError ''file already closed''"

definition touch :: "string \<Rightarrow> (string \<Rightarrow> string option) \<Rightarrow> string \<Rightarrow> string option" where
  "touch name disk = (case disk name of None \<Rightarrow> disk(name \<mapsto> []) | Some _ \<Rightarrow> disk)"

definition fileDefaults :: "FileConfig \<Rightarrow> FileConfig" where
  "fileDefaults c = c\<lparr>file_RotationInterval := (if file_RotationInterval c = 0 then 60 * second else file_RotationInterval c),
     file_QueueSize := (if file_QueueSize c = 0 then 1000 else file_QueueSize c),
     file_BackpressurePolicy := orText ''drop'' (file_BackpressurePolicy c)\<rparr>"

definition NewFileSink :: "fileOS \<Rightarrow> FileConfig \<Rightarrow> (string \<Rightarrow> string option) \<Rightarrow> gotime \<Rightarrow>
    goerror + (fileSink \<times> asyncSink)" where
  "NewFileSink os c disk now =
     (case os_mkdir os of
        Some e \<Rightarrow> Inl (wrapError ''failed to create directory'' e)
      | None \<Rightarrow>
        (let name = generateFilename (file_Path c) (file_Prefix c) (file_Format c) now in
         case os_openFile os of
           Some e \<Rightarrow> Inl (wrapError ''failed to open file'' e)
         | None \<Rightarrow>
           (let c1 = fileDefaults c in
            Inr (\<lparr>fs_config = c1, fs_disk = touch name disk, fs_name = name, fs_open = True,
                  fs_csvErr = None, fs_lastRotation = now, fs_log = []\<rparr>,
                 NewBaseAsyncSink (file_QueueSize c1) (file_BackpressurePolicy c1)))))"

section \<open>Operations\<close>

definition isCsv :: "fileSink \<Rightarrow> bool" where
  "isCsv f \<longleftrightarrow> file_Format (fs_config f) = ''csv''"

definition flushLocked :: "fileSink \<Rightarrow> goerror option" where
  "flushLocked f = (if isCsv f then fs_csvErr f else None)"

definition closeFile :: "fileOS \<Rightarrow> fileSink \<Rightarrow> goerror option \<times> fileSink" where
  "closeFile os f = (if \<not> fs_open f then (Some ErrFileClosed, f) else (os_closeFile os, f\<lparr>fs_open := False\<rparr>))"

definition rotateFileLocked :: "fileOS \<Rightarrow> gotime \<Rightarrow> fileSink \<Rightarrow> goerror option \<times> fileSink" where
  "rotateFileLocked os now f =
     (case flushLocked f of
        Some e \<Rightarrow> (Some e, f)
      | None \<Rightarrow>
        (case closeFile os f of
           (Some e, f1) \<Rightarrow> (Some e, f1)
         | (None, f1) \<Rightarrow>
           (let c = fs_config f; name = generateFilename (file_Path c) (file_Prefix c) (file_Format c) now in
            case os_openFile os of
              Some e \<Rightarrow> (Some e, f1)
            | None \<Rightarrow> (None, f1\<lparr>fs_disk := touch name (fs_disk f), fs_name := name, fs_open := True,
                fs_csvErr := None, fs_lastRotation := now\<rparr>))))"

definition needsRotation :: "gotime \<Rightarrow> fileSink \<Rightarrow> bool" where
  "needsRotation now f \<longleftrightarrow> file_RotationInterval (fs_config f) \<le> now - fs_lastRotation f"

text \<open>The text of a file; a file that does not exist has none.\<close>

definition fileText :: "fileSink \<Rightarrow> string \<Rightarrow> string" where
  "fileText f name = (case fs_disk f name of None \<Rightarrow> [] | Some t \<Rightarrow> t)"

definition appendBytes :: "string \<Rightarrow> fileSink \<Rightarrow> fileSink" where
  "appendBytes bytes f = f\<lparr>fs_disk := (fs_disk f)(fs_name f \<mapsto> fileText f (fs_name f) @ bytes),
     fs_log := fs_log f @ [(fs_name f, bytes)]\<rparr>"

definition writeFile :: "fileOS \<Rightarrow> string \<Rightarrow> fileSink \<Rightarrow> goerror option \<times> fileSink" where
  "writeFile os bytes f =
     (if \<not> fs_open f then (Some ErrFileClosed, f)
      else case os_write os of
          WroteAll \<Rightarrow> (None, appendBytes bytes f)
        | WroteSome n e \<Rightarrow> (Some e, appendBytes (take n bytes) f))"

record encoders =
  enc_json :: "TelemetryEnvelope \<Rightarrow> goerror + string"
  enc_float :: "64 word \<Rightarrow> string"

definition writeJSON :: "encoders \<Rightarrow> fileOS \<Rightarrow> TelemetryEnvelope \<Rightarrow> fileSink \<Rightarrow> goerror option \<times> fileSink" where
  "writeJSON enc os msg f =
     (case enc_json enc msg of Inl e \<Rightarrow> (Some e, f) | Inr jsonData \<Rightarrow> writeFile os (jsonData @ [CHR 0x0A]) f)"

text \<open>\<open>ToBinary\<close> is \<open>ToJSON\<close>.\<close>

definition writeBinary :: "encoders \<Rightarrow> fileOS \<Rightarrow> TelemetryEnvelope \<Rightarrow> fileSink \<Rightarrow> goerror option \<times> fileSink" where
  "writeBinary enc os msg f =
     (case enc_json enc msg of Inl e \<Rightarrow> (Some e, f) | Inr binaryData \<Rightarrow> writeFile os binaryData f)"

text \<open>The fields are texts, so their JSON object never fails.\<close>

definition csvRow :: "encoders \<Rightarrow> TelemetryEnvelope \<Rightarrow> string list" where
  "csvRow enc msg =
     [formatRFC3339Nano (env_TimestampRelay msg), enc_float enc (env_TimestampDevice msg),
      env_AgentID msg, env_Source msg, env_MsgName msg, showNat (unat (env_MsgID msg)),
      showNat (unat (env_SystemID msg)), showNat (unat (env_ComponentID msg)),
      showNat (unat (env_Sequence msg)),
      jsonObject (map (\<lambda>(k, v). (k, jsonString v)) (env_Fields msg)), env_Raw msg]"

definition writeCSV :: "encoders \<Rightarrow> fileOS \<Rightarrow> TelemetryEnvelope \<Rightarrow> fileSink \<Rightarrow> goerror option \<times> fileSink" where
  "writeCSV enc os msg f =
     (case fs_csvErr f of
        Some e \<Rightarrow> (Some e, f)
      | None \<Rightarrow> (case writeFile os (csvLine (csvRow enc msg)) f of (err, f1) \<Rightarrow> (err, f1\<lparr>fs_csvErr := err\<rparr>)))"

text \<open>\<open>handleMessage\<close>: \<open>rotOS\<close> answers during the rotation, \<open>os\<close> during the write.\<close>

definition writeFormat :: "encoders \<Rightarrow> fileOS \<Rightarrow> TelemetryEnvelope \<Rightarrow> fileSink \<Rightarrow> goerror option \<times> fileSink" where
  "writeFormat enc os msg f =
     (let format = file_Format (fs_config f) in
      if format = ''json'' then writeJSON enc os msg f
      else if format = ''csv'' then writeCSV enc os msg f
      else if format = ''binary'' then writeBinary enc os msg f
      else (Some (OtherError (''unsupported format: '' @ format)), f))"

definition handleMessage :: "encoders \<Rightarrow> fileOS \<Rightarrow> gotime \<Rightarrow> TelemetryEnvelope \<Rightarrow> fileSink \<Rightarrow> goerror option \<times> fileSink" where
  "handleMessage enc os now msg f =
     (if needsRotation now f
      then (case rotateFileLocked os now f of
          (Some e, f1) \<Rightarrow> (Some (wrapError ''failed to rotate file'' e), f1)
        | (None, f1) \<Rightarrow> writeFormat enc os msg f1)
      else writeFormat enc os msg f)"

text \<open>\<open>Close\<close> after the queue was closed and drained: an error of the flush leaves the file open.\<close>

definition closeFileSink :: "fileOS \<Rightarrow> fileSink \<Rightarrow> goerror option \<times> fileSink" where
  "closeFileSink os f = (case flushLocked f of Some e \<Rightarrow> (Some e, f) | None \<Rightarrow> closeFile os f)"

fun handleAll :: "encoders \<Rightarrow> (fileOS \<times> gotime \<times> TelemetryEnvelope) list \<Rightarrow> fileSink \<Rightarrow> goerror option list \<times> fileSink" where
  "handleAll enc [] f = ([], f)"
| "handleAll enc ((os, now, msg) # rest) f =
     (case handleMessage enc os now msg f of (err, f1) \<Rightarrow>
       (case handleAll enc rest f1 of (errs, f2) \<Rightarrow> (err # errs, f2)))"

section \<open>Facts\<close>

definition loggedTo :: "string \<Rightarrow> (string \<times> string) list \<Rightarrow> string" where
  "loggedTo name log = concat (map snd (filter (\<lambda>(m, _). m = name) log))"

text \<open>Files only grow, by what the history says.\<close>

definition grown :: "fileSink \<Rightarrow> fileSink \<Rightarrow> bool" where
  "grown f f' \<longleftrightarrow> fs_config f' = fs_config f \<and>
     (\<exists>log. fs_log f' = fs_log f @ log \<and> (\<forall>n. fileText f' n = fileText f n @ loggedTo n log))"

lemma grown_refl: "grown f f"
  by (simp add: grown_def loggedTo_def)

lemma grown_trans: "grown f g \<Longrightarrow> grown g h \<Longrightarrow> grown f h"
  unfolding grown_def
proof (elim conjE exE)
  fix l1 l2
  assume "fs_config g = fs_config f" "fs_log g = fs_log f @ l1" "\<forall>n. fileText g n = fileText f n @ loggedTo n l1"
    "fs_config h = fs_config g" "fs_log h = fs_log g @ l2" "\<forall>n. fileText h n = fileText g n @ loggedTo n l2"
  then show "fs_config h = fs_config f \<and>
    (\<exists>log. fs_log h = fs_log f @ log \<and> (\<forall>n. fileText h n = fileText f n @ loggedTo n log))"
    by (intro conjI exI [of _ "l1 @ l2"]) (simp_all add: loggedTo_def)
qed

lemma fileText_touch: "fs_disk g = touch name (fs_disk f) \<Longrightarrow> fileText g n = fileText f n"
  by (simp add: fileText_def touch_def split: option.split)

lemma grown_same: "fs_config g = fs_config f \<Longrightarrow> fs_log g = fs_log f \<Longrightarrow> (\<And>n. fileText g n = fileText f n) \<Longrightarrow> grown f g"
  by (auto simp: grown_def loggedTo_def)

lemma grown_append: "grown f (appendBytes bytes f)"
  by (auto simp: grown_def appendBytes_def fileText_def loggedTo_def)

lemma grown_closeFile: "grown f (snd (closeFile os f))"
  by (rule grown_same) (simp_all add: closeFile_def fileText_def)

lemma grown_rotate: "grown f (snd (rotateFileLocked os now f))"
proof (rule grown_same)
  show "fileText (snd (rotateFileLocked os now f)) n = fileText f n" for n
    by (auto simp: rotateFileLocked_def closeFile_def Let_def fileText_touch fileText_def
        split: option.split prod.split) (auto simp: touch_def split: option.splits if_splits)
qed (simp_all add: rotateFileLocked_def closeFile_def Let_def split: option.split prod.split)

lemma grown_writeFile: "grown f (snd (writeFile os bytes f))"
  by (simp add: writeFile_def grown_refl grown_append split: writeOutcome.split)

lemma grown_csvErr: "grown f g \<Longrightarrow> grown f (g\<lparr>fs_csvErr := e\<rparr>)"
  by (simp add: grown_def fileText_def)

lemma grown_writeFormat: "grown f (snd (writeFormat enc os msg f))"
  using grown_writeFile [of f os] grown_csvErr
  by (simp add: writeFormat_def writeJSON_def writeBinary_def writeCSV_def Let_def grown_refl case_prod_beta
      split: sum.split option.split)

lemma grown_handleMessage: "grown f (snd (handleMessage enc os now msg f))"
proof (cases "needsRotation now f \<and> fst (rotateFileLocked os now f) = None")
  case True
  then have "handleMessage enc os now msg f = writeFormat enc os msg (snd (rotateFileLocked os now f))"
    by (simp add: handleMessage_def case_prod_beta)
  then show ?thesis using grown_trans [OF grown_rotate grown_writeFormat] by simp
next
  case False
  then show ?thesis using grown_rotate [of f os now] grown_writeFormat [of f enc os msg]
    by (auto simp: handleMessage_def case_prod_beta split: option.split)
qed

lemma grown_handleAll: "grown f (snd (handleAll enc steps f))"
proof (induction steps arbitrary: f)
  case (Cons step steps)
  obtain os now msg where step: "step = (os, now, msg)" by (cases step)
  have "grown f (snd (handleAll enc steps (snd (handleMessage enc os now msg f))))"
    by (rule grown_trans [OF grown_handleMessage Cons.IH])
  then show ?case by (simp add: step case_prod_beta)
qed (simp add: grown_refl)

text \<open>The record of a message in the sink's format.\<close>

definition recordText :: "encoders \<Rightarrow> string \<Rightarrow> TelemetryEnvelope \<Rightarrow> string" where
  "recordText enc format msg =
     (if format = ''csv'' then csvLine (csvRow enc msg)
      else (case enc_json enc msg of Inl _ \<Rightarrow> [] | Inr t \<Rightarrow> if format = ''json'' then t @ [CHR 0x0A] else t))"

definition healthy :: "fileSink \<Rightarrow> bool" where
  "healthy f \<longleftrightarrow> fs_open f \<and> fs_csvErr f = None \<and> file_Format (fs_config f) \<in> {''json'', ''csv'', ''binary''}"

definition workingOS :: fileOS where
  "workingOS = \<lparr>os_mkdir = None, os_openFile = None, os_closeFile = None, os_write = WroteAll\<rparr>"

lemma healthy_rotate:
  assumes "healthy f"
  shows "fst (rotateFileLocked workingOS now f) = None" "healthy (snd (rotateFileLocked workingOS now f))"
    "fs_log (snd (rotateFileLocked workingOS now f)) = fs_log f"
    "fs_config (snd (rotateFileLocked workingOS now f)) = fs_config f"
  using assms by (simp_all add: rotateFileLocked_def closeFile_def flushLocked_def healthy_def workingOS_def Let_def)

lemma healthy_write:
  assumes "healthy f" "\<exists>t. enc_json enc msg = Inr t"
  shows "fst (writeFormat enc workingOS msg f) = None \<and> healthy (snd (writeFormat enc workingOS msg f)) \<and>
    fs_log (snd (writeFormat enc workingOS msg f)) =
      fs_log f @ [(fs_name f, recordText enc (file_Format (fs_config f)) msg)] \<and>
    fs_config (snd (writeFormat enc workingOS msg f)) = fs_config f"
  using assms by (auto simp: writeFormat_def writeJSON_def writeBinary_def writeCSV_def writeFile_def workingOS_def
      healthy_def recordText_def appendBytes_def Let_def)

lemma healthy_handle:
  assumes "healthy f" "\<exists>t. enc_json enc msg = Inr t"
  shows "\<exists>name f'. handleMessage enc workingOS now msg f = (None, f') \<and> healthy f' \<and>
    fs_config f' = fs_config f \<and>
    fs_log f' = fs_log f @ [(name, recordText enc (file_Format (fs_config f)) msg)]"
proof (cases "needsRotation now f")
  case True
  let ?g = "snd (rotateFileLocked workingOS now f)"
  have "handleMessage enc workingOS now msg f = writeFormat enc workingOS msg ?g"
    using True healthy_rotate(1) [OF assms(1)] by (simp add: handleMessage_def case_prod_beta)
  then show ?thesis
    using healthy_write [OF healthy_rotate(2) [OF assms(1), of now] assms(2)] healthy_rotate(3,4) [OF assms(1), of now]
    by (intro exI [of _ "fs_name ?g"] exI [of _ "snd (writeFormat enc workingOS msg ?g)"]) (simp add: prod_eq_iff)
next
  case False
  then show ?thesis using healthy_write [OF assms]
    by (intro exI [of _ "fs_name f"] exI [of _ "snd (writeFormat enc workingOS msg f)"])
      (simp add: handleMessage_def prod_eq_iff)
qed

lemma healthy_all:
  assumes "healthy f" "\<forall>msg \<in> snd ` set calls. \<exists>t. enc_json enc msg = Inr t"
  shows "\<exists>names f'. handleAll enc (map (\<lambda>(now, msg). (workingOS, now, msg)) calls) f =
      (replicate (length calls) None, f') \<and> length names = length calls \<and>
    fs_log f' = fs_log f @ zip names (map (\<lambda>(now, msg). recordText enc (file_Format (fs_config f)) msg) calls)"
  using assms
proof (induction calls arbitrary: f)
  case (Cons call calls)
  obtain now msg where call: "call = (now, msg)" by (cases call)
  obtain name g where g: "handleMessage enc workingOS now msg f = (None, g)" "healthy g" "fs_config g = fs_config f"
    "fs_log g = fs_log f @ [(name, recordText enc (file_Format (fs_config f)) msg)]"
    using healthy_handle [of f enc msg now] Cons.prems by (auto simp: call)
  obtain names f' where "handleAll enc (map (\<lambda>(now, msg). (workingOS, now, msg)) calls) g = (replicate (length calls) None, f')"
    "length names = length calls"
    "fs_log f' = fs_log g @ zip names (map (\<lambda>(now, msg). recordText enc (file_Format (fs_config g)) msg) calls)"
    using Cons.IH [OF g(2)] Cons.prems by auto
  then show ?case using g by (intro exI [of _ "name # names"] exI [of _ f']) (simp add: call)
qed simp

section \<open>Properties\<close>

text \<open>C30: While the operating system answers without errors, every message given to a file sink with a
  known format is written exactly once, as its record, in the order of the messages; the files, rotated
  or not, hold what they held before followed by the records written to them; and a CSV record reads
  back as the message's row, whatever commas, quotes and line breaks its fields contain.\<close>

theorem file_sink_writes_all:
  assumes "healthy f" "\<forall>msg \<in> snd ` set calls. \<exists>t. enc_json enc msg = Inr t"
  shows "\<exists>names f'. handleAll enc (map (\<lambda>(now, msg). (workingOS, now, msg)) calls) f =
      (replicate (length calls) None, f') \<and> length names = length calls \<and>
    (let log = zip names (map (\<lambda>(now, msg). recordText enc (file_Format (fs_config f)) msg) calls) in
      fs_log f' = fs_log f @ log \<and> (\<forall>n. fileText f' n = fileText f n @ loggedTo n log)) \<and>
    (\<forall>msg rest. readRecord 11 (recordText enc ''csv'' msg @ rest) = Some (csvRow enc msg, rest))"
proof -
  obtain names f' where run: "handleAll enc (map (\<lambda>(now, msg). (workingOS, now, msg)) calls) f =
      (replicate (length calls) None, f')" "length names = length calls"
    "fs_log f' = fs_log f @ zip names (map (\<lambda>(now, msg). recordText enc (file_Format (fs_config f)) msg) calls)"
    using healthy_all [OF assms] by blast
  have "grown f f'" using grown_handleAll [of f enc "map (\<lambda>(now, msg). (workingOS, now, msg)) calls"] run(1) by simp
  then have grows: "fileText f' n = fileText f n @
      loggedTo n (zip names (map (\<lambda>(now, msg). recordText enc (file_Format (fs_config f)) msg) calls))" for n
    using run(3) by (auto simp: grown_def)
  have csv: "readRecord 11 (recordText enc ''csv'' msg @ rest) = Some (csvRow enc msg, rest)" for msg rest
  proof -
    have "length (csvRow enc msg) = 11" "csvRow enc msg \<noteq> []" by (simp_all add: csvRow_def)
    then show ?thesis using readRecord_csvLine [of "csvRow enc msg" rest] by (simp add: recordText_def)
  qed
  show ?thesis using run grows csv by (intro exI [of _ names] exI [of _ f']) (simp add: Let_def)
qed

definition exampleFile :: fileSink where
  "exampleFile = \<lparr>fs_config = \<lparr>file_Path = ''/tmp'', file_Prefix = ''t'', file_Format = ''csv'',
     file_RotationInterval = 60 * second, file_QueueSize = 10, file_BackpressurePolicy = ''drop'',
     file_Filter = \<lparr>IncludeMessages = [''*''], ExcludeMessages = []\<rparr>\<rparr>,
     fs_disk = [''/tmp/t_0.csv'' \<mapsto> []], fs_name = ''/tmp/t_0.csv'', fs_open = True, fs_csvErr = None,
     fs_lastRotation = 0, fs_log = []\<rparr>"

definition exampleEncoders :: encoders where
  "exampleEncoders = \<lparr>enc_json = (\<lambda>msg. Inr ''{}''), enc_float = (\<lambda>w. ''0'')\<rparr>"

lemma file_sink_writes_all_witness:
  "fst (handleAll exampleEncoders [(workingOS, 5, exampleEnvelope), (workingOS, 70 * second, exampleEnvelope)]
     exampleFile) = [None, None]"
proof -
  have "healthy exampleFile" by (simp add: healthy_def exampleFile_def)
  moreover have "\<forall>msg \<in> snd ` set [(5, exampleEnvelope), (70 * second, exampleEnvelope)]. \<exists>t. enc_json exampleEncoders msg = Inr t"
    by (simp add: exampleEncoders_def)
  ultimately show ?thesis
    using file_sink_writes_all [of exampleFile "[(5, exampleEnvelope), (70 * second, exampleEnvelope)]" exampleEncoders]
    by (auto simp: numeral_2_eq_2)
qed

text \<open>What a sink cannot recover from: a file handle left closed by a rotation that could not open the
  next file, and the sticky error of the CSV writer, which also fails every later rotation.\<close>

definition broken :: "fileSink \<Rightarrow> bool" where
  "broken f \<longleftrightarrow> \<not> fs_open f \<or> (isCsv f \<and> fs_csvErr f \<noteq> None)"

lemma broken_handle:
  assumes "broken f"
  shows "fst (handleMessage enc os now msg f) \<noteq> None \<and> broken (snd (handleMessage enc os now msg f)) \<and>
    fs_log (snd (handleMessage enc os now msg f)) = fs_log f"
proof (cases "needsRotation now f")
  case True
  have "fst (rotateFileLocked os now f) \<noteq> None \<and> snd (rotateFileLocked os now f) = f"
    if "fs_open f \<Longrightarrow> isCsv f \<and> fs_csvErr f \<noteq> None"
    using that by (auto simp: rotateFileLocked_def flushLocked_def closeFile_def split: option.split)
  then show ?thesis using True assms by (auto simp: handleMessage_def broken_def case_prod_beta split: option.split)
next
  case False
  then show ?thesis using assms
    by (auto simp: handleMessage_def writeFormat_def writeJSON_def writeBinary_def writeCSV_def writeFile_def
        broken_def isCsv_def Let_def split: sum.split option.split)
qed

text \<open>C31: A file sink whose rotation failed after closing the old file, or whose CSV writer failed one
  write, never writes again: every later message fails, whatever the operating system answers then,
  and nothing more reaches any file.\<close>

theorem broken_file_sink_stays_broken:
  assumes "(\<exists>e os. healthy f0 \<and> rotateFileLocked os now f0 = (Some e, f)) \<or>
    (\<exists>e os msg. healthy f0 \<and> isCsv f0 \<and> writeFormat enc0 os msg f0 = (Some e, f))"
  shows "set (fst (handleAll enc steps f)) \<subseteq> range Some \<and>
    (\<forall>n. fileText (snd (handleAll enc steps f)) n = fileText f n)"
proof -
  have start: "broken f"
    using assms by (auto simp: rotateFileLocked_def flushLocked_def closeFile_def broken_def healthy_def isCsv_def
        writeFormat_def writeCSV_def appendBytes_def writeFile_def Let_def split: option.splits if_splits prod.splits
        writeOutcome.splits)
  have "set (fst (handleAll enc steps g)) \<subseteq> range Some \<and> fs_log (snd (handleAll enc steps g)) = fs_log g"
    if "broken g" for g
    using that
  proof (induction steps arbitrary: g)
    case (Cons step steps)
    obtain os now msg where step: "step = (os, now, msg)" by (cases step)
    from broken_handle [OF Cons.prems, of enc os now msg] Cons.IH [of "snd (handleMessage enc os now msg g)"]
    show ?case by (auto simp: step case_prod_beta)
  qed simp
  with start grown_handleAll [of f enc steps] show ?thesis by (auto simp: grown_def loggedTo_def)
qed

lemma broken_file_sink_stays_broken_witness:
  "set (fst (handleAll exampleEncoders [(workingOS, 70 * second, exampleEnvelope)]
     (exampleFile\<lparr>fs_open := False\<rparr>))) \<subseteq> range Some"
proof -
  have "healthy exampleFile" by (simp add: healthy_def exampleFile_def)
  moreover have "rotateFileLocked (workingOS\<lparr>os_openFile := Some (OtherError ''too many open files'')\<rparr>) 0 exampleFile =
      (Some (OtherError ''too many open files''), exampleFile\<lparr>fs_open := False\<rparr>)"
    by (simp add: rotateFileLocked_def flushLocked_def closeFile_def exampleFile_def workingOS_def isCsv_def Let_def)
  ultimately show ?thesis
    using broken_file_sink_stays_broken [of exampleFile 0 "exampleFile\<lparr>fs_open := False\<rparr>" exampleEncoders exampleEncoders
        "[(workingOS, 70 * second, exampleEnvelope)]"] by blast
qed

end
