(* ===== verification/ObjectSinks.thy ===== *)
theory ObjectSinks
  imports FileSink
begin

text \<open>
  The object-store sinks (\<open>internal/sinks/s3.go\<close>, \<open>gcs.go\<close>): each buffers its messages in a file sink
  under \<open>/tmp\<close> and uploads the current file when its ticker fires and when it is closed.  They share
  all but their clients, whose upload is a parameter.  Histories are kept of the objects stored and of
  the rotations that the file sink made on its own.
\<close>

section \<open>Paths\<close>

fun splitOn :: "char \<Rightarrow> string \<Rightarrow> string list" where
  "splitOn c [] = [[]]"
| "splitOn c (x # s) = (if x = c then [] # splitOn c s
     else (case splitOn c s of [] \<Rightarrow> [[x]] | w # ws \<Rightarrow> (x # w) # ws))"

fun slashJoin :: "string list \<Rightarrow> string" where
  "slashJoin [] = []"
| "slashJoin [s] = s"
| "slashJoin (s # ss) = s @ ''/'' @ slashJoin ss"

text \<open>\<open>path.Clean\<close>, over the components and with the kept ones stacked.\<close>

definition cleanComponent :: "bool \<Rightarrow> string \<Rightarrow> string list \<Rightarrow> string list" where
  "cleanComponent rooted part stack =
     (if part = [] \<or> part = ''.'' then stack
      else if part = ''..''
      then (case stack of
          [] \<Rightarrow> if rooted then [] else [''..'']
        | t # ts \<Rightarrow> if t = ''..'' then ''..'' # stack else ts)
      else part # stack)"

definition pathClean :: "string \<Rightarrow> string" where
  "pathClean s =
     (let rooted = (s \<noteq> [] \<and> hd s = CHR ''/'');
          body = slashJoin (rev (fold (cleanComponent rooted) (splitOn (CHR ''/'') s) []))
      in if rooted then CHR ''/'' # body else if body = [] then ''.'' else body)"

definition pathJoin :: "string \<Rightarrow> string \<Rightarrow> string" where
  "pathJoin a b = (if a = [] \<and> b = [] then []
     else if a = [] then pathClean b else if b = [] then pathClean a else pathClean (a @ ''/'' @ b))"

definition baseName :: "string \<Rightarrow> string" where
  "baseName s =
     (if s = [] then ''.''
      else (let stripped = rev (dropWhile (\<lambda>c. c = CHR ''/'') (rev s)) in
        if stripped = [] then ''/'' else last (splitOn (CHR ''/'') stripped)))"

section \<open>State\<close>

record objectSink =
  ob_prefix :: string
  ob_file :: fileSink
  ob_inner :: asyncSink
  ob_uploads :: "(string \<times> string) list"
  ob_ownRotations :: nat

definition newObjectSink :: "fileOS \<Rightarrow> string \<Rightarrow> string \<Rightarrow> int \<Rightarrow> int \<Rightarrow> string \<Rightarrow> (string \<Rightarrow> string option) \<Rightarrow> gotime \<Rightarrow>
    goerror + objectSink" where
  "newObjectSink os prefix name interval queueSize policy disk now =
     (case NewFileSink os \<lparr>file_Path = ''/tmp'', file_Prefix = name, file_Format = ''json'',
         file_RotationInterval = interval, file_QueueSize = queueSize, file_BackpressurePolicy = policy,
         file_Filter = \<lparr>IncludeMessages = [], ExcludeMessages = []\<rparr>\<rparr> disk now of
        Inl e \<Rightarrow> Inl (wrapError ''failed to create file sink'' e)
      | Inr (f, q) \<Rightarrow> Inr \<lparr>ob_prefix = prefix, ob_file = f, ob_inner = q, ob_uploads = [], ob_ownRotations = 0\<rparr>)"

text \<open>The constructors give the sink, its own queue, and the interval of its upload ticker.\<close>

definition NewS3Sink :: "goerror option \<Rightarrow> fileOS \<Rightarrow> S3Config \<Rightarrow> (string \<Rightarrow> string option) \<Rightarrow> gotime \<Rightarrow>
    goerror + (objectSink \<times> asyncSink \<times> int)" where
  "NewS3Sink sessionErr os c disk now =
     (case sessionErr of
        Some e \<Rightarrow> Inl (wrapError ''failed to create AWS session'' e)
      | None \<Rightarrow>
        (case newObjectSink os (s3_Prefix c) ''s3-sink'' (s3_FlushInterval c) (s3_QueueSize c)
            (s3_BackpressurePolicy c) disk now of
           Inl e \<Rightarrow> Inl e
         | Inr s \<Rightarrow> Inr (s, NewBaseAsyncSink (s3_QueueSize c) (s3_BackpressurePolicy c), s3_FlushInterval c)))"

definition NewGCSSink :: "goerror option \<Rightarrow> fileOS \<Rightarrow> GCSConfig \<Rightarrow> (string \<Rightarrow> string option) \<Rightarrow> gotime \<Rightarrow>
    goerror + (objectSink \<times> asyncSink \<times> int)" where
  "NewGCSSink clientErr os c disk now =
     (case clientErr of
        Some e \<Rightarrow> Inl (wrapError ''failed to create GCS client'' e)
      | None \<Rightarrow>
        (let interval = (if 0 < gcs_FlushInterval c then gcs_FlushInterval c else 60 * second) in
         case newObjectSink os (gcs_Prefix c) ''gcs-sink'' interval (gcs_QueueSize c)
            (gcs_BackpressurePolicy c) disk now of
           Inl e \<Rightarrow> Inl e
         | Inr s \<Rightarrow> Inr (s, NewBaseAsyncSink (gcs_QueueSize c) (gcs_BackpressurePolicy c), interval)))"

section \<open>Operations\<close>

record uploadOS =
  up_stat :: "goerror option"
  up_seek :: "goerror option"
  up_file :: fileOS

text \<open>\<open>put\<close> is the sink's upload of an object, \<open>None\<close> when it is stored.\<close>

definition uploadAndMaybeRotateLocked :: "(string \<Rightarrow> string \<Rightarrow> goerror option) \<Rightarrow> uploadOS \<Rightarrow> bool \<Rightarrow> gotime \<Rightarrow>
    objectSink \<Rightarrow> goerror option \<times> objectSink" where
  "uploadAndMaybeRotateLocked put os rot now s =
     (let f = ob_file s; body = fileText f (fs_name f); key = pathJoin (ob_prefix s) (baseName (fs_name f)) in
      case flushLocked f of
        Some e \<Rightarrow> (Some (wrapError ''failed to flush file sink'' e), s)
      | None \<Rightarrow>
        if \<not> fs_open f then (Some (wrapError ''failed to stat file'' ErrFileClosed), s)
        else (case up_stat os of
            Some e \<Rightarrow> (Some (wrapError ''failed to stat file'' e), s)
          | None \<Rightarrow>
            if body = [] then (None, s)
            else (case up_seek os of
                Some e \<Rightarrow> (Some (wrapError ''failed to seek file'' e), s)
              | None \<Rightarrow>
                (case put key body of
                   Some e \<Rightarrow> (Some e, s)
                 | None \<Rightarrow>
                   (let s1 = s\<lparr>ob_uploads := ob_uploads s @ [(key, body)]\<rparr> in
                    if \<not> rot then (None, s1)
                    else (case rotateFileLocked (up_file os) now f of
                        (Some e, f1) \<Rightarrow> (Some (wrapError ''failed to rotate file'' e), s1\<lparr>ob_file := f1\<rparr>)
                      | (None, f1) \<Rightarrow> (None, s1\<lparr>ob_file := f1\<rparr>)))))))"

definition s3Put :: "(string \<Rightarrow> string \<Rightarrow> goerror option) \<Rightarrow> string \<Rightarrow> string \<Rightarrow> goerror option" where
  "s3Put putObject key body = map_option (wrapError ''failed to upload to S3'') (putObject key body)"

text \<open>After a failed copy the GCS sink also closes its writer; what that leaves at the store is not counted
  as a stored object.\<close>

definition gcsPut :: "(string \<Rightarrow> string \<Rightarrow> goerror option) \<Rightarrow> (string \<Rightarrow> goerror option) \<Rightarrow> string \<Rightarrow> string \<Rightarrow> goerror option" where
  "gcsPut copy closeWriter key body =
     (case copy key body of
        Some e \<Rightarrow> Some (wrapError ''failed to upload to GCS'' e)
      | None \<Rightarrow> map_option (wrapError ''failed to close GCS writer'') (closeWriter key))"

definition s3Upload where "s3Upload putObject = uploadAndMaybeRotateLocked (s3Put putObject)"
definition gcsUpload where "gcsUpload copy closeWriter = uploadAndMaybeRotateLocked (gcsPut copy closeWriter)"

definition RotateAndUpload :: "(string \<Rightarrow> string \<Rightarrow> goerror option) \<Rightarrow> uploadOS \<Rightarrow> gotime \<Rightarrow> objectSink \<Rightarrow>
    goerror option \<times> objectSink" where
  "RotateAndUpload put os now s = uploadAndMaybeRotateLocked put os True now s"

text \<open>The sinks' workers hand each message to the file sink's queue.\<close>

definition objectHandle :: "TelemetryEnvelope \<Rightarrow> objectSink \<Rightarrow> enqueueOutcome \<times> objectSink" where
  "objectHandle msg s = (case EnqueueContext msg (ob_inner s) of (out, q) \<Rightarrow> (out, s\<lparr>ob_inner := q\<rparr>))"

definition s3HandleMessage :: "TelemetryEnvelope \<Rightarrow> objectSink \<Rightarrow> enqueueOutcome \<times> objectSink" where
  "s3HandleMessage msg s =
     (case objectHandle msg s of
        (Refused e, s1) \<Rightarrow> (Refused (wrapError ''failed to write message to file sink'' e), s1)
      | r \<Rightarrow> r)"

definition gcsHandleMessage :: "TelemetryEnvelope \<Rightarrow> objectSink \<Rightarrow> enqueueOutcome \<times> objectSink" where
  "gcsHandleMessage msg s = objectHandle msg s"

text \<open>The file sink's worker takes the next message.\<close>

definition innerHandles :: "encoders \<Rightarrow> fileOS \<Rightarrow> gotime \<Rightarrow> objectSink \<Rightarrow> objectSink" where
  "innerHandles enc os now s =
     (case as_queue (ob_inner s) of
        [] \<Rightarrow> s
      | msg # _ \<Rightarrow> s\<lparr>ob_inner := workerTakes (ob_inner s), ob_file := snd (handleMessage enc os now msg (ob_file s)),
          ob_ownRotations := ob_ownRotations s + (if needsRotation now (ob_file s) then 1 else 0)\<rparr>)"

text \<open>\<open>Close\<close>, after the ticker has ended and the sink's own queue is drained: the upload comes first,
  then the file sink is closed, which drains its queue.\<close>

fun drainInner :: "encoders \<Rightarrow> fileOS \<Rightarrow> gotime \<Rightarrow> nat \<Rightarrow> objectSink \<Rightarrow> objectSink" where
  "drainInner enc os now 0 s = s"
| "drainInner enc os now (Suc n) s = drainInner enc os now n (innerHandles enc os now s)"

definition objectClose :: "(string \<Rightarrow> string \<Rightarrow> goerror option) \<Rightarrow> encoders \<Rightarrow> uploadOS \<Rightarrow> goerror option \<Rightarrow> gotime \<Rightarrow>
    objectSink \<Rightarrow> goerror option \<times> objectSink" where
  "objectClose put enc os clientClose now s =
     (case uploadAndMaybeRotateLocked put os False now s of
        (Some e, s1) \<Rightarrow> (Some e, s1)
      | (None, s1) \<Rightarrow>
        (let s2 = s1\<lparr>ob_inner := closeSink (ob_inner s1)\<rparr>;
             s3 = drainInner enc (up_file os) now (length (as_queue (ob_inner s2))) s2;
             (err, f) = closeFileSink (up_file os) (ob_file s3);
             s4 = s3\<lparr>ob_file := f, ob_inner := workerEnds (ob_inner s3)\<rparr>
         in case err of
              Some e \<Rightarrow> (Some (wrapError ''failed to close file sink'' e), s4)
            | None \<Rightarrow> (clientClose, s4)))"

definition s3Close where "s3Close putObject enc os = objectClose (s3Put putObject) enc os None"
definition gcsClose where
  "gcsClose copy closeWriter enc os clientErr =
     objectClose (gcsPut copy closeWriter) enc os (map_option (wrapError ''failed to close GCS client'') clientErr)"

section \<open>Runs\<close>

text \<open>The steps of a sink: its worker's call, a waiting call of it, the file sink's worker, the ticker and
  the close; every step has its own answers and its own instant.\<close>

inductive objectStep :: "encoders \<Rightarrow> objectSink \<Rightarrow> objectSink \<Rightarrow> bool" for enc where
  hands: "objectStep enc s (snd (objectHandle msg s))"
| waits: "msg \<in> set (as_senders (ob_inner s)) \<Longrightarrow> hasRoom (ob_inner s) \<Longrightarrow>
    objectStep enc s (s\<lparr>ob_inner := snd (sendWaiting msg (ob_inner s))\<rparr>)"
| inner: "objectStep enc s (innerHandles enc os now s)"
| ticks: "objectStep enc s (snd (RotateAndUpload put os now s))"
| closes: "objectStep enc s (snd (objectClose put enc os clientClose now s))"

inductive objectReach :: "encoders \<Rightarrow> objectSink \<Rightarrow> bool" for enc where
  created: "newObjectSink os prefix name interval n policy disk now = Inr s \<Longrightarrow> objectReach enc s"
| stepped: "objectReach enc s \<Longrightarrow> objectStep enc s s' \<Longrightarrow> objectReach enc s'"

section \<open>The invariant\<close>

definition objectKey :: "objectSink \<Rightarrow> string \<Rightarrow> string" where
  "objectKey s n = pathJoin (ob_prefix s) (baseName n)"

text \<open>A stored object is what its file held at some time; and unless the file sink has rotated on its own,
  every file written by this sink other than the current one is stored in full.\<close>

definition storedOk :: "objectSink \<Rightarrow> bool" where
  "storedOk s \<longleftrightarrow> (\<forall>(k, b) \<in> set (ob_uploads s). \<exists>n rest. k = objectKey s n \<and> fileText (ob_file s) n = b @ rest)"

definition coveredOk :: "objectSink \<Rightarrow> bool" where
  "coveredOk s \<longleftrightarrow> (\<forall>n. n \<noteq> fs_name (ob_file s) \<and> loggedTo n (fs_log (ob_file s)) \<noteq> [] \<longrightarrow>
     (objectKey s n, fileText (ob_file s) n) \<in> set (ob_uploads s))"

lemma storedOk_grown:
  assumes "storedOk s" "grown (ob_file s) (ob_file s')" "ob_uploads s' = ob_uploads s" "ob_prefix s' = ob_prefix s"
  shows "storedOk s'"
proof -
  have "\<exists>n rest. k = objectKey s' n \<and> fileText (ob_file s') n = b @ rest" if kb: "(k, b) \<in> set (ob_uploads s')" for k b
  proof -
    obtain n rest where n: "k = objectKey s n" "fileText (ob_file s) n = b @ rest"
      using assms(1) kb unfolding storedOk_def assms(3) by blast
    obtain more where "fileText (ob_file s') n = fileText (ob_file s) n @ more"
      using assms(2) unfolding grown_def by blast
    with n show ?thesis by (intro exI [of _ n] exI [of _ "rest @ more"]) (simp add: objectKey_def assms(4))
  qed
  then show ?thesis by (auto simp: storedOk_def)
qed

text \<open>A write that does not rotate touches the current file only.\<close>

definition onlyCurrent :: "fileSink \<Rightarrow> fileSink \<Rightarrow> bool" where
  "onlyCurrent f g \<longleftrightarrow> fs_name g = fs_name f \<and> (\<forall>n. n \<noteq> fs_name f \<longrightarrow> fileText g n = fileText f n \<and>
     loggedTo n (fs_log g) = loggedTo n (fs_log f))"

lemma onlyCurrent_writeFile: "onlyCurrent f (snd (writeFile os bytes f))"
  by (auto simp: onlyCurrent_def writeFile_def appendBytes_def fileText_def loggedTo_def split: writeOutcome.split)

lemma onlyCurrent_write: "onlyCurrent f (snd (writeFormat enc os msg f))"
proof -
  have csv: "onlyCurrent f (g\<lparr>fs_csvErr := e\<rparr>) = onlyCurrent f g" for g e by (simp add: onlyCurrent_def fileText_def)
  have refl: "onlyCurrent f f" by (simp add: onlyCurrent_def)
  show ?thesis
    by (simp add: writeFormat_def writeJSON_def writeBinary_def writeCSV_def Let_def case_prod_beta csv refl
        onlyCurrent_writeFile split: sum.split option.split)
qed

lemma coveredOk_onlyCurrent:
  "coveredOk s \<Longrightarrow> onlyCurrent (ob_file s) (ob_file s') \<Longrightarrow> ob_uploads s' = ob_uploads s \<Longrightarrow>
    ob_prefix s' = ob_prefix s \<Longrightarrow> coveredOk s'"
  by (auto simp: coveredOk_def onlyCurrent_def objectKey_def)

lemma rotate_texts:
  "fileText (snd (rotateFileLocked os now f)) n = fileText f n"
  "fs_log (snd (rotateFileLocked os now f)) = fs_log f"
proof -
  obtain log where log: "fs_log (snd (rotateFileLocked os now f)) = fs_log f @ log"
    "\<forall>n. fileText (snd (rotateFileLocked os now f)) n = fileText f n @ loggedTo n log"
    using grown_rotate [of f os now] unfolding grown_def by blast
  show same: "fs_log (snd (rotateFileLocked os now f)) = fs_log f"
    by (simp add: rotateFileLocked_def closeFile_def Let_def split: option.split prod.split)
  then have "log = []" using log(1) by simp
  with log(2) show "fileText (snd (rotateFileLocked os now f)) n = fileText f n" by (simp add: loggedTo_def)
qed

lemma upload_cases:
  obtains "snd (uploadAndMaybeRotateLocked put os rot now s) = s"
  | g where "snd (uploadAndMaybeRotateLocked put os rot now s) =
      s\<lparr>ob_uploads := ob_uploads s @ [(objectKey s (fs_name (ob_file s)), fileText (ob_file s) (fs_name (ob_file s)))],
        ob_file := g\<rparr>"
    "g = (if rot then snd (rotateFileLocked (up_file os) now (ob_file s)) else ob_file s)"
proof -
  let ?u = "uploadAndMaybeRotateLocked put os rot now s"
  let ?s1 = "s\<lparr>ob_uploads := ob_uploads s @ [(objectKey s (fs_name (ob_file s)), fileText (ob_file s) (fs_name (ob_file s)))]\<rparr>"
  have "snd ?u = s \<or> snd ?u = ?s1\<lparr>ob_file := (if rot then snd (rotateFileLocked (up_file os) now (ob_file s)) else ob_file s)\<rparr>"
    by (cases s) (auto simp: uploadAndMaybeRotateLocked_def objectKey_def Let_def split: option.split prod.split)
  with that show thesis by auto
qed

lemma upload_texts:
  "fileText (ob_file (snd (uploadAndMaybeRotateLocked put os rot now s))) n = fileText (ob_file s) n"
  "fs_log (ob_file (snd (uploadAndMaybeRotateLocked put os rot now s))) = fs_log (ob_file s)"
  "ob_prefix (snd (uploadAndMaybeRotateLocked put os rot now s)) = ob_prefix s"
  "ob_inner (snd (uploadAndMaybeRotateLocked put os rot now s)) = ob_inner s"
  "ob_ownRotations (snd (uploadAndMaybeRotateLocked put os rot now s)) = ob_ownRotations s"
  by (cases rule: upload_cases [of put os rot now s]; simp add: rotate_texts)+

lemma upload_stored: "storedOk s \<Longrightarrow> storedOk (snd (uploadAndMaybeRotateLocked put os rot now s))"
proof (cases rule: upload_cases [of put os rot now s])
  case (2 g)
  assume ok: "storedOk s"
  have texts: "fileText g n = fileText (ob_file s) n" for n by (simp add: 2(2) rotate_texts)
  show ?thesis using ok unfolding 2(1) by (auto simp: storedOk_def objectKey_def texts)
qed simp

lemma upload_covered: "coveredOk s \<Longrightarrow> coveredOk (snd (uploadAndMaybeRotateLocked put os rot now s))"
proof (cases rule: upload_cases [of put os rot now s])
  case (2 g)
  assume ok: "coveredOk s"
  have texts: "fileText g n = fileText (ob_file s) n" "fs_log g = fs_log (ob_file s)" for n
    by (simp_all add: 2(2) rotate_texts)
  have "(objectKey s n, fileText (ob_file s) n) \<in>
      set (ob_uploads s @ [(objectKey s (fs_name (ob_file s)), fileText (ob_file s) (fs_name (ob_file s)))])"
    if "loggedTo n (fs_log (ob_file s)) \<noteq> []" for n
    using ok that by (cases "n = fs_name (ob_file s)") (simp_all add: coveredOk_def)
  then show ?thesis unfolding 2(1) by (simp add: coveredOk_def objectKey_def texts)
qed simp

definition objectOk :: "objectSink \<Rightarrow> bool" where
  "objectOk s \<longleftrightarrow> storedOk s \<and> (ob_ownRotations s = 0 \<longrightarrow> coveredOk s)"

lemma objectOk_upload: "objectOk s \<Longrightarrow> objectOk (snd (uploadAndMaybeRotateLocked put os rot now s))"
  by (simp add: objectOk_def upload_stored upload_covered upload_texts)

text \<open>Changes to the queue do not matter.\<close>

lemma objectOk_queue [simp]: "objectOk (s\<lparr>ob_inner := q\<rparr>) = objectOk s"
  by (simp add: objectOk_def storedOk_def coveredOk_def objectKey_def)

lemma objectOk_inner:
  assumes "objectOk s"
  shows "objectOk (innerHandles enc os now s)"
proof (cases "as_queue (ob_inner s)")
  case (Cons msg rest)
  let ?s = "innerHandles enc os now s"
  have s: "ob_file ?s = snd (handleMessage enc os now msg (ob_file s))" "ob_uploads ?s = ob_uploads s"
    "ob_prefix ?s = ob_prefix s"
    "ob_ownRotations ?s = ob_ownRotations s + (if needsRotation now (ob_file s) then 1 else 0)"
    by (simp_all add: innerHandles_def Cons)
  have "storedOk ?s"
    by (rule storedOk_grown [of s]) (use assms in \<open>simp_all add: objectOk_def s grown_handleMessage\<close>)
  moreover have "coveredOk ?s" if none: "ob_ownRotations ?s = 0"
  proof -
    have "\<not> needsRotation now (ob_file s)" "ob_ownRotations s = 0" using none by (simp_all add: s split: if_splits)
    then have "onlyCurrent (ob_file s) (ob_file ?s)" "coveredOk s"
      using assms by (simp_all add: s handleMessage_def onlyCurrent_write objectOk_def)
    then show ?thesis using coveredOk_onlyCurrent s(2,3) by blast
  qed
  ultimately show ?thesis by (simp add: objectOk_def)
qed (simp add: innerHandles_def assms)

lemma objectOk_drain: "objectOk s \<Longrightarrow> objectOk (drainInner enc os now n s)"
  by (induction n arbitrary: s) (simp_all add: objectOk_inner)

lemma objectOk_closeFile:
  assumes "objectOk s"
  shows "objectOk (s\<lparr>ob_file := snd (closeFileSink os (ob_file s))\<rparr>)"
proof -
  have "fileText (snd (closeFileSink os f)) n = fileText f n" "fs_log (snd (closeFileSink os f)) = fs_log f"
    "fs_name (snd (closeFileSink os f)) = fs_name f" for n f
    by (simp_all add: closeFileSink_def closeFile_def fileText_def split: option.split)
  with assms show ?thesis by (simp add: objectOk_def storedOk_def coveredOk_def objectKey_def)
qed

lemma objectOk_close:
  assumes "objectOk s"
  shows "objectOk (snd (objectClose put enc os clientClose now s))"
proof -
  define s1 where "s1 = snd (uploadAndMaybeRotateLocked put os False now s)"
  define s2 where "s2 = s1\<lparr>ob_inner := closeSink (ob_inner s1)\<rparr>"
  define s3 where "s3 = drainInner enc (up_file os) now (length (as_queue (ob_inner s2))) s2"
  have "snd (objectClose put enc os clientClose now s) = s1 \<or> snd (objectClose put enc os clientClose now s) =
      (s3\<lparr>ob_file := snd (closeFileSink (up_file os) (ob_file s3))\<rparr>)\<lparr>ob_inner := workerEnds (ob_inner s3)\<rparr>"
    by (auto simp: objectClose_def s1_def s2_def s3_def Let_def case_prod_beta split: option.split prod.split)
  moreover have "objectOk s1" "objectOk s3"
    using assms by (simp_all add: s1_def s2_def s3_def objectOk_upload objectOk_drain)
  ultimately show ?thesis using objectOk_closeFile by auto
qed

lemma objectOk_step: "objectStep enc s s' \<Longrightarrow> objectOk s \<Longrightarrow> objectOk s'"
  by (induction rule: objectStep.induct)
    (simp_all add: objectHandle_def RotateAndUpload_def objectOk_inner objectOk_upload objectOk_close split: prod.split)

lemma objectOk_reach: "objectReach enc s \<Longrightarrow> objectOk s"
proof (induction rule: objectReach.induct)
  case (created os prefix name interval n policy disk now s)
  then have "ob_uploads s = []" "fs_log (ob_file s) = []"
    by (auto simp: newObjectSink_def NewFileSink_def Let_def split: option.splits sum.splits)
  then show ?case by (simp add: objectOk_def storedOk_def coveredOk_def loggedTo_def)
next
  case (stepped s s')
  then show ?case using objectOk_step by blast
qed

section \<open>Properties\<close>

text \<open>C29: In every interleaving of the workers, the ticker and the close, and whatever the operating system
  and the object store answer, each stored object is the beginning of the text its file has; and as
  long as the file sink has not rotated a file on its own, every file that was written to, other than
  the current one, is stored in full, so that nothing is lost to a failed upload or rotation.\<close>

theorem uploads_cover_files:
  assumes "objectReach enc s"
  shows "(\<forall>(k, b) \<in> set (ob_uploads s). \<exists>n rest. k = pathJoin (ob_prefix s) (baseName n) \<and>
      fileText (ob_file s) n = b @ rest) \<and>
    (ob_ownRotations s = 0 \<longrightarrow> (\<forall>n. n \<noteq> fs_name (ob_file s) \<and> loggedTo n (fs_log (ob_file s)) \<noteq> [] \<longrightarrow>
      (pathJoin (ob_prefix s) (baseName n), fileText (ob_file s) n) \<in> set (ob_uploads s)))"
  using objectOk_reach [OF assms] by (simp add: objectOk_def storedOk_def coveredOk_def objectKey_def)

text \<open>A sink with an interval of a minute, created at the instant zero, and the record of its messages.\<close>

definition exampleObject :: objectSink where
  "exampleObject = (case newObjectSink workingOS ''p'' ''s3-sink'' (60 * second) 10 ''drop'' (\<lambda>_. None) 0 of
     Inr s \<Rightarrow> s | Inl _ \<Rightarrow> \<lparr>ob_prefix = [], ob_file = exampleFile, ob_inner = NewBaseAsyncSink 1 [],
       ob_uploads = [], ob_ownRotations = 0\<rparr>)"

definition takesOne :: "gotime \<Rightarrow> objectSink \<Rightarrow> objectSink" where
  "takesOne now s = innerHandles exampleEncoders workingOS now (snd (objectHandle exampleEnvelope s))"

definition uploadsOk :: "gotime \<Rightarrow> objectSink \<Rightarrow> objectSink" where
  "uploadsOk now s = snd (RotateAndUpload (\<lambda>key body. None)
     \<lparr>up_stat = None, up_seek = None, up_file = workingOS\<rparr> now s)"

lemma exampleObject_reach: "objectReach exampleEncoders exampleObject"
proof -
  obtain s where "newObjectSink workingOS ''p'' ''s3-sink'' (60 * second) 10 ''drop'' (\<lambda>_. None) 0 = Inr s"
    by (auto simp: newObjectSink_def NewFileSink_def workingOS_def Let_def)
  then show ?thesis using objectReach.created by (auto simp: exampleObject_def)
qed

lemma takesOne_reach: "objectReach exampleEncoders s \<Longrightarrow> objectReach exampleEncoders (takesOne now s)"
  unfolding takesOne_def by (blast intro: objectReach.stepped objectStep.hands objectStep.inner)

lemma uploadsOk_reach: "objectReach exampleEncoders s \<Longrightarrow> objectReach exampleEncoders (uploadsOk now s)"
  unfolding uploadsOk_def by (blast intro: objectReach.stepped objectStep.ticks)

definition onTime :: objectSink where
  "onTime = uploadsOk (61 * second) (takesOne (30 * second) exampleObject)"

lemma onTime_reach: "objectReach exampleEncoders onTime"
  unfolding onTime_def by (rule uploadsOk_reach [OF takesOne_reach [OF exampleObject_reach]])

lemma uploads_cover_files_witness:
  "(''p/s3-sink_0.json'', fileText (ob_file onTime) ''/tmp/s3-sink_0.json'') \<in> set (ob_uploads onTime)"
proof -
  have none: "ob_ownRotations onTime = 0" by code_simp
  have "''/tmp/s3-sink_0.json'' \<noteq> fs_name (ob_file onTime)" by code_simp
  moreover have "loggedTo ''/tmp/s3-sink_0.json'' (fs_log (ob_file onTime)) \<noteq> []" by code_simp
  ultimately have "(pathJoin (ob_prefix onTime) (baseName ''/tmp/s3-sink_0.json''),
      fileText (ob_file onTime) ''/tmp/s3-sink_0.json'') \<in> set (ob_uploads onTime)"
    using conjunct2 [OF uploads_cover_files [OF onTime_reach]] none by blast
  moreover have "pathJoin (ob_prefix onTime) (baseName ''/tmp/s3-sink_0.json'') = ''p/s3-sink_0.json''" by code_simp
  ultimately show ?thesis by (simp only:)
qed

section \<open>What is not uploaded\<close>

text \<open>The file sink rotates by the same interval as the ticker uploads.  When a message comes first after
  the interval, the file sink rotates the full file away; the upload that follows finds the new one,
  and no later step uploads the old.\<close>

definition lateUpload :: objectSink where
  "lateUpload = uploadsOk (62 * second) (takesOne (61 * second) (takesOne (30 * second) exampleObject))"

lemma lateUpload_reach: "objectReach exampleEncoders lateUpload"
  unfolding lateUpload_def by (rule uploadsOk_reach [OF takesOne_reach [OF takesOne_reach [OF exampleObject_reach]]])

lemma own_rotation_skips_upload:
  "ob_uploads lateUpload = [(''p/s3-sink_61.json'', ''{}'' @ [CHR 0x0A])]"
  by code_simp

lemma own_rotation_keeps_local_file:
  "fileText (ob_file lateUpload) ''/tmp/s3-sink_0.json'' = ''{}'' @ [CHR 0x0A]"
  by code_simp

text \<open>\<open>Close\<close> uploads before the file sink's queue is drained: what was still queued reaches the local
  file only.\<close>

definition closesOk :: "gotime \<Rightarrow> objectSink \<Rightarrow> goerror option \<times> objectSink" where
  "closesOk now s = objectClose (\<lambda>key body. None) exampleEncoders
     \<lparr>up_stat = None, up_seek = None, up_file = workingOS\<rparr> None now s"

lemma close_uploads_before_draining:
  "fst (closesOk second (snd (objectHandle exampleEnvelope exampleObject))) = None"
  "ob_uploads (snd (closesOk second (snd (objectHandle exampleEnvelope exampleObject)))) = []"
  "fileText (ob_file (snd (closesOk second (snd (objectHandle exampleEnvelope exampleObject)))))
     ''/tmp/s3-sink_0.json'' = ''{}'' @ [CHR 0x0A]"
  by code_simp+

text \<open>An S3 sink whose flush interval is not configured has a ticker of interval zero, which panics; the
  GCS sink's interval is always positive.\<close>

lemma upload_intervals:
  "NewS3Sink None os c disk now = Inr (s, q, interval) \<Longrightarrow> interval = s3_FlushInterval c"
  "NewGCSSink None os c' disk now = Inr (s, q, interval) \<Longrightarrow> 0 < interval"
  by (auto simp: NewS3Sink_def NewGCSSink_def Let_def split: sum.splits if_splits)

end
