(* ===== verification/KafkaSink.thy ===== *)
theory KafkaSink
  imports FileSink
begin

text \<open>
  The Kafka sink (\<open>internal/sinks/kafka.go\<close>): the producer's configuration, the message made of an
  envelope, and the wait for its delivery report.  The producer is a parameter: what \<open>Produce\<close> returns
  and the event that arrives on the delivery channel, if one does within five seconds.
\<close>

fun joinWith :: "string \<Rightarrow> string list \<Rightarrow> string" where
  "joinWith sep [] = []"
| "joinWith sep [s] = s"
| "joinWith sep (s # ss) = s @ sep @ joinWith sep ss"

definition kafkaConfigMap :: "KafkaConfig \<Rightarrow> string gomap" where
  "kafkaConfigMap c =
     [(''bootstrap.servers'', joinWith '','' (kfk_Brokers c)), (''acks'', ''all''), (''retries'', showNat 3),
      (''retry.backoff.ms'', showNat 100), (''compression.type'', ''snappy''), (''linger.ms'', showNat 10),
      (''batch.size'', showNat 16384)]"

definition NewKafkaSink :: "KafkaConfig \<Rightarrow> goerror option \<Rightarrow> goerror + (string \<times> asyncSink)" where
  "NewKafkaSink c producerErr =
     (case producerErr of
        Some e \<Rightarrow> Inl (wrapError ''failed to create Kafka producer'' e)
      | None \<Rightarrow> Inr (kfk_Topic c, NewBaseAsyncSink (kfk_QueueSize c) (kfk_BackpressurePolicy c)))"

record kafkaMessage =
  km_Topic :: string
  km_Key :: string
  km_Value :: string
  km_Headers :: "string gomap"

definition kafkaMessageOf :: "string \<Rightarrow> TelemetryEnvelope \<Rightarrow> string \<Rightarrow> kafkaMessage" where
  "kafkaMessageOf topic msg jsonData =
     \<lparr>km_Topic = topic, km_Key = env_Source msg, km_Value = jsonData,
      km_Headers = [(''original_timestamp'', formatRFC3339Nano (env_TimestampRelay msg))]\<rparr>"

text \<open>A delivery report with its error, an error of the producer, or an event of another kind.\<close>

datatype kafkaEvent = Delivery "goerror option" | ProducerError goerror | OtherEvent

definition kafkaHandleMessage :: "encoders \<Rightarrow> string \<Rightarrow> (kafkaMessage \<Rightarrow> goerror option) \<Rightarrow>
    (kafkaMessage \<Rightarrow> kafkaEvent option) \<Rightarrow> TelemetryEnvelope \<Rightarrow> goerror option" where
  "kafkaHandleMessage enc topic produce report msg =
     (case enc_json enc msg of
        Inl e \<Rightarrow> Some (wrapError ''failed to serialize message'' e)
      | Inr jsonData \<Rightarrow>
        (let m = kafkaMessageOf topic msg jsonData in
         case produce m of
           Some e \<Rightarrow> Some (wrapError ''failed to produce message to Kafka'' e)
         | None \<Rightarrow>
           (case report m of
              Some (Delivery (Some e)) \<Rightarrow> Some (wrapError ''delivery failed'' e)
            | Some (Delivery None) \<Rightarrow> None
            | Some (ProducerError e) \<Rightarrow> Some (wrapError ''producer error'' e)
            | Some OtherEvent \<Rightarrow> None
            | None \<Rightarrow> Some (OtherError ''timeout waiting for message delivery''))))"

text \<open>\<open>Close\<close> closes the queue; flushing and closing the producer report nothing.\<close>

definition kafkaClose :: "asyncSink \<Rightarrow> goerror option \<times> asyncSink" where
  "kafkaClose q = (None, closeSink q)"

text \<open>A message that the worker counts as handled was produced, and no report said otherwise.\<close>

lemma kafka_handled:
  "kafkaHandleMessage enc topic produce report msg = None \<Longrightarrow>
    \<exists>jsonData. enc_json enc msg = Inr jsonData \<and> produce (kafkaMessageOf topic msg jsonData) = None \<and>
      report (kafkaMessageOf topic msg jsonData) \<in> {Some (Delivery None), Some OtherEvent}"
  by (auto simp: kafkaHandleMessage_def Let_def split: sum.splits option.splits kafkaEvent.splits)

end
